(* ===== verification/Election_Prelude.thy ===== *)
theory Election_Prelude
  imports Main "HOL-Library.Word" "HOL-Library.Signed_Division"
begin

text \<open>
  Shared vocabulary of the development: the machine types the Go sources use
  (\<open>uint64\<close>, \<open>int64\<close>, \<open>time.Duration\<close>, \<open>time.Time\<close>, \<open>[]byte\<close>), the operations of the
  Go language and standard library on them that the sources call, and the generic lemmas
  on lists and maps the component theories use. The collection \<open>go_simps\<close>
  gathers the unfolding equations of these standard operations.
\<close>

named_theorems go_simps

section \<open>Machine types\<close>

type_synonym u64 = "64 word"
type_synonym byte = "8 word"

text \<open>A \<open>[]byte\<close> is nil (\<open>None\<close>) or holds bytes; \<open>len(nil)\<close> is 0.\<close>

type_synonym bytes = "byte list option"

text \<open>\<open>time.Duration\<close> is an \<open>int64\<close> count of nanoseconds. \<open>time.Time\<close> is kept as the
  number of nanoseconds since the zero \<open>Time\<close>, so that \<open>IsZero t\<close> is \<open>t = 0\<close>.\<close>

type_synonym duration = int
type_synonym gotime = int
type_synonym timer_id = int

definition wrap64 :: "int \<Rightarrow> int" where
  "wrap64 x = (x + 2 ^ 63) mod 2 ^ 64 - 2 ^ 63"

definition maxDuration :: duration where
  "maxDuration = 2 ^ 63 - 1"

definition minDuration :: duration where
  "minDuration = - (2 ^ 63)"

text \<open>\<open>Time.Sub\<close> saturates at the bounds of \<open>Duration\<close>.\<close>

definition time_Sub :: "gotime \<Rightarrow> gotime \<Rightarrow> duration" where
  "time_Sub t u = max minDuration (min maxDuration (t - u))"

definition time_Add :: "gotime \<Rightarrow> duration \<Rightarrow> gotime" where
  "time_Add t d = t + d"

definition time_IsZero :: "gotime \<Rightarrow> bool" where
  "time_IsZero t \<longleftrightarrow> t = 0"

definition second :: duration where
  "second = 1000000000"

section \<open>Byte slices\<close>

definition bytes_val :: "bytes \<Rightarrow> byte list" where
  "bytes_val b = (case b of None \<Rightarrow> [] | Some xs \<Rightarrow> xs)"

definition bytes_len :: "bytes \<Rightarrow> nat" where
  "bytes_len b = length (bytes_val b)"

text \<open>\<open>bytes.Equal\<close>: nil is equal to the empty slice.\<close>

definition bytes_Equal :: "bytes \<Rightarrow> bytes \<Rightarrow> bool" where
  "bytes_Equal a b \<longleftrightarrow> bytes_val a = bytes_val b"

lemma bytes_Equal_refl [simp]: "bytes_Equal a a"
  by (simp add: bytes_Equal_def)

lemma bytes_Equal_sym: "bytes_Equal a b \<Longrightarrow> bytes_Equal b a"
  by (simp add: bytes_Equal_def)

lemma bytes_Equal_trans: "bytes_Equal a b \<Longrightarrow> bytes_Equal b c \<Longrightarrow> bytes_Equal a c"
  by (simp add: bytes_Equal_def)

declare wrap64_def [go_simps] maxDuration_def [go_simps] minDuration_def [go_simps]
  time_Sub_def [go_simps] time_Add_def [go_simps] time_IsZero_def [go_simps]
  second_def [go_simps] bytes_val_def [go_simps] bytes_len_def [go_simps]
  bytes_Equal_def [go_simps]

section \<open>Arithmetic lemmas\<close>

lemma wrap64_id: "minDuration \<le> x \<Longrightarrow> x \<le> maxDuration \<Longrightarrow> wrap64 x = x"
  by (simp add: go_simps)

lemma wrap64_range: "minDuration \<le> wrap64 x \<and> wrap64 x \<le> maxDuration"
proof -
  have "0 \<le> (x + 2 ^ 63) mod 2 ^ 64 \<and> (x + 2 ^ 63) mod 2 ^ 64 < 2 ^ 64"
    by (intro conjI pos_mod_sign pos_mod_bound) simp_all
  then show ?thesis by (simp add: go_simps)
qed

lemma smod_nonneg_eq: "0 \<le> (a::int) \<Longrightarrow> 0 < b \<Longrightarrow> a smod b = a mod b"
  by (simp add: smod_int_alt_def sgn_if)

lemma sdiv_nonneg_eq: "0 \<le> (a::int) \<Longrightarrow> 0 < b \<Longrightarrow> a sdiv b = a div b"
  by (simp add: signed_divide_int_def sgn_if)

lemma sdiv_zero_iff: "0 < k \<Longrightarrow> (d::int) sdiv k = 0 \<longleftrightarrow> \<bar>d\<bar> < k"
  by (auto simp: signed_divide_int_def sgn_if div_eq_0_iff
      dest: pos_imp_zdiv_pos_iff [THEN iffD2, of k "\<bar>d\<bar>"])

lemma word_succ_greater: "(t :: u64) \<noteq> - 1 \<Longrightarrow> t < t + 1"
proof -
  assume "t \<noteq> - 1"
  then have "1 + t \<noteq> 0" by (metis add_eq_0_iff minus_equation_iff)
  then have "unat (1 + t) = Suc (unat t)" by (rule unatSuc)
  then show ?thesis by (simp add: word_less_nat_alt add.commute)
qed

section \<open>First match in a list\<close>

text \<open>\<open>map_first P f xs\<close> changes the first element that satisfies \<open>P\<close>: the shape of every
  \<open>for i := range xs { if P(xs[i]) { ...; break } }\<close> loop of the sources.\<close>

fun map_first :: "('a \<Rightarrow> bool) \<Rightarrow> ('a \<Rightarrow> 'a) \<Rightarrow> 'a list \<Rightarrow> 'a list" where
  "map_first P f [] = []"
| "map_first P f (x # xs) = (if P x then f x # xs else x # map_first P f xs)"

lemma length_map_first [simp]: "length (map_first P f xs) = length xs"
  by (induction xs) auto

lemma map_map_first:
  assumes "\<And>x. g (f x) = g x"
  shows "map g (map_first P f xs) = map g xs"
  by (induction xs) (auto simp: assms)

lemma map_first_none: "\<forall>x \<in> set xs. \<not> P x \<Longrightarrow> map_first P f xs = xs"
  by (induction xs) auto

lemma find_map_first:
  assumes "\<And>x. P (f x) = P x"
  shows "find P (map_first P f xs) = map_option f (find P xs)"
  by (induction xs) (auto simp: assms)

lemma find_other_map_first:
  assumes "\<And>x. P x \<Longrightarrow> \<not> Q x" and "\<And>x. P (f x) = P x"
  shows "find Q (map_first P f xs) = find Q xs"
  using assms by (induction xs) auto

end
