(* ===== verification/Engine.thy ===== *)
theory Engine
  imports Election_Prelude
begin

text \<open>
  The vocabulary of \<open>src/internal/engine\<close> (and its re-exports in \<open>src/types.go\<close>): RPC
  messages, the IO requests a coroutine yields, the responses it is resumed with, the
  events delivered through \<open>Recv\<close>, and the error values of the module. A Go callback
  carried by an event is an identity (a natural number): calling it is an output of the
  model (theory \<open>Coroutine\<close>), and a nil callback is \<open>None\<close>.
\<close>

section \<open>Error values\<close>

text \<open>The sentinel errors of the module, a context error and errors built from a text.\<close>

datatype error = ErrNotLeader | ErrMetadataTooLarge | ErrDropped | CtxErr | ErrText string

section \<open>RPC messages (internal/engine/rpc.go)\<close>

text \<open>\<open>type RPC string\<close> and its constants.\<close>

type_synonym RPC = string

definition HeartBeatRPC :: RPC where "HeartBeatRPC = ''heartbeat''"
definition VoteRPC :: RPC where "VoteRPC = ''vote''"
definition ResetElectionRPC :: RPC where "ResetElectionRPC = ''reset_election''"
definition ResignRPC :: RPC where "ResignRPC = ''resign''"
definition SetPeersRPC :: RPC where "SetPeersRPC = ''set_peers''"
definition SetMetadataRPC :: RPC where "SetMetadataRPC = ''set_metadata''"

lemmas rpc_names =
  HeartBeatRPC_def VoteRPC_def ResetElectionRPC_def ResignRPC_def SetPeersRPC_def SetMetadataRPC_def

record peer =
  Address :: string
  Metadata :: bytes

record voteReq =
  vq_Term :: u64
  vq_Candidate :: string

record voteResp =
  vp_Term :: u64
  vp_Granted :: bool

record heartBeatReq =
  hq_Term :: u64
  hq_Leader :: string
  hq_Metadata :: bytes

record heartBeatResp =
  hp_Term :: u64
  hp_Metadata :: bytes

text \<open>The dynamic types the \<open>any\<close> fields \<open>Request\<close> and \<open>Response\<close> are compared with by
  type switches and type assertions. The last constructor stands for nil and for every
  other dynamic type. \<open>ResignResp\<close> carries its \<open>Success\<close> flag.\<close>

datatype request =
    VoteReq voteReq
  | HeartBeatReq heartBeatReq
  | ResetElectionReq
  | ResignReq
  | SetPeersReq "string list"
  | SetMetadataReq bytes
  | OtherReq

datatype response =
    VoteResp voteResp
  | HeartBeatResp heartBeatResp
  | ResetElectionResp
  | ResignResp bool
  | SetPeersResp
  | SetMetadataResp
  | OtherResp

record rpcRequest =
  rq_RPC :: RPC
  rq_Request :: request

record rpcResponse =
  rp_RPC :: RPC
  rp_Response :: response
  rp_Error :: string

section \<open>IO vocabulary (internal/engine/engine.go)\<close>

datatype kind = SendRPC | Recv | After | Cancel | Now

datatype eventKind =
    EventRPC
  | EventTimer
  | EventSetPeers
  | EventResign
  | EventShutdown
  | EventSetMetadata

type_synonym callback = nat

record event =
  ev_Kind :: eventKind
  ev_RPCReq :: rpcRequest
  ev_TimerID :: timer_id
  ev_Peers :: "string list"
  ev_Metadata :: bytes
  ev_Respond :: "callback option"
  ev_Done :: "callback option"

record req =
  q_Kind :: kind
  q_Peer :: string
  q_RPCReq :: rpcRequest
  q_Delay :: duration
  q_TimerID :: timer_id

record resp =
  r_Kind :: kind
  r_RPCResp :: rpcResponse
  r_Err :: "error option"
  r_Event :: event
  r_TimerID :: timer_id
  r_Time :: gotime

text \<open>Zero values of the structs: a Go composite literal names some fields and leaves the
  others at zero. The zero \<open>Kind\<close> (0) is no constant of the enum; every literal of the
  sources sets the kind, so the value written here is always replaced.\<close>

definition rpcRequest0 :: rpcRequest where
  "rpcRequest0 = \<lparr>rq_RPC = [], rq_Request = OtherReq\<rparr>"

definition rpcResponse0 :: rpcResponse where
  "rpcResponse0 = \<lparr>rp_RPC = [], rp_Response = OtherResp, rp_Error = []\<rparr>"

definition event_of :: "eventKind \<Rightarrow> event" where
  "event_of k = \<lparr>ev_Kind = k, ev_RPCReq = rpcRequest0, ev_TimerID = 0, ev_Peers = [],
     ev_Metadata = None, ev_Respond = None, ev_Done = None\<rparr>"

definition req_of :: "kind \<Rightarrow> req" where
  "req_of k = \<lparr>q_Kind = k, q_Peer = [], q_RPCReq = rpcRequest0, q_Delay = 0, q_TimerID = 0\<rparr>"

definition resp_of :: "kind \<Rightarrow> resp" where
  "resp_of k = \<lparr>r_Kind = k, r_RPCResp = rpcResponse0, r_Err = None,
     r_Event = event_of EventTimer, r_TimerID = 0, r_Time = 0\<rparr>"

abbreviation recvReq :: req where "recvReq \<equiv> req_of Recv"
abbreviation nowReq :: req where "nowReq \<equiv> req_of Now"
abbreviation afterReq :: "duration \<Rightarrow> req" where
  "afterReq d \<equiv> (req_of After)\<lparr>q_Delay := d\<rparr>"
abbreviation cancelReq :: "timer_id \<Rightarrow> req" where
  "cancelReq t \<equiv> (req_of Cancel)\<lparr>q_TimerID := t\<rparr>"
abbreviation sendReq :: "string \<Rightarrow> rpcRequest \<Rightarrow> req" where
  "sendReq p r \<equiv> (req_of SendRPC)\<lparr>q_Peer := p, q_RPCReq := r\<rparr>"

end
