(* ===== verification/Coroutine.thy ===== *)
theory Coroutine
  imports Engine
begin

text \<open>
  Cooperative coroutines as resumptions. A coroutine body runs on a shared world until it
  finishes, panics, yields an IO request (\<open>gocoro.YieldAndAwait\<close>) or awaits the promise of
  a coroutine it spawned (\<open>gocoro.Await\<close>). In the last two cases it leaves the world as it
  is at that point and the continuation the scheduler resumes later, possibly on a world
  that other coroutines changed in between.

  The predicate \<open>rg\<close> is rely-guarantee reasoning for such bodies: \<open>R\<close> is what the other
  coroutines may do while this one is blocked, \<open>G\<close> what every uninterrupted stretch of
  this one does, \<open>Q\<close> what holds of the result and \<open>E\<close> what holds when it panics.
\<close>

datatype ('a, 'w) step =
    Done 'a 'w
  | Panic 'w
  | Yield req 'w "resp \<Rightarrow> 'w \<Rightarrow> ('a, 'w) step"
  | Await nat 'w "voteResp \<Rightarrow> 'w \<Rightarrow> ('a, 'w) step"

text \<open>Induction over a body, with one hypothesis for each resumption of a continuation.\<close>

lemma step_induct [case_names Done Panic Yield Await]:
  assumes "\<And>a w. P (Done a w)" and "\<And>w. P (Panic w)"
    and "\<And>q w k. (\<And>r w'. P (k r w')) \<Longrightarrow> P (Yield q w k)"
    and "\<And>p w k. (\<And>v w'. P (k v w')) \<Longrightarrow> P (Await p w k)"
  shows "P s"
proof (induction s)
  case (Yield q w k)
  show ?case by (rule assms(3)) (blast intro: Yield rangeI)
next
  case (Await p w k)
  show ?case by (rule assms(4)) (blast intro: Await rangeI)
qed (rule assms)+

primrec world_of :: "('a, 'w) step \<Rightarrow> 'w" where
  "world_of (Done a w) = w"
| "world_of (Panic w) = w"
| "world_of (Yield q w k) = w"
| "world_of (Await p w k) = w"

text \<open>Sequencing of two bodies (a Go call followed by the rest of the caller).\<close>

primrec andThen :: "('a, 'w) step \<Rightarrow> ('a \<Rightarrow> 'w \<Rightarrow> ('b, 'w) step) \<Rightarrow> ('b, 'w) step" where
  "andThen (Done a w) f = f a w"
| "andThen (Panic w) f = Panic w"
| "andThen (Yield q w k) f = Yield q w (\<lambda>r w'. andThen (k r w') f)"
| "andThen (Await p w k) f = Await p w (\<lambda>v w'. andThen (k v w') f)"

lemma andThen_assoc: "andThen (andThen p f) g = andThen p (\<lambda>a w. andThen (f a w) g)"
  by (induction p rule: step_induct) simp_all

lemma andThen_Done: "andThen p Done = p"
  by (induction p rule: step_induct) auto

section \<open>Rely-guarantee\<close>

primrec rg ::
  "('w \<Rightarrow> 'w \<Rightarrow> bool) \<Rightarrow> ('w \<Rightarrow> 'w \<Rightarrow> bool) \<Rightarrow> ('a \<Rightarrow> 'w \<Rightarrow> bool) \<Rightarrow> ('w \<Rightarrow> bool)
    \<Rightarrow> ('a, 'w) step \<Rightarrow> 'w \<Rightarrow> bool" where
  "rg R G Q E (Done a w') w = (G w w' \<and> Q a w')"
| "rg R G Q E (Panic w') w = (G w w' \<and> E w')"
| "rg R G Q E (Yield q w' k) w = (G w w' \<and> (\<forall>r w1. R w' w1 \<longrightarrow> rg R G Q E (k r w1) w1))"
| "rg R G Q E (Await p w' k) w = (G w w' \<and> (\<forall>v w1. R w' w1 \<longrightarrow> rg R G Q E (k v w1) w1))"

lemma rg_guarantee: "rg R G Q E p w \<Longrightarrow> G w (world_of p)"
  by (cases p) auto

lemma rg_weaken:
  assumes "rg R G Q E p w"
    and "\<And>w w'. R' w w' \<Longrightarrow> R w w'" and "\<And>w w'. G w w' \<Longrightarrow> G' w w'"
    and "\<And>a w. Q a w \<Longrightarrow> Q' a w" and "\<And>w. E w \<Longrightarrow> E' w"
  shows "rg R' G' Q' E' p w"
  using assms by (induction p arbitrary: w rule: step_induct) auto

text \<open>A guarantee that composes lets the starting world of a stretch be moved back.\<close>

lemma rg_prefix:
  assumes "G w0 w" and "rg R G Q E p w"
    and trans: "\<And>x y z. G x y \<Longrightarrow> G y z \<Longrightarrow> G x z"
  shows "rg R G Q E p w0"
  using assms by (cases p) (auto intro: trans)

lemma rg_andThen:
  assumes "rg R G Q E p w"
    and "\<And>a w'. Q a w' \<Longrightarrow> rg R G Q' E (f a w') w'"
    and trans: "\<And>x y z. G x y \<Longrightarrow> G y z \<Longrightarrow> G x z"
  shows "rg R G Q' E (andThen p f) w"
  using assms(1)
proof (induction p arbitrary: w rule: step_induct)
  case (Done a w')
  then show ?case using assms(2) by (auto intro: rg_prefix [OF _ _ trans])
qed auto

text \<open>A stronger relation for the second body may be absorbed into the guarantee.\<close>

lemma rg_andThen_absorb:
  assumes "rg R G Q E p w"
    and "\<And>a w'. Q a w' \<Longrightarrow> rg R H Q' E (f a w') w'"
    and "\<And>x y. H x y \<Longrightarrow> G x y" and absorb: "\<And>x y z. G x y \<Longrightarrow> H y z \<Longrightarrow> G x z"
  shows "rg R G Q' E (andThen p f) w"
  using assms(1)
proof (induction p arbitrary: w rule: step_induct)
  case (Done a w')
  then have g: "G w w'" and h: "rg R H Q' E (f a w') w'" using assms(2) by auto
  from h have "rg R G Q' E (f a w') w'" by (rule rg_weaken) (auto intro: assms(3))
  with g h show ?case by (cases "f a w'") (auto intro: absorb)
qed auto

text \<open>What both the rely and the guarantee keep is known of the result, too.\<close>

lemma rg_post_from:
  assumes "rg R G Q E p w" and "\<And>y. G w y \<Longrightarrow> A w0 y"
    and "\<And>x y. R x y \<Longrightarrow> A x y" and "\<And>x y. G x y \<Longrightarrow> A x y"
    and trans: "\<And>x y z. A x y \<Longrightarrow> A y z \<Longrightarrow> A x z"
  shows "rg R G (\<lambda>a w'. Q a w' \<and> A w0 w') E p w"
  using assms(1,2)
proof (induction p arbitrary: w rule: step_induct)
  case (Yield q w' k)
  then show ?case by simp (meson assms(3,4) trans)
next
  case (Await q w' k)
  then show ?case by simp (meson assms(3,4) trans)
qed auto

lemma rg_post:
  assumes "rg R G Q E p w"
    and "\<And>x y. R x y \<Longrightarrow> A x y" and "\<And>x y. G x y \<Longrightarrow> A x y"
    and "\<And>x y z. A x y \<Longrightarrow> A y z \<Longrightarrow> A x z"
  shows "rg R G (\<lambda>a w'. Q a w' \<and> A w w') E p w"
  by (rule rg_post_from [OF assms(1) _ assms(2-4)]) (auto intro: assms(3))

lemma rg_conj:
  assumes "rg R G Q E p w" and "rg R G' Q' E' p w"
  shows "rg R (\<lambda>w w'. G w w' \<and> G' w w') (\<lambda>a w. Q a w \<and> Q' a w) (\<lambda>w. E w \<and> E' w) p w"
  using assms by (induction p arbitrary: w rule: step_induct) auto

end
