(* ===== verification/Node.thy ===== *)
theory Node
  imports Coroutine "HOL-Library.Sublist"
begin

text \<open>
  The state of one election node: \<open>Config\<close>, \<open>NodeState\<close>, \<open>Stats\<close> and \<open>Role\<close> of
  \<open>src/types.go\<close>, the \<open>node\<close> struct of \<open>src/election.go\<close>, the constructors \<open>NewNode\<close>
  and \<open>NewNodeForSim\<close>, the atomic readers and the helpers (\<open>setLeader\<close>,
  \<open>fireOnChange\<close>, \<open>quorumSize\<close>, \<open>randomDuration\<close>, \<open>peersFromStrings\<close>,
  \<open>applySelfMetadata\<close>).

  Fields whose names start with \<open>a_\<close> are the atomics external readers load; the other
  fields belong to the coroutines. The record \<open>world\<close> adds what a node's coroutines do
  outside the struct: the callbacks they invoke, in order, and the coroutines they spawn.
  Logging is not modelled. The random source is the sequence of its draws.
\<close>

section \<open>Roles and public types (types.go)\<close>

datatype nrole = roleFollower | roleCandidate | roleLeader | roleShutdown

fun role_code :: "nrole \<Rightarrow> int" where
  "role_code roleFollower = 0"
| "role_code roleCandidate = 1"
| "role_code roleLeader = 2"
| "role_code roleShutdown = 3"

text \<open>\<open>type Role int\<close> with constants 0, 1 and 2.\<close>

definition Role_String :: "int \<Rightarrow> string" where
  "Role_String r =
    (if r = 0 then ''follower'' else if r = 1 then ''candidate''
     else if r = 2 then ''leader'' else ''unknown'')"

record nodeState =
  ns_Leader :: string
  ns_IsLeader :: bool
  ns_Term :: u64
  ns_Peers :: "peer list"
  ns_Role :: int

record stats =
  st_Term :: u64
  st_Role :: int
  st_HeartbeatsSent :: u64
  st_HeartbeatsRecv :: u64
  st_ElectionsStarted :: u64
  st_ElectionsWon :: u64

text \<open>\<open>Config\<close>: a function field is recorded by whether it is set.\<close>

record config =
  UniqueID :: string
  Peers :: "string list"
  confMetadata :: bytes
  hasSendRPC :: bool
  hasOnChange :: bool
  HeartBeatTimeout :: duration
  ElectionTimeout :: duration
  NetworkTimeout :: duration
  LeaderQuorumTimeout :: duration
  MinimumQuorum :: int

definition maxMetadataSize :: nat where
  "maxMetadataSize = 1024"

section \<open>The node struct (election.go)\<close>

record voteResult =
  granted :: bool
  vterm :: u64

record node =
  conf :: config
  self :: string
  a_leader :: string
  a_isLeader :: bool
  a_term :: u64
  a_role :: int
  a_peers :: "peer list"
  heartbeatsSent :: u64
  heartbeatsRecv :: u64
  electionsStarted :: u64
  electionsWon :: u64
  currentTerm :: u64
  currentRole :: nrole
  currentMetadata :: bytes
  voteLastCandidate :: string
  voteLastTerm :: u64
  peersLastContact :: "(string \<rightharpoonup> gotime) option"
  lastContact :: gotime
  currentPeers :: "peer list"
  currentLeader :: string
  rng :: "nat \<Rightarrow> int"
  rngPos :: nat
  started :: bool
  stopped :: bool

text \<open>The coroutines a node spawns: one per peer for votes, heartbeats and resets, with
  the values their closures capture.\<close>

datatype child =
    VoteChild string u64 string
  | HeartBeatChild string u64 string bytes
  | ResetChild string

datatype effect =
    Responded callback rpcResponse
  | DoneCalled callback "error option"
  | OnChange nodeState

record world = node +
  outputs :: "effect list"
  spawned :: "(nat \<times> child) list"
  nextCo :: nat

section \<open>Atomic readers\<close>

definition IsLeader :: "'a node_scheme \<Rightarrow> bool" where
  "IsLeader n = a_isLeader n"

definition GetLeader :: "'a node_scheme \<Rightarrow> string" where
  "GetLeader n = a_leader n"

definition GetState :: "'a node_scheme \<Rightarrow> nodeState" where
  "GetState n = \<lparr>ns_Leader = GetLeader n, ns_IsLeader = a_isLeader n, ns_Term = a_term n,
     ns_Peers = a_peers n, ns_Role = a_role n\<rparr>"

definition Stats :: "'a node_scheme \<Rightarrow> stats" where
  "Stats n = \<lparr>st_Term = a_term n, st_Role = a_role n,
     st_HeartbeatsSent = heartbeatsSent n, st_HeartbeatsRecv = heartbeatsRecv n,
     st_ElectionsStarted = electionsStarted n, st_ElectionsWon = electionsWon n\<rparr>"

section \<open>Helpers\<close>

definition peersFromStrings :: "string list \<Rightarrow> peer list" where
  "peersFromStrings addrs = map (\<lambda>addr. \<lparr>Address = addr, Metadata = None\<rparr>) addrs"

definition setPeerMetadata :: "string \<Rightarrow> bytes \<Rightarrow> peer list \<Rightarrow> peer list" where
  "setPeerMetadata addr md ps = map_first (\<lambda>p. Address p = addr) (Metadata_update (\<lambda>_. md)) ps"

definition applySelfMetadata :: "string \<Rightarrow> bytes \<Rightarrow> peer list \<Rightarrow> peer list" where
  "applySelfMetadata slf md ps = setPeerMetadata slf md ps"

definition quorumSize :: "'a node_scheme \<Rightarrow> int" where
  "quorumSize n =
    (let size = int (length (currentPeers n))
     in if size = 0 then 1 else size div 2 + 1)"

text \<open>\<open>rng.Int63()\<close> is a draw in \<open>[0, 2^63)\<close>; \<open>%\<close> by a zero duration panics (\<open>None\<close>).\<close>

definition Int63 :: "'a node_scheme \<Rightarrow> int \<times> 'a node_scheme" where
  "Int63 n = (rng n (rngPos n) mod 2 ^ 63, n\<lparr>rngPos := Suc (rngPos n)\<rparr>)"

definition randomDuration :: "duration \<Rightarrow> 'a node_scheme \<Rightarrow> (duration \<times> 'a node_scheme) option" where
  "randomDuration minDur n =
    (let (r, n') = Int63 n
     in if minDur = 0 then None else Some (wrap64 (minDur + r smod minDur), n'))"

definition fireOnChange :: "world \<Rightarrow> world" where
  "fireOnChange n =
    (if \<not> hasOnChange (conf n) then n
     else n\<lparr>outputs := outputs n @ [OnChange
       \<lparr>ns_Leader = currentLeader n, ns_IsLeader = (currentLeader n = self n),
        ns_Term = currentTerm n, ns_Peers = currentPeers n,
        ns_Role = role_code (currentRole n)\<rparr>]\<rparr>)"

definition setLeader :: "string \<Rightarrow> world \<Rightarrow> world" where
  "setLeader ldr n =
    (if currentLeader n \<noteq> ldr
     then fireOnChange (n\<lparr>currentLeader := ldr, a_leader := ldr, a_isLeader := (ldr = self n)\<rparr>)
     else n)"

text \<open>The loop that records changed metadata of one peer, shared by \<open>handleHeartBeat\<close> and
  the heartbeat coroutines.\<close>

definition updatePeerMetadata :: "string \<Rightarrow> bytes \<Rightarrow> world \<Rightarrow> world" where
  "updatePeerMetadata addr md n =
    (case find (\<lambda>p. Address p = addr) (currentPeers n) of
       None \<Rightarrow> n
     | Some p \<Rightarrow>
         if bytes_Equal (Metadata p) md then n
         else let ps = setPeerMetadata addr md (currentPeers n)
              in fireOnChange (n\<lparr>currentPeers := ps, a_peers := ps\<rparr>))"

text \<open>Calls of an event's callbacks, and \<open>gocoro.Spawn\<close>, which returns a promise.\<close>

definition callRespond :: "event \<Rightarrow> rpcResponse \<Rightarrow> world \<Rightarrow> world" where
  "callRespond ev r n =
    (case ev_Respond ev of None \<Rightarrow> n | Some cb \<Rightarrow> n\<lparr>outputs := outputs n @ [Responded cb r]\<rparr>)"

definition callDone :: "event \<Rightarrow> error option \<Rightarrow> world \<Rightarrow> world" where
  "callDone ev e n =
    (case ev_Done ev of None \<Rightarrow> n | Some cb \<Rightarrow> n\<lparr>outputs := outputs n @ [DoneCalled cb e]\<rparr>)"

definition spawn :: "child \<Rightarrow> world \<Rightarrow> nat \<times> world" where
  "spawn c n = (nextCo n, n\<lparr>spawned := spawned n @ [(nextCo n, c)], nextCo := Suc (nextCo n)\<rparr>)"

section \<open>Constructors\<close>

definition applyDefaults :: "config \<Rightarrow> config" where
  "applyDefaults c =
    (let c = (if LeaderQuorumTimeout c = 0 then c\<lparr>LeaderQuorumTimeout := second * 12\<rparr> else c);
         c = (if HeartBeatTimeout c = 0 then c\<lparr>HeartBeatTimeout := second * 6\<rparr> else c);
         c = (if ElectionTimeout c = 0 then c\<lparr>ElectionTimeout := second * 6\<rparr> else c);
         c = (if NetworkTimeout c = 0 then c\<lparr>NetworkTimeout := second * 3\<rparr> else c)
     in c)"

text \<open>The draws of the random source are a parameter: \<open>NewNode\<close> seeds it from the wall
  clock, \<open>NewNodeForSim\<close> takes it from its caller.\<close>

definition NewNode :: "config \<Rightarrow> (nat \<Rightarrow> int) \<Rightarrow> error + node" where
  "NewNode c draws =
    (if UniqueID c = [] then
       Inl (ErrText ''refusing to spawn a new node with no Config.UniqueID defined'')
     else if \<not> hasSendRPC c then
       Inl (ErrText ''refusing to spawn a new node with no Config.SendRPC defined'')
     else
       let c = applyDefaults c;
           initialPeers = applySelfMetadata (UniqueID c) (confMetadata c) (peersFromStrings (Peers c))
       in Inr \<lparr>conf = c, self = UniqueID c, a_leader = [], a_isLeader = False, a_term = 0,
            a_role = 0, a_peers = initialPeers, heartbeatsSent = 0, heartbeatsRecv = 0,
            electionsStarted = 0, electionsWon = 0, currentTerm = 0, currentRole = roleFollower,
            currentMetadata = confMetadata c, voteLastCandidate = [], voteLastTerm = 0,
            peersLastContact = None, lastContact = 0, currentPeers = initialPeers,
            currentLeader = [], rng = draws, rngPos = 0, started = False, stopped = False\<rparr>)"

definition NewNodeForSim :: "config \<Rightarrow> (nat \<Rightarrow> int) \<Rightarrow> error + node" where
  "NewNodeForSim c draws =
    (if UniqueID c = [] then
       Inl (ErrText ''refusing to spawn a new node with no Config.UniqueID defined'')
     else if \<not> hasSendRPC c then
       Inl (ErrText ''refusing to spawn a new node with no Config.SendRPC defined'')
     else
       let c = applyDefaults c;
           initialPeers = applySelfMetadata (UniqueID c) (confMetadata c) (peersFromStrings (Peers c))
       in Inr \<lparr>conf = c, self = UniqueID c, a_leader = [], a_isLeader = False, a_term = 0,
            a_role = 0, a_peers = initialPeers, heartbeatsSent = 0, heartbeatsRecv = 0,
            electionsStarted = 0, electionsWon = 0, currentTerm = 0, currentRole = roleFollower,
            currentMetadata = confMetadata c, voteLastCandidate = [], voteLastTerm = 0,
            peersLastContact = None, lastContact = 0, currentPeers = initialPeers,
            currentLeader = [], rng = draws, rngPos = 0, started = False, stopped = False\<rparr>)"

definition world_of_node :: "node \<Rightarrow> world" where
  "world_of_node n = node.extend n (world.fields [] [] 0)"

lemma NewNodeForSim_eq: "NewNodeForSim c draws = NewNode c draws"
  by (simp add: NewNodeForSim_def NewNode_def)

section \<open>Frame lemmas\<close>

text \<open>Which fields the helpers leave alone, for the simplifier.\<close>

lemma fireOnChange_frame [simp]:
  "conf (fireOnChange n) = conf n" "self (fireOnChange n) = self n"
  "a_leader (fireOnChange n) = a_leader n" "a_isLeader (fireOnChange n) = a_isLeader n"
  "a_term (fireOnChange n) = a_term n" "a_role (fireOnChange n) = a_role n"
  "a_peers (fireOnChange n) = a_peers n" "heartbeatsSent (fireOnChange n) = heartbeatsSent n"
  "heartbeatsRecv (fireOnChange n) = heartbeatsRecv n"
  "electionsStarted (fireOnChange n) = electionsStarted n"
  "electionsWon (fireOnChange n) = electionsWon n"
  "currentTerm (fireOnChange n) = currentTerm n" "currentRole (fireOnChange n) = currentRole n"
  "currentMetadata (fireOnChange n) = currentMetadata n"
  "voteLastCandidate (fireOnChange n) = voteLastCandidate n"
  "voteLastTerm (fireOnChange n) = voteLastTerm n"
  "peersLastContact (fireOnChange n) = peersLastContact n"
  "lastContact (fireOnChange n) = lastContact n"
  "currentPeers (fireOnChange n) = currentPeers n"
  "currentLeader (fireOnChange n) = currentLeader n" "rng (fireOnChange n) = rng n"
  "rngPos (fireOnChange n) = rngPos n" "started (fireOnChange n) = started n"
  "stopped (fireOnChange n) = stopped n" "spawned (fireOnChange n) = spawned n"
  "nextCo (fireOnChange n) = nextCo n"
  by (simp_all add: fireOnChange_def)

lemma setLeader_frame [simp]:
  "conf (setLeader ldr n) = conf n" "self (setLeader ldr n) = self n"
  "a_term (setLeader ldr n) = a_term n" "a_role (setLeader ldr n) = a_role n"
  "a_peers (setLeader ldr n) = a_peers n" "heartbeatsSent (setLeader ldr n) = heartbeatsSent n"
  "heartbeatsRecv (setLeader ldr n) = heartbeatsRecv n"
  "electionsStarted (setLeader ldr n) = electionsStarted n"
  "electionsWon (setLeader ldr n) = electionsWon n"
  "currentTerm (setLeader ldr n) = currentTerm n"
  "currentRole (setLeader ldr n) = currentRole n"
  "currentMetadata (setLeader ldr n) = currentMetadata n"
  "voteLastCandidate (setLeader ldr n) = voteLastCandidate n"
  "voteLastTerm (setLeader ldr n) = voteLastTerm n"
  "peersLastContact (setLeader ldr n) = peersLastContact n"
  "lastContact (setLeader ldr n) = lastContact n"
  "currentPeers (setLeader ldr n) = currentPeers n" "rng (setLeader ldr n) = rng n"
  "rngPos (setLeader ldr n) = rngPos n" "started (setLeader ldr n) = started n"
  "stopped (setLeader ldr n) = stopped n" "spawned (setLeader ldr n) = spawned n"
  "nextCo (setLeader ldr n) = nextCo n"
  by (simp_all add: setLeader_def)

lemma updatePeerMetadata_frame [simp]:
  "conf (updatePeerMetadata ad md n) = conf n" "self (updatePeerMetadata ad md n) = self n"
  "a_leader (updatePeerMetadata ad md n) = a_leader n"
  "a_isLeader (updatePeerMetadata ad md n) = a_isLeader n"
  "a_term (updatePeerMetadata ad md n) = a_term n"
  "a_role (updatePeerMetadata ad md n) = a_role n"
  "heartbeatsSent (updatePeerMetadata ad md n) = heartbeatsSent n"
  "heartbeatsRecv (updatePeerMetadata ad md n) = heartbeatsRecv n"
  "electionsStarted (updatePeerMetadata ad md n) = electionsStarted n"
  "electionsWon (updatePeerMetadata ad md n) = electionsWon n"
  "currentTerm (updatePeerMetadata ad md n) = currentTerm n"
  "currentRole (updatePeerMetadata ad md n) = currentRole n"
  "currentMetadata (updatePeerMetadata ad md n) = currentMetadata n"
  "voteLastCandidate (updatePeerMetadata ad md n) = voteLastCandidate n"
  "voteLastTerm (updatePeerMetadata ad md n) = voteLastTerm n"
  "peersLastContact (updatePeerMetadata ad md n) = peersLastContact n"
  "lastContact (updatePeerMetadata ad md n) = lastContact n"
  "currentLeader (updatePeerMetadata ad md n) = currentLeader n"
  "rng (updatePeerMetadata ad md n) = rng n" "rngPos (updatePeerMetadata ad md n) = rngPos n"
  "started (updatePeerMetadata ad md n) = started n"
  "stopped (updatePeerMetadata ad md n) = stopped n"
  "spawned (updatePeerMetadata ad md n) = spawned n"
  "nextCo (updatePeerMetadata ad md n) = nextCo n"
  by (simp_all add: updatePeerMetadata_def Let_def split: option.splits)

lemma callRespond_frame [simp]:
  "conf (callRespond ev rs n) = conf n" "self (callRespond ev rs n) = self n"
  "a_leader (callRespond ev rs n) = a_leader n"
  "a_isLeader (callRespond ev rs n) = a_isLeader n" "a_term (callRespond ev rs n) = a_term n"
  "a_role (callRespond ev rs n) = a_role n" "a_peers (callRespond ev rs n) = a_peers n"
  "heartbeatsSent (callRespond ev rs n) = heartbeatsSent n"
  "heartbeatsRecv (callRespond ev rs n) = heartbeatsRecv n"
  "electionsStarted (callRespond ev rs n) = electionsStarted n"
  "electionsWon (callRespond ev rs n) = electionsWon n"
  "currentTerm (callRespond ev rs n) = currentTerm n"
  "currentRole (callRespond ev rs n) = currentRole n"
  "currentMetadata (callRespond ev rs n) = currentMetadata n"
  "voteLastCandidate (callRespond ev rs n) = voteLastCandidate n"
  "voteLastTerm (callRespond ev rs n) = voteLastTerm n"
  "peersLastContact (callRespond ev rs n) = peersLastContact n"
  "lastContact (callRespond ev rs n) = lastContact n"
  "currentPeers (callRespond ev rs n) = currentPeers n"
  "currentLeader (callRespond ev rs n) = currentLeader n" "rng (callRespond ev rs n) = rng n"
  "rngPos (callRespond ev rs n) = rngPos n" "started (callRespond ev rs n) = started n"
  "stopped (callRespond ev rs n) = stopped n" "spawned (callRespond ev rs n) = spawned n"
  "nextCo (callRespond ev rs n) = nextCo n"
  by (simp_all add: callRespond_def split: option.splits)

lemma callDone_frame [simp]:
  "conf (callDone ev er n) = conf n" "self (callDone ev er n) = self n"
  "a_leader (callDone ev er n) = a_leader n" "a_isLeader (callDone ev er n) = a_isLeader n"
  "a_term (callDone ev er n) = a_term n" "a_role (callDone ev er n) = a_role n"
  "a_peers (callDone ev er n) = a_peers n"
  "heartbeatsSent (callDone ev er n) = heartbeatsSent n"
  "heartbeatsRecv (callDone ev er n) = heartbeatsRecv n"
  "electionsStarted (callDone ev er n) = electionsStarted n"
  "electionsWon (callDone ev er n) = electionsWon n"
  "currentTerm (callDone ev er n) = currentTerm n"
  "currentRole (callDone ev er n) = currentRole n"
  "currentMetadata (callDone ev er n) = currentMetadata n"
  "voteLastCandidate (callDone ev er n) = voteLastCandidate n"
  "voteLastTerm (callDone ev er n) = voteLastTerm n"
  "peersLastContact (callDone ev er n) = peersLastContact n"
  "lastContact (callDone ev er n) = lastContact n"
  "currentPeers (callDone ev er n) = currentPeers n"
  "currentLeader (callDone ev er n) = currentLeader n" "rng (callDone ev er n) = rng n"
  "rngPos (callDone ev er n) = rngPos n" "started (callDone ev er n) = started n"
  "stopped (callDone ev er n) = stopped n" "spawned (callDone ev er n) = spawned n"
  "nextCo (callDone ev er n) = nextCo n"
  by (simp_all add: callDone_def split: option.splits)

lemma setLeader_currentLeader [simp]: "currentLeader (setLeader ldr n) = ldr"
  by (simp add: setLeader_def)

lemma setLeader_published:
  "a_leader n = currentLeader n \<Longrightarrow> a_leader (setLeader ldr n) = ldr"
  "a_isLeader n = (currentLeader n = self n) \<Longrightarrow> a_isLeader (setLeader ldr n) = (ldr = self n)"
  by (simp_all add: setLeader_def)

lemma map_Address_setPeerMetadata [simp]:
  "map Address (setPeerMetadata ad md ps) = map Address ps"
  by (simp add: setPeerMetadata_def map_map_first)

lemma updatePeerMetadata_peers [simp]:
  "map Address (currentPeers (updatePeerMetadata ad md n)) = map Address (currentPeers n)"
  by (simp add: updatePeerMetadata_def Let_def split: option.splits)

lemma updatePeerMetadata_length [simp]:
  "length (currentPeers (updatePeerMetadata ad md n)) = length (currentPeers n)"
  using updatePeerMetadata_peers [of ad md n] by (metis length_map)

lemma updatePeerMetadata_published:
  "a_peers n = currentPeers n \<Longrightarrow>
    a_peers (updatePeerMetadata ad md n) = currentPeers (updatePeerMetadata ad md n)"
  by (simp add: updatePeerMetadata_def Let_def split: option.splits)

text \<open>Every helper only appends to the outputs.\<close>

lemma prefix_outputs [simp]:
  "prefix xs (outputs n) \<Longrightarrow> prefix xs (outputs (fireOnChange n))"
  "prefix xs (outputs n) \<Longrightarrow> prefix xs (outputs (setLeader ldr n))"
  "prefix xs (outputs n) \<Longrightarrow> prefix xs (outputs (updatePeerMetadata ad md n))"
  "prefix xs (outputs n) \<Longrightarrow> prefix xs (outputs (callRespond ev rs n))"
  "prefix xs (outputs n) \<Longrightarrow> prefix xs (outputs (callDone ev er n))"
  by (simp_all add: fireOnChange_def setLeader_def updatePeerMetadata_def callRespond_def
      callDone_def Let_def split: option.splits)

text \<open>The responses given so far, which only \<open>callRespond\<close> adds to.\<close>

definition answersIn :: "effect list \<Rightarrow> (callback \<times> rpcResponse) set" where
  "answersIn es = {(cb, r). Responded cb r \<in> set es}"

lemma answersIn_frame [simp]:
  "answersIn (outputs (fireOnChange n)) = answersIn (outputs n)"
  "answersIn (outputs (setLeader ldr n)) = answersIn (outputs n)"
  "answersIn (outputs (updatePeerMetadata ad md n)) = answersIn (outputs n)"
  "answersIn (outputs (callDone ev er n)) = answersIn (outputs n)"
  by (auto simp: answersIn_def fireOnChange_def setLeader_def updatePeerMetadata_def callDone_def
      Let_def split: option.splits)

lemma answersIn_callRespond:
  "answersIn (outputs (callRespond ev r n)) =
    (case ev_Respond ev of None \<Rightarrow> answersIn (outputs n) | Some cb \<Rightarrow> insert (cb, r) (answersIn (outputs n)))"
  by (auto simp: answersIn_def callRespond_def split: option.split)

section \<open>Random durations\<close>

lemma randomDuration_eq:
  "randomDuration d n =
    (if d = 0 then None
     else Some (wrap64 (d + (rng n (rngPos n) mod 2 ^ 63) smod d), n\<lparr>rngPos := Suc (rngPos n)\<rparr>))"
  by (simp add: randomDuration_def Int63_def)

end
