(* ===== verification/Handlers.thy ===== *)
theory Handlers
  imports Node
begin

text \<open>
  The RPC handlers of \<open>src/election.go\<close> (\<open>processRPC\<close> and the \<open>handle*\<close> methods) and the
  fan-outs they use (\<open>sendHeartBeats\<close>, \<open>sendElectionResets\<close>, \<open>stepDownFromLeader\<close>).
  A handler is a coroutine body on the node's world: it may yield (\<open>Now\<close>), and Go's
  \<open>defer\<close>red response is given when it returns. The second half states what each
  handler does on every branch.
\<close>

type_synonym 'a body = "('a, world) step"

section \<open>Fan-out\<close>

text \<open>\<open>for _, peer := range n.currentPeers\<close>, skipping the node itself, spawning one
  coroutine per peer; the promises are returned in order.\<close>

fun spawnAll :: "(string \<Rightarrow> child) \<Rightarrow> string list \<Rightarrow> world \<Rightarrow> nat list \<times> world" where
  "spawnAll mk [] n = ([], n)"
| "spawnAll mk (a # as) n =
    (let (p, n) = spawn (mk a) n; (ps, n) = spawnAll mk as n in (p # ps, n))"

definition otherPeers :: "'a node_scheme \<Rightarrow> string list" where
  "otherPeers n = filter (\<lambda>a. a \<noteq> self n) (map Address (currentPeers n))"

definition sendHeartBeats :: "world \<Rightarrow> world" where
  "sendHeartBeats n =
    snd (spawnAll (\<lambda>p. HeartBeatChild p (currentTerm n) (self n) (currentMetadata n))
      (otherPeers n) n)"

definition sendElectionResets :: "world \<Rightarrow> world" where
  "sendElectionResets n = snd (spawnAll ResetChild (otherPeers n) n)"

definition stepDownFromLeader :: "world \<Rightarrow> world" where
  "stepDownFromLeader n =
    sendElectionResets (setLeader [] (n\<lparr>currentRole := roleFollower, a_role := role_code roleFollower\<rparr>))"

section \<open>Handlers\<close>

definition respondVote :: "event \<Rightarrow> voteResp \<Rightarrow> world \<Rightarrow> unit body" where
  "respondVote ev r n =
    Done () (callRespond ev \<lparr>rp_RPC = VoteRPC, rp_Response = VoteResp r, rp_Error = []\<rparr> n)"

definition handleVote :: "event \<Rightarrow> voteReq \<Rightarrow> world \<Rightarrow> unit body" where
  "handleVote ev rq n =
    (let resp = \<lparr>vp_Term = currentTerm n, vp_Granted = False\<rparr> in
     if currentLeader n \<noteq> [] \<and> currentLeader n \<noteq> vq_Candidate rq then respondVote ev resp n
     else if vq_Term rq < currentTerm n then respondVote ev resp n
     else
       let (resp, n) =
             (if currentTerm n < vq_Term rq
              then (resp\<lparr>vp_Term := vq_Term rq\<rparr>,
                    n\<lparr>currentRole := roleFollower, a_role := role_code roleFollower,
                      currentTerm := vq_Term rq, a_term := vq_Term rq\<rparr>)
              else (resp, n)) in
       if voteLastTerm n = vq_Term rq \<and> voteLastCandidate n \<noteq> [] then
         respondVote ev
           (if voteLastCandidate n = vq_Candidate rq then resp\<lparr>vp_Granted := True\<rparr> else resp) n
       else
         let n = n\<lparr>voteLastTerm := vq_Term rq, voteLastCandidate := vq_Candidate rq\<rparr>;
             resp = resp\<lparr>vp_Granted := True\<rparr>
         in Yield nowReq n (\<lambda>r n. respondVote ev resp (n\<lparr>lastContact := r_Time r\<rparr>)))"

definition handleHeartBeat :: "event \<Rightarrow> heartBeatReq \<Rightarrow> world \<Rightarrow> unit body" where
  "handleHeartBeat ev rq n =
    (let resp = \<lparr>hp_Term = currentTerm n, hp_Metadata = currentMetadata n\<rparr>;
         (resp, n) =
           (if currentRole n \<noteq> roleFollower
            then (resp\<lparr>hp_Term := hq_Term rq\<rparr>,
                  n\<lparr>currentRole := roleFollower, a_role := role_code roleFollower\<rparr>)
            else (resp, n));
         n = (if currentTerm n < hq_Term rq
              then n\<lparr>currentTerm := hq_Term rq, a_term := hq_Term rq\<rparr> else n);
         n = setLeader (hq_Leader rq) n;
         n = n\<lparr>heartbeatsRecv := heartbeatsRecv n + 1\<rparr>;
         n = updatePeerMetadata (hq_Leader rq) (hq_Metadata rq) n
     in Yield nowReq n (\<lambda>r n. Done () (callRespond ev
          \<lparr>rp_RPC = HeartBeatRPC, rp_Response = HeartBeatResp resp, rp_Error = []\<rparr>
          (n\<lparr>lastContact := r_Time r\<rparr>))))"

definition handleResetElection :: "event \<Rightarrow> world \<Rightarrow> unit body" where
  "handleResetElection ev n =
    Done () (callRespond ev
      \<lparr>rp_RPC = ResetElectionRPC, rp_Response = ResetElectionResp, rp_Error = []\<rparr>
      ((setLeader [] n)\<lparr>currentRole := roleCandidate, a_role := role_code roleCandidate\<rparr>))"

definition handleResign :: "event \<Rightarrow> world \<Rightarrow> unit body" where
  "handleResign ev n =
    (if currentRole n \<noteq> roleLeader then Done () (callDone ev (Some ErrNotLeader) n)
     else Done () (callDone ev None (sendElectionResets (setLeader []
       (n\<lparr>currentRole := roleFollower, a_role := role_code roleFollower\<rparr>)))))"

definition handleSetPeers :: "event \<Rightarrow> string list \<Rightarrow> world \<Rightarrow> unit body" where
  "handleSetPeers ev addrs n =
    (let ps = applySelfMetadata (self n) (currentMetadata n) (peersFromStrings addrs)
     in Done () (callDone ev None (n\<lparr>currentPeers := ps, a_peers := ps\<rparr>)))"

definition handleSetMetadata :: "event \<Rightarrow> bytes \<Rightarrow> world \<Rightarrow> unit body" where
  "handleSetMetadata ev md n =
    (let ps = applySelfMetadata (self n) md (currentPeers n)
     in Done () (callDone ev None (n\<lparr>currentMetadata := md, currentPeers := ps, a_peers := ps\<rparr>)))"

definition processRPC :: "event \<Rightarrow> world \<Rightarrow> unit body" where
  "processRPC ev n =
    (case rq_Request (ev_RPCReq ev) of
       VoteReq cmd \<Rightarrow> handleVote ev cmd n
     | ResetElectionReq \<Rightarrow> handleResetElection ev n
     | HeartBeatReq cmd \<Rightarrow> handleHeartBeat ev cmd n
     | ResignReq \<Rightarrow> handleResign ev n
     | SetPeersReq addrs \<Rightarrow> handleSetPeers ev addrs n
     | SetMetadataReq md \<Rightarrow> handleSetMetadata ev md n
     | OtherReq \<Rightarrow> Done () (callRespond ev
         \<lparr>rp_RPC = rq_RPC (ev_RPCReq ev), rp_Response = OtherResp,
          rp_Error = ''unexpected command''\<rparr> n))"

section \<open>What the fan-outs do\<close>

text \<open>A fan-out touches nothing but the spawn queue: it appends one coroutine per address,
  with consecutive identities.\<close>

lemma spawnAll_eq:
  "spawnAll mk as n =
    ([nextCo n ..< nextCo n + length as],
     n\<lparr>spawned := spawned n @ zip [nextCo n ..< nextCo n + length as] (map mk as),
       nextCo := nextCo n + length as\<rparr>)"
proof (induction as arbitrary: n)
  case (Cons a as)
  have "[nextCo n ..< nextCo n + length (a # as)] = nextCo n # [Suc (nextCo n) ..< nextCo n + length (a # as)]"
    by (rule upt_conv_Cons) simp
  then show ?case by (simp add: spawn_def Cons.IH)
qed simp

lemma sendHeartBeats_eq:
  "sendHeartBeats n =
    n\<lparr>spawned := spawned n @ zip [nextCo n ..< nextCo n + length (otherPeers n)]
        (map (\<lambda>p. HeartBeatChild p (currentTerm n) (self n) (currentMetadata n)) (otherPeers n)),
      nextCo := nextCo n + length (otherPeers n)\<rparr>"
  by (simp add: sendHeartBeats_def spawnAll_eq)

lemma sendElectionResets_eq:
  "sendElectionResets n =
    n\<lparr>spawned := spawned n @ zip [nextCo n ..< nextCo n + length (otherPeers n)]
        (map ResetChild (otherPeers n)),
      nextCo := nextCo n + length (otherPeers n)\<rparr>"
  by (simp add: sendElectionResets_def spawnAll_eq)

end
