(* ===== verification/Roles.thy ===== *)
theory Roles
  imports Handlers
begin

text \<open>
  The coroutine state machine of \<open>src/election.go\<close>: \<open>run\<close>, \<open>runFollower\<close>,
  \<open>runCandidate\<close> with \<open>electSelf\<close>, \<open>runLeader\<close>, and the bodies of the spawned
  coroutines. The Go loops are cut at their heads: a value of \<open>pc\<close> says at which loop
  head the main coroutine stands and holds the local variables of the loop, and
  \<open>main_seg\<close> runs the code from there to the next loop head (a \<open>continue\<close>, the end of the
  loop body, or a \<open>return\<close> to the switch of \<open>run\<close>).
\<close>

record followerLocals =
  f_heartbeatDelay :: duration
  f_heartbeatTimerID :: timer_id
  f_noPeersDelay :: duration
  f_noPeersTimerID :: timer_id

record candidateLocals =
  c_voteDelay :: duration
  c_voteTimerID :: timer_id
  c_electionTimerID :: timer_id
  c_grantedVotes :: int
  c_votesNeeded :: int

record leaderLocals =
  l_heartbeatDelay :: duration
  l_heartbeatTimerID :: timer_id
  l_quorumTimerID :: timer_id

datatype pc =
    RunSwitch
  | FollowerLoop followerLocals
  | CandidateLoop candidateLocals
  | LeaderLoop leaderLocals
  | Returned

section \<open>Follower\<close>

definition runFollower :: "world \<Rightarrow> pc body" where
  "runFollower n =
    (case randomDuration (HeartBeatTimeout (conf n)) n of
       None \<Rightarrow> Panic n
     | Some (heartbeatDelay, n) \<Rightarrow>
         Yield (afterReq heartbeatDelay) n (\<lambda>hb n.
           let noPeersDelay = heartbeatDelay sdiv 5 in
           Yield (afterReq noPeersDelay) n (\<lambda>np n.
             Done (FollowerLoop \<lparr>f_heartbeatDelay = heartbeatDelay, f_heartbeatTimerID = r_TimerID hb,
               f_noPeersDelay = noPeersDelay, f_noPeersTimerID = r_TimerID np\<rparr>) n)))"

definition followerTimer :: "followerLocals \<Rightarrow> timer_id \<Rightarrow> world \<Rightarrow> pc body" where
  "followerTimer l t n =
    (if t = f_heartbeatTimerID l then
       Yield nowReq n (\<lambda>now n.
         if time_Sub (r_Time now) (lastContact n) < HeartBeatTimeout (conf n) then
           Yield (afterReq (f_heartbeatDelay l)) n (\<lambda>hb n.
             Done (FollowerLoop (l\<lparr>f_heartbeatTimerID := r_TimerID hb\<rparr>)) n)
         else
           let n = (setLeader [] n)\<lparr>currentRole := roleCandidate\<rparr>
           in Yield (cancelReq (f_noPeersTimerID l)) n (\<lambda>_ n. Done RunSwitch n))
     else if t = f_noPeersTimerID l then
       (if currentLeader n \<noteq> [] then
          Yield (afterReq (f_noPeersDelay l)) n (\<lambda>np n.
            Done (FollowerLoop (l\<lparr>f_noPeersTimerID := r_TimerID np\<rparr>)) n)
        else if length (currentPeers n) = 0
             \<or> (length (currentPeers n) = 1 \<and> Address (hd (currentPeers n)) = self n) then
          Yield (cancelReq (f_heartbeatTimerID l)) (n\<lparr>currentRole := roleCandidate\<rparr>)
            (\<lambda>_ n. Done RunSwitch n)
        else
          Yield (afterReq (f_noPeersDelay l)) n (\<lambda>np n.
            Done (FollowerLoop (l\<lparr>f_noPeersTimerID := r_TimerID np\<rparr>)) n))
     else Done (FollowerLoop l) n)"

definition followerEvent :: "followerLocals \<Rightarrow> event \<Rightarrow> world \<Rightarrow> pc body" where
  "followerEvent l ev n =
    (case ev_Kind ev of
       EventTimer \<Rightarrow> followerTimer l (ev_TimerID ev) n
     | EventRPC \<Rightarrow> andThen (processRPC ev n) (\<lambda>_ n. Done (FollowerLoop l) n)
     | EventSetPeers \<Rightarrow> andThen (handleSetPeers ev (ev_Peers ev) n) (\<lambda>_ n. Done (FollowerLoop l) n)
     | EventSetMetadata \<Rightarrow>
         andThen (handleSetMetadata ev (ev_Metadata ev) n) (\<lambda>_ n. Done (FollowerLoop l) n)
     | EventResign \<Rightarrow> Done (FollowerLoop l) (callDone ev (Some ErrNotLeader) n)
     | EventShutdown \<Rightarrow>
         Yield (cancelReq (f_heartbeatTimerID l)) (n\<lparr>currentRole := roleShutdown\<rparr>) (\<lambda>_ n.
           Yield (cancelReq (f_noPeersTimerID l)) n (\<lambda>_ n. Done RunSwitch n)))"

section \<open>Candidate\<close>

definition runCandidate :: "world \<Rightarrow> pc body" where
  "runCandidate n =
    (let n = n\<lparr>electionsStarted := electionsStarted n + 1\<rparr> in
     case randomDuration (HeartBeatTimeout (conf n) sdiv 10) n of
       None \<Rightarrow> Panic n
     | Some (voteDelay, n) \<Rightarrow>
         Yield (afterReq voteDelay) n (\<lambda>vt n.
           case randomDuration (ElectionTimeout (conf n)) n of
             None \<Rightarrow> Panic n
           | Some (electionDelay, n) \<Rightarrow>
               Yield (afterReq electionDelay) n (\<lambda>et n.
                 Done (CandidateLoop \<lparr>c_voteDelay = voteDelay, c_voteTimerID = r_TimerID vt,
                   c_electionTimerID = r_TimerID et, c_grantedVotes = 0,
                   c_votesNeeded = quorumSize n\<rparr>) n)))"

text \<open>The sequential awaits of \<open>electSelf\<close>.\<close>

fun awaitVotes :: "nat list \<Rightarrow> voteResult list \<Rightarrow> world \<Rightarrow> voteResult list body" where
  "awaitVotes [] results n = Done results n"
| "awaitVotes (p # ps) results n =
    Await p n (\<lambda>v n. awaitVotes ps (results @ [\<lparr>granted = vp_Granted v, vterm = vp_Term v\<rparr>]) n)"

definition electSelf :: "world \<Rightarrow> voteResult list body" where
  "electSelf n =
    (let trm = currentTerm n + 1;
         n = n\<lparr>currentTerm := trm, a_term := trm, voteLastCandidate := self n, voteLastTerm := trm\<rparr>;
         results = [\<lparr>granted = True, vterm = trm\<rparr>];
         (awaitables, n) = spawnAll (\<lambda>p. VoteChild p trm (self n)) (otherPeers n) n
     in awaitVotes awaitables results n)"

text \<open>The loop over the collected votes: fall back on a newer term, count the grants, win
  as soon as the tally reaches the votes needed.\<close>

fun processVotes :: "candidateLocals \<Rightarrow> voteResult list \<Rightarrow> world \<Rightarrow> pc body" where
  "processVotes l [] n = Done (CandidateLoop l) n"
| "processVotes l (v # vs) n =
    (if currentTerm n < vterm v then
       let n = n\<lparr>currentRole := roleFollower, currentTerm := vterm v, a_term := vterm v,
                 a_role := role_code roleFollower\<rparr>
       in Yield (cancelReq (c_electionTimerID l)) n (\<lambda>_ n. Done RunSwitch n)
     else
       let l = (if granted v then l\<lparr>c_grantedVotes := c_grantedVotes l + 1\<rparr> else l) in
       if c_votesNeeded l \<le> c_grantedVotes l then
         let n = setLeader (self n) (n\<lparr>currentRole := roleLeader, a_role := role_code roleLeader,
                   electionsWon := electionsWon n + 1\<rparr>)
         in Yield (cancelReq (c_voteTimerID l)) n (\<lambda>_ n.
              Yield (cancelReq (c_electionTimerID l)) n (\<lambda>_ n. Done RunSwitch n))
       else processVotes l vs n)"

definition candidateTimer :: "candidateLocals \<Rightarrow> timer_id \<Rightarrow> world \<Rightarrow> pc body" where
  "candidateTimer l t n =
    (if t = c_voteTimerID l then
       (if int (length (currentPeers n)) < MinimumQuorum (conf n) then
          Yield (afterReq (c_voteDelay l)) n (\<lambda>vt n.
            Done (CandidateLoop (l\<lparr>c_voteTimerID := r_TimerID vt\<rparr>)) n)
        else andThen (electSelf n) (\<lambda>pendingVotes n. processVotes l pendingVotes n))
     else if t = c_electionTimerID l then
       Yield (cancelReq (c_voteTimerID l)) n (\<lambda>_ n. Done RunSwitch n)
     else Done (CandidateLoop l) n)"

text \<open>Cancelling the two timers of a role before returning to \<open>run\<close>.\<close>

definition cancelBoth :: "timer_id \<Rightarrow> timer_id \<Rightarrow> world \<Rightarrow> pc body" where
  "cancelBoth t1 t2 n =
    Yield (cancelReq t1) n (\<lambda>_ n. Yield (cancelReq t2) n (\<lambda>_ n. Done RunSwitch n))"

definition candidateEvent :: "candidateLocals \<Rightarrow> event \<Rightarrow> world \<Rightarrow> pc body" where
  "candidateEvent l ev n =
    (case ev_Kind ev of
       EventTimer \<Rightarrow> candidateTimer l (ev_TimerID ev) n
     | EventRPC \<Rightarrow> andThen (processRPC ev n) (\<lambda>_ n.
         if currentRole n \<noteq> roleCandidate then cancelBoth (c_voteTimerID l) (c_electionTimerID l) n
         else Done (CandidateLoop l) n)
     | EventSetPeers \<Rightarrow> andThen (handleSetPeers ev (ev_Peers ev) n) (\<lambda>_ n. Done (CandidateLoop l) n)
     | EventSetMetadata \<Rightarrow>
         andThen (handleSetMetadata ev (ev_Metadata ev) n) (\<lambda>_ n. Done (CandidateLoop l) n)
     | EventResign \<Rightarrow> Done (CandidateLoop l) (callDone ev (Some ErrNotLeader) n)
     | EventShutdown \<Rightarrow> cancelBoth (c_voteTimerID l) (c_electionTimerID l)
         (n\<lparr>currentRole := roleShutdown, a_role := role_code roleShutdown\<rparr>))"

section \<open>Leader\<close>

definition runLeader :: "world \<Rightarrow> pc body" where
  "runLeader n =
    (let n = n\<lparr>peersLastContact := Some Map.empty\<rparr> in
     case randomDuration (HeartBeatTimeout (conf n) sdiv 3) n of
       None \<Rightarrow> Panic n
     | Some (heartbeatDelay, n) \<Rightarrow>
         Yield (afterReq heartbeatDelay) n (\<lambda>hb n.
           Yield (afterReq (LeaderQuorumTimeout (conf n))) n (\<lambda>qr n.
             Done (LeaderLoop \<lparr>l_heartbeatDelay = heartbeatDelay, l_heartbeatTimerID = r_TimerID hb,
               l_quorumTimerID = r_TimerID qr\<rparr>) n)))"

text \<open>The peers heard from within the heartbeat timeout. Reading a nil map finds nothing.\<close>

definition contactOf :: "'a node_scheme \<Rightarrow> string \<Rightarrow> gotime option" where
  "contactOf n a = (case peersLastContact n of None \<Rightarrow> None | Some m \<Rightarrow> m a)"

fun countContacted :: "gotime \<Rightarrow> world \<Rightarrow> string list \<Rightarrow> int \<Rightarrow> int" where
  "countContacted now n [] contacted = contacted"
| "countContacted now n (a # as) contacted =
    (if a = self n then countContacted now n as contacted
     else case contactOf n a of
       None \<Rightarrow> countContacted now n as contacted
     | Some lc \<Rightarrow>
         if time_Sub now lc < HeartBeatTimeout (conf n)
         then countContacted now n as (contacted + 1)
         else countContacted now n as contacted)"

definition leaderTimer :: "leaderLocals \<Rightarrow> timer_id \<Rightarrow> world \<Rightarrow> pc body" where
  "leaderTimer l t n =
    (if t = l_heartbeatTimerID l then
       Yield (afterReq (l_heartbeatDelay l)) (sendHeartBeats n) (\<lambda>hb n.
         Done (LeaderLoop (l\<lparr>l_heartbeatTimerID := r_TimerID hb\<rparr>)) n)
     else if t = l_quorumTimerID l then
       (if int (length (currentPeers n)) < MinimumQuorum (conf n) then
          Yield (cancelReq (l_heartbeatTimerID l)) (stepDownFromLeader n) (\<lambda>_ n. Done RunSwitch n)
        else Yield nowReq n (\<lambda>now n.
          let contacted = countContacted (r_Time now) n (map Address (currentPeers n)) 0 in
          if contacted < quorumSize n - 1 then
            Yield (cancelReq (l_heartbeatTimerID l)) (stepDownFromLeader n) (\<lambda>_ n. Done RunSwitch n)
          else Yield (afterReq (LeaderQuorumTimeout (conf n))) n (\<lambda>qr n.
            Done (LeaderLoop (l\<lparr>l_quorumTimerID := r_TimerID qr\<rparr>)) n)))
     else Done (LeaderLoop l) n)"

definition leaderEvent :: "leaderLocals \<Rightarrow> event \<Rightarrow> world \<Rightarrow> pc body" where
  "leaderEvent l ev n =
    (let exit = cancelBoth (l_heartbeatTimerID l) (l_quorumTimerID l) in
     case ev_Kind ev of
       EventTimer \<Rightarrow> leaderTimer l (ev_TimerID ev) n
     | EventRPC \<Rightarrow> andThen (processRPC ev n) (\<lambda>_ n.
         if currentRole n \<noteq> roleLeader then exit n else Done (LeaderLoop l) n)
     | EventSetPeers \<Rightarrow> andThen (handleSetPeers ev (ev_Peers ev) n) (\<lambda>_ n.
         Done (LeaderLoop l) (if currentRole n = roleLeader then sendHeartBeats n else n))
     | EventSetMetadata \<Rightarrow> andThen (handleSetMetadata ev (ev_Metadata ev) n) (\<lambda>_ n.
         Done (LeaderLoop l) (if currentRole n = roleLeader then sendHeartBeats n else n))
     | EventResign \<Rightarrow> andThen (handleResign ev n) (\<lambda>_ n.
         if currentRole n \<noteq> roleLeader then exit n else Done (LeaderLoop l) n)
     | EventShutdown \<Rightarrow> exit (sendElectionResets
         (n\<lparr>currentRole := roleShutdown, a_role := role_code roleShutdown\<rparr>)))"

text \<open>The code after the loop of \<open>runLeader\<close>.\<close>

definition leaderEpilogue :: "world \<Rightarrow> pc body" where
  "leaderEpilogue n =
    Yield nowReq n (\<lambda>now n.
      let n = n\<lparr>lastContact := r_Time now\<rparr>
      in Done RunSwitch (if currentLeader n = self n then setLeader [] n else n))"

section \<open>The main coroutine\<close>

definition runStart :: "world \<Rightarrow> pc body" where
  "runStart n = Done RunSwitch (n\<lparr>currentRole := roleFollower, a_role := role_code roleFollower\<rparr>)"

fun main_seg :: "pc \<Rightarrow> world \<Rightarrow> pc body" where
  "main_seg RunSwitch n =
    (case currentRole n of
       roleFollower \<Rightarrow> runFollower n
     | roleCandidate \<Rightarrow> runCandidate n
     | roleLeader \<Rightarrow> runLeader n
     | roleShutdown \<Rightarrow> Done Returned n)"
| "main_seg (FollowerLoop l) n =
    (if currentRole n = roleFollower
     then Yield recvReq n (\<lambda>r n. followerEvent l (r_Event r) n) else Done RunSwitch n)"
| "main_seg (CandidateLoop l) n =
    (if currentRole n = roleCandidate
     then Yield recvReq n (\<lambda>r n. candidateEvent l (r_Event r) n) else Done RunSwitch n)"
| "main_seg (LeaderLoop l) n =
    (if currentRole n = roleLeader
     then Yield recvReq n (\<lambda>r n. leaderEvent l (r_Event r) n) else leaderEpilogue n)"
| "main_seg Returned n = Done Returned n"

section \<open>Spawned coroutines\<close>

text \<open>The result of a spawned coroutine: a vote for the vote coroutines, nothing else.\<close>

datatype kidResult = KVote voteResp | KUnit

definition voteChild :: "string \<Rightarrow> u64 \<Rightarrow> string \<Rightarrow> world \<Rightarrow> kidResult body" where
  "voteChild pr trm slf n =
    Yield (sendReq pr \<lparr>rq_RPC = VoteRPC,
        rq_Request = VoteReq \<lparr>vq_Term = trm, vq_Candidate = slf\<rparr>\<rparr>) n
      (\<lambda>r n. Done (KVote
        (if r_Err r \<noteq> None then \<lparr>vp_Term = trm, vp_Granted = False\<rparr>
         else case rp_Response (r_RPCResp r) of
           VoteResp v \<Rightarrow> v
         | _ \<Rightarrow> \<lparr>vp_Term = trm, vp_Granted = False\<rparr>)) n)"

definition heartBeatChild :: "string \<Rightarrow> u64 \<Rightarrow> string \<Rightarrow> bytes \<Rightarrow> world \<Rightarrow> kidResult body" where
  "heartBeatChild pr trm slf md n =
    Yield (sendReq pr \<lparr>rq_RPC = HeartBeatRPC,
        rq_Request = HeartBeatReq \<lparr>hq_Term = trm, hq_Leader = slf, hq_Metadata = md\<rparr>\<rparr>) n
      (\<lambda>r n.
        let n = n\<lparr>heartbeatsSent := heartbeatsSent n + 1\<rparr> in
        if r_Err r \<noteq> None then Done KUnit n
        else case rp_Response (r_RPCResp r) of
          HeartBeatResp h \<Rightarrow>
            (let n = (if trm < hp_Term h
                      then n\<lparr>currentTerm := hp_Term h, a_term := hp_Term h\<rparr> else n)
             in Yield nowReq n (\<lambda>now n.
               case peersLastContact n of
                 None \<Rightarrow> Panic n
               | Some m \<Rightarrow> Done KUnit (updatePeerMetadata pr (hp_Metadata h)
                   (n\<lparr>peersLastContact := Some (m(pr \<mapsto> r_Time now))\<rparr>))))
        | _ \<Rightarrow> Done KUnit n)"

definition resetChild :: "string \<Rightarrow> world \<Rightarrow> kidResult body" where
  "resetChild pr n =
    Yield (sendReq pr \<lparr>rq_RPC = ResetElectionRPC, rq_Request = ResetElectionReq\<rparr>) n
      (\<lambda>_ n. Done KUnit n)"

fun childBody :: "child \<Rightarrow> world \<Rightarrow> kidResult body" where
  "childBody (VoteChild pr trm slf) n = voteChild pr trm slf n"
| "childBody (HeartBeatChild pr trm slf md) n = heartBeatChild pr trm slf md n"
| "childBody (ResetChild pr) n = resetChild pr n"

end
