(* ===== verification/Node_Machine.thy ===== *)
theory Node_Machine
  imports Roles
begin

text \<open>
  One started node as a transition system: the shared world, the main coroutine and the
  spawned coroutines. The scheduler (\<open>gocoro\<close>) and the IO adapter are left open: any
  runnable coroutine may be resumed next and every IO response is possible, so a fact
  proved of all reachable configurations holds for every scheduling order and for both
  IO adapters. A coroutine runs uninterrupted from one blocking point to the next, and a
  spawned one remembers what it was spawned as.

  The locale \<open>node_contract\<close> is the rely-guarantee contract between the main coroutine
  and the spawned ones; its lemmas lift per-body facts to reachable configurations.
\<close>

section \<open>Configurations and steps\<close>

datatype kid = Fresh child | Live child "kidResult body"

record cfg =
  shared :: world
  main :: "pc body"
  kids :: "nat \<rightharpoonup> kid"

definition adopt :: "(nat \<times> child) list \<Rightarrow> (nat \<rightharpoonup> kid) \<Rightarrow> (nat \<rightharpoonup> kid)" where
  "adopt cs ks = foldl (\<lambda>m (i, c). m(i \<mapsto> Fresh c)) ks cs"

text \<open>Publishing the world a stretch left: newly spawned coroutines become runnable.\<close>

definition settle :: "world \<Rightarrow> world" where
  "settle w = w\<lparr>spawned := []\<rparr>"

definition after_main :: "pc body \<Rightarrow> cfg \<Rightarrow> cfg" where
  "after_main p c = c\<lparr>shared := settle (world_of p), main := p,
     kids := adopt (spawned (world_of p)) (kids c)\<rparr>"

definition after_kid :: "nat \<Rightarrow> child \<Rightarrow> kidResult body \<Rightarrow> cfg \<Rightarrow> cfg" where
  "after_kid i ch p c = c\<lparr>shared := settle (world_of p),
     kids := adopt (spawned (world_of p)) ((kids c)(i \<mapsto> Live ch p))\<rparr>"

definition initCfg :: "node \<Rightarrow> cfg" where
  "initCfg n =
    (let p = runStart (world_of_node n)
     in \<lparr>shared = settle (world_of p), main = p, kids = Map.empty\<rparr>)"

inductive node_step :: "cfg \<Rightarrow> cfg \<Rightarrow> bool" where
  main_loop: "main c = Done pos w \<Longrightarrow> pos \<noteq> Returned \<Longrightarrow>
    node_step c (after_main (main_seg pos (shared c)) c)"
| main_io: "main c = Yield q w k \<Longrightarrow> node_step c (after_main (k r (shared c)) c)"
| main_await: "main c = Await p w k \<Longrightarrow> kids c p = Some (Live ch (Done (KVote v) w')) \<Longrightarrow>
    node_step c (after_main (k v (shared c)) c)"
| kid_start: "kids c i = Some (Fresh ch) \<Longrightarrow>
    node_step c (after_kid i ch (childBody ch (shared c)) c)"
| kid_io: "kids c i = Some (Live ch (Yield q w k)) \<Longrightarrow>
    node_step c (after_kid i ch (k r (shared c)) c)"

text \<open>A panic of any coroutine ends the process: no step leaves such a configuration.\<close>

definition panicked :: "cfg \<Rightarrow> bool" where
  "panicked c \<longleftrightarrow> (\<exists>w. main c = Panic w) \<or> (\<exists>i ch w. kids c i = Some (Live ch (Panic w)))"

inductive reachable :: "node \<Rightarrow> cfg \<Rightarrow> bool" for n :: node where
  init: "reachable n (initCfg n)"
| step: "reachable n c \<Longrightarrow> \<not> panicked c \<Longrightarrow> node_step c c' \<Longrightarrow> reachable n c'"

text \<open>Nodes as the constructors build them.\<close>

definition fresh_node :: "node \<Rightarrow> bool" where
  "fresh_node n \<longleftrightarrow> (\<exists>c draws. NewNode c draws = Inr n)"

lemma adopt_cases:
  assumes "adopt cs ks i = Some k"
  shows "ks i = Some k \<or> (\<exists>ch. (i, ch) \<in> set cs \<and> k = Fresh ch)"
  using assms unfolding adopt_def
  by (induction cs arbitrary: ks) (fastforce split: if_splits)+

lemma adopt_Nil [simp]: "adopt [] ks = ks"
  by (simp add: adopt_def)

lemma adopt_other: "i \<notin> fst ` set cs \<Longrightarrow> adopt cs ks i = ks i"
  unfolding adopt_def by (induction cs arbitrary: ks) auto

lemma adopt_new: "distinct (map fst cs) \<Longrightarrow> (i, ch) \<in> set cs \<Longrightarrow> adopt cs ks i = Some (Fresh ch)"
proof (induction cs arbitrary: ks)
  case (Cons x cs)
  then show ?case
    using adopt_other [of i cs "ks(i \<mapsto> Fresh ch)"] by (fastforce simp: adopt_def image_iff)
qed simp

lemmas after_defs = after_main_def after_kid_def

section \<open>The contract between the coroutines of a node\<close>

text \<open>
  \<open>GM\<close> is what the main coroutine guarantees of each stretch, \<open>GK\<close> what a spawned one
  guarantees; \<open>GA\<close> covers both and is what a spawned coroutine relies on. \<open>PC\<close> holds at
  every loop head of the main coroutine and \<open>KP\<close> when a spawned coroutine first runs;
  \<open>E\<close> holds of the world in which a coroutine panics.
\<close>

locale node_contract =
  fixes GM :: "world \<Rightarrow> world \<Rightarrow> bool"
    and GK :: "world \<Rightarrow> world \<Rightarrow> bool"
    and GA :: "world \<Rightarrow> world \<Rightarrow> bool"
    and PC :: "pc \<Rightarrow> world \<Rightarrow> bool"
    and KP :: "child \<Rightarrow> world \<Rightarrow> bool"
    and E :: "world \<Rightarrow> bool"
  assumes GK_refl: "GK w w"
    and GK_trans: "GK w w' \<Longrightarrow> GK w' w'' \<Longrightarrow> GK w w''"
    and GA_refl: "GA w w"
    and GA_trans: "GA w w' \<Longrightarrow> GA w' w'' \<Longrightarrow> GA w w''"
    and GM_GA: "GM w w' \<Longrightarrow> GA w w'"
    and GK_GA: "GK w w' \<Longrightarrow> GA w w'"
    and GK_settle: "GK w (settle w)"
    and PC_stable: "PC pos w \<Longrightarrow> GK w w' \<Longrightarrow> PC pos w'"
    and E_stable: "E w \<Longrightarrow> GA w w' \<Longrightarrow> E w'"
    and KP_stable: "KP ch w \<Longrightarrow> GA w w' \<Longrightarrow> KP ch w'"
    and main_ok: "PC pos w \<Longrightarrow> spawned w = [] \<Longrightarrow> rg GK GM PC E (main_seg pos w) w"
    and kid_ok: "KP ch w \<Longrightarrow> spawned w = [] \<Longrightarrow> rg GA GK (\<lambda>_ _. True) E (childBody ch w) w"
    and GM_spawn: "GM w w' \<Longrightarrow> spawned w = [] \<Longrightarrow> (i, ch) \<in> set (spawned w') \<Longrightarrow> KP ch w'"
    and GK_spawn: "GK w w' \<Longrightarrow> spawned w = [] \<Longrightarrow> spawned w' = []"
begin

text \<open>What is known of a blocked or finished coroutine in the current shared world.\<close>

definition blocked_ok ::
  "(world \<Rightarrow> world \<Rightarrow> bool) \<Rightarrow> (world \<Rightarrow> world \<Rightarrow> bool) \<Rightarrow> ('a \<Rightarrow> world \<Rightarrow> bool)
    \<Rightarrow> 'a body \<Rightarrow> world \<Rightarrow> bool" where
  "blocked_ok R G Q p w =
    (case p of
       Done a w0 \<Rightarrow> Q a w
     | Panic w0 \<Rightarrow> E w
     | Yield q w0 k \<Rightarrow> (\<forall>r w1. R w w1 \<longrightarrow> rg R G Q E (k r w1) w1)
     | Await a w0 k \<Rightarrow> (\<forall>v w1. R w w1 \<longrightarrow> rg R G Q E (k v w1) w1))"

definition kid_inv :: "kid \<Rightarrow> world \<Rightarrow> bool" where
  "kid_inv kd w =
    (case kd of Fresh ch \<Rightarrow> KP ch w | Live _ p \<Rightarrow> blocked_ok GA GK (\<lambda>_ _. True) p w)"

definition cfg_inv :: "cfg \<Rightarrow> bool" where
  "cfg_inv c \<longleftrightarrow> spawned (shared c) = [] \<and> blocked_ok GK GM PC (main c) (shared c)
     \<and> (\<forall>i kd. kids c i = Some kd \<longrightarrow> kid_inv kd (shared c))"

lemma blocked_stable:
  assumes "blocked_ok R G Q p w" and "R w w1" and "\<And>x y. R x y \<Longrightarrow> GA x y"
    and "\<And>x y z. R x y \<Longrightarrow> R y z \<Longrightarrow> R x z" and "\<And>a x y. Q a x \<Longrightarrow> R x y \<Longrightarrow> Q a y"
  shows "blocked_ok R G Q p w1"
  using assms(1,2) unfolding blocked_ok_def
  by (auto split: step.splits intro: assms(4,5) E_stable [OF _ assms(3)])

lemma rg_blocked:
  assumes "rg R G Q E p w" and "R (world_of p) w1" and "\<And>x y. R x y \<Longrightarrow> GA x y"
    and "\<And>x y z. R x y \<Longrightarrow> R y z \<Longrightarrow> R x z" and "\<And>a x y. Q a x \<Longrightarrow> R x y \<Longrightarrow> Q a y"
  shows "blocked_ok R G Q p w1"
  using assms(1,2) unfolding blocked_ok_def
  by (cases p) (auto intro: assms(4,5) E_stable [OF _ assms(3)])

lemma kid_inv_stable: "kid_inv kd w \<Longrightarrow> GA w w1 \<Longrightarrow> kid_inv kd w1"
  unfolding kid_inv_def
  by (cases kd) (auto intro: KP_stable GA_trans blocked_stable [where R = GA])

lemma main_inv_stable: "blocked_ok GK GM PC p w \<Longrightarrow> GK w w1 \<Longrightarrow> blocked_ok GK GM PC p w1"
  by (auto intro: GK_trans PC_stable GK_GA blocked_stable [where R = GK])

lemma spawned_settle [simp]: "spawned (settle w) = []"
  by (simp add: settle_def)

lemma after_main_inv:
  assumes inv: "cfg_inv c" and p: "rg GK GM PC E p (shared c)"
  shows "cfg_inv (after_main p c) \<and> GA (shared c) (shared (after_main p c))"
proof -
  let ?w = "world_of p"
  from p have gm: "GM (shared c) ?w" by (rule rg_guarantee)
  have set: "GA ?w (settle ?w)" by (rule GK_GA [OF GK_settle])
  from GM_GA [OF gm] set have ga: "GA (shared c) (settle ?w)" by (rule GA_trans)
  have m: "blocked_ok GK GM PC p (settle ?w)"
    by (rule rg_blocked [OF p GK_settle]) (auto intro: GK_trans PC_stable GK_GA)
  have k: "kid_inv kd (settle ?w)" if "adopt (spawned ?w) (kids c) i = Some kd" for i kd
    using adopt_cases [OF that]
  proof
    assume "kids c i = Some kd"
    with inv have "kid_inv kd (shared c)" by (auto simp: cfg_inv_def)
    then show ?thesis using ga by (rule kid_inv_stable)
  next
    assume "\<exists>ch. (i, ch) \<in> set (spawned ?w) \<and> kd = Fresh ch"
    then obtain ch where ch: "(i, ch) \<in> set (spawned ?w)" "kd = Fresh ch" by blast
    from inv gm ch(1) have "KP ch ?w" by (auto simp: cfg_inv_def intro: GM_spawn)
    with set ch(2) show ?thesis by (auto simp: kid_inv_def intro: KP_stable)
  qed
  from m k ga show ?thesis by (auto simp: cfg_inv_def after_main_def)
qed

lemma after_kid_inv:
  assumes inv: "cfg_inv c" and p: "rg GA GK (\<lambda>_ _. True) E p (shared c)"
  shows "cfg_inv (after_kid i ch p c) \<and> GA (shared c) (shared (after_kid i ch p c))"
proof -
  let ?w = "world_of p"
  from p have gk: "GK (shared c) ?w" by (rule rg_guarantee)
  with inv have sp: "spawned ?w = []" by (auto simp: cfg_inv_def intro: GK_spawn)
  from gk GK_settle have gks: "GK (shared c) (settle ?w)" by (rule GK_trans)
  then have ga: "GA (shared c) (settle ?w)" by (rule GK_GA)
  from inv gks have m: "blocked_ok GK GM PC (main c) (settle ?w)"
    by (auto simp: cfg_inv_def intro: main_inv_stable)
  have k: "kid_inv (Live ch p) (settle ?w)"
    unfolding kid_inv_def kid.case
    by (rule rg_blocked [OF p GK_GA [OF GK_settle]]) (auto intro: GA_trans)
  have "kid_inv kd (settle ?w)" if "((kids c)(i \<mapsto> Live ch p)) j = Some kd" for j kd
    using that inv k ga by (auto simp: cfg_inv_def intro: kid_inv_stable split: if_splits)
  with m ga sp show ?thesis by (auto simp: cfg_inv_def after_kid_def)
qed

text \<open>Every step runs one stretch of a coroutine that honours its contract.\<close>

lemma step_stretch:
  assumes "node_step c c'" and inv: "cfg_inv c"
  obtains (main) p where "c' = after_main p c" and "rg GK GM PC E p (shared c)"
    | (kid) i ch p where "c' = after_kid i ch p c" and "rg GA GK (\<lambda>_ _. True) E p (shared c)"
  using assms(1)
proof cases
  case (main_loop pos w)
  with inv show ?thesis
    by (intro main) (auto simp: cfg_inv_def blocked_ok_def intro: main_ok)
next
  case (main_io q w k r)
  with inv show ?thesis
    by (intro main) (auto simp: cfg_inv_def blocked_ok_def intro: GK_refl)
next
  case (main_await p w k ch v w')
  with inv show ?thesis
    by (intro main) (auto simp: cfg_inv_def blocked_ok_def intro: GK_refl)
next
  case (kid_start i ch)
  with inv show ?thesis
    by (intro kid) (fastforce simp: cfg_inv_def kid_inv_def intro: kid_ok)+
next
  case (kid_io i ch q w k r)
  with inv have "kid_inv (Live ch (Yield q w k)) (shared c)" by (auto simp: cfg_inv_def)
  with kid_io show ?thesis
    by (intro kid) (auto simp: kid_inv_def blocked_ok_def intro: GA_refl)
qed

lemma step_inv: "node_step c c' \<Longrightarrow> cfg_inv c \<Longrightarrow> cfg_inv c' \<and> GA (shared c) (shared c')"
  by (erule (1) step_stretch) (auto dest: after_main_inv after_kid_inv)

text \<open>Which guarantee a step honours, before the spawn queue is emptied.\<close>

lemma step_guarantee:
  assumes "node_step c c'" and "cfg_inv c"
  shows "\<exists>w. shared c' = settle w \<and> (GM (shared c) w \<or> GK (shared c) w)"
  by (rule step_stretch [OF assms]) (auto simp: after_defs dest: rg_guarantee)

lemma kid_guarantee:
  assumes "cfg_inv c"
  shows "kids c i = Some (Fresh ch) \<Longrightarrow> GK (shared c) (world_of (childBody ch (shared c)))"
    and "kids c i = Some (Live ch (Yield q w k)) \<Longrightarrow> GK (shared c) (world_of (k r (shared c)))"
proof -
  assume "kids c i = Some (Fresh ch)"
  with assms have "KP ch (shared c)" "spawned (shared c) = []" by (fastforce simp: cfg_inv_def kid_inv_def)+
  from kid_ok [OF this] show "GK (shared c) (world_of (childBody ch (shared c)))" by (rule rg_guarantee)
next
  assume "kids c i = Some (Live ch (Yield q w k))"
  with assms have "kid_inv (Live ch (Yield q w k)) (shared c)" by (auto simp: cfg_inv_def)
  then have "rg GA GK (\<lambda>_ _. True) E (k r (shared c)) (shared c)"
    by (auto simp: kid_inv_def blocked_ok_def intro: GA_refl)
  then show "GK (shared c) (world_of (k r (shared c)))" by (rule rg_guarantee)
qed

lemma steps_inv:
  assumes "node_step\<^sup>*\<^sup>* c c'" and "cfg_inv c"
  shows "cfg_inv c' \<and> GA (shared c) (shared c')"
  using assms
proof (induction rule: rtranclp_induct)
  case base
  then show ?case by (simp add: GA_refl)
next
  case (step y z)
  then show ?case using step_inv [of y z] by (blast intro: GA_trans)
qed

lemma init_inv:
  assumes "PC RunSwitch (shared (initCfg n))"
  shows "cfg_inv (initCfg n)"
  using assms
  by (auto simp: initCfg_def Let_def cfg_inv_def blocked_ok_def runStart_def)

lemma reachable_inv:
  assumes "reachable n c" and "PC RunSwitch (shared (initCfg n))"
  shows "cfg_inv c"
  using assms
  by (induction rule: reachable.induct) (auto intro: init_inv dest: step_inv)

lemma reachable_loop_head:
  assumes "reachable n c" and "PC RunSwitch (shared (initCfg n))" and "main c = Done pos w"
  shows "PC pos (shared c)"
  using reachable_inv [OF assms(1,2)] assms(3) by (simp add: cfg_inv_def blocked_ok_def)

lemma reachable_panic:
  assumes "reachable n c" and "PC RunSwitch (shared (initCfg n))" and "panicked c"
  shows "E (shared c)"
  using reachable_inv [OF assms(1,2)] assms(3)
  by (fastforce simp: cfg_inv_def kid_inv_def blocked_ok_def panicked_def)

lemma reachable_since_init:
  assumes "reachable n c" and "PC RunSwitch (shared (initCfg n))"
  shows "GA (shared (initCfg n)) (shared c)"
  using assms
proof (induction rule: reachable.induct)
  case init
  show ?case by (rule GA_refl)
next
  case (step c c')
  then have "GA (shared c) (shared c')"
    using step_inv reachable_inv by blast
  with step show ?case by (blast intro: GA_trans)
qed

end

end
