(* ===== verification/Node_Contracts.thy ===== *)
theory Node_Contracts
  imports Node_Machine
begin

text \<open>
  The contract between the main coroutine of a node and the coroutines it spawns, and its
  interpretation on the model: what the published atomics say about the coroutine state,
  when a node may be leader, what the loop heads know, and when a coroutine panics.
\<close>

section \<open>Invariants of the shared world\<close>

text \<open>The atomics external readers load agree with the coroutine state.\<close>

definition published :: "'a node_scheme \<Rightarrow> bool" where
  "published w \<longleftrightarrow> a_term w = currentTerm w \<and> a_leader w = currentLeader w
     \<and> a_isLeader w = (currentLeader w = self w) \<and> a_peers w = currentPeers w"

text \<open>The published role. A node that leaves the follower role by a timer or a shutdown
  is still published as a follower.\<close>

definition role_published :: "'a node_scheme \<Rightarrow> bool" where
  "role_published w \<longleftrightarrow> a_role w = role_code (currentRole w)
     \<or> (currentRole w = roleCandidate \<or> currentRole w = roleShutdown) \<and> a_role w = role_code roleFollower"

definition leader_ok :: "'a node_scheme \<Rightarrow> bool" where
  "leader_ok w \<longleftrightarrow> (currentRole w = roleLeader \<longrightarrow> currentLeader w = self w)"

definition node_ok :: "'a node_scheme \<Rightarrow> bool" where
  "node_ok w \<longleftrightarrow> published w \<and> role_published w \<and> leader_ok w"

lemmas node_ok_defs = node_ok_def published_def role_published_def leader_ok_def

section \<open>The relations\<close>

definition GAll :: "world \<Rightarrow> world \<Rightarrow> bool" where
  "GAll w w' \<longleftrightarrow> conf w' = conf w \<and> self w' = self w \<and> rng w' = rng w
     \<and> (node_ok w \<longrightarrow> node_ok w')
     \<and> (peersLastContact w \<noteq> None \<longrightarrow> peersLastContact w' \<noteq> None)
     \<and> prefix (outputs w) (outputs w')"

text \<open>A heartbeat coroutine is only spawned once the contact map exists.\<close>

definition GMain :: "world \<Rightarrow> world \<Rightarrow> bool" where
  "GMain w w' \<longleftrightarrow> GAll w w'
     \<and> (\<forall>i p t s m. (i, HeartBeatChild p t s m) \<in> set (spawned w')
          \<longrightarrow> (i, HeartBeatChild p t s m) \<in> set (spawned w) \<or> peersLastContact w' \<noteq> None)"

definition GKid :: "world \<Rightarrow> world \<Rightarrow> bool" where
  "GKid w w' \<longleftrightarrow> GAll w w'
     \<and> currentRole w' = currentRole w \<and> a_role w' = a_role w
     \<and> voteLastCandidate w' = voteLastCandidate w \<and> voteLastTerm w' = voteLastTerm w
     \<and> currentLeader w' = currentLeader w \<and> lastContact w' = lastContact w
     \<and> map Address (currentPeers w') = map Address (currentPeers w)
     \<and> (spawned w = [] \<longrightarrow> spawned w' = []) \<and> nextCo w' = nextCo w
     \<and> answersIn (outputs w') = answersIn (outputs w)"

definition as_leader :: "'a node_scheme \<Rightarrow> bool" where
  "as_leader w \<longleftrightarrow> currentRole w = roleLeader \<and> peersLastContact w \<noteq> None"

text \<open>What the loop heads know: the leader and the candidate loops are only re-entered in
  their role, a candidate has not won yet, a leader has a contact map.\<close>

fun PCInv :: "pc \<Rightarrow> world \<Rightarrow> bool" where
  "PCInv (CandidateLoop l) w \<longleftrightarrow> currentRole w = roleCandidate
     \<and> 0 \<le> c_grantedVotes l \<and> c_grantedVotes l < c_votesNeeded l"
| "PCInv (LeaderLoop l) w \<longleftrightarrow> as_leader w"
| "PCInv _ w \<longleftrightarrow> True"

fun KidPre :: "child \<Rightarrow> world \<Rightarrow> bool" where
  "KidPre (HeartBeatChild p t s m) w \<longleftrightarrow> peersLastContact w \<noteq> None"
| "KidPre _ w \<longleftrightarrow> True"

text \<open>The configurations under which \<open>randomDuration\<close> divides by zero.\<close>

definition badTimeouts :: "'a node_scheme \<Rightarrow> bool" where
  "badTimeouts w \<longleftrightarrow> HeartBeatTimeout (conf w) sdiv 10 = 0 \<or> ElectionTimeout (conf w) = 0"

abbreviation rgm :: "('a \<Rightarrow> world \<Rightarrow> bool) \<Rightarrow> 'a body \<Rightarrow> world \<Rightarrow> bool" where
  "rgm Q p w \<equiv> rg GKid GMain Q badTimeouts p w"

lemma GAll_refl [simp]: "GAll w w"
  by (simp add: GAll_def)

lemma GAll_trans: "GAll w w' \<Longrightarrow> GAll w' w'' \<Longrightarrow> GAll w w''"
  by (auto simp: GAll_def)

lemma GMain_refl [simp]: "GMain w w"
  by (simp add: GMain_def)

lemma GMain_trans: "GMain w w' \<Longrightarrow> GMain w' w'' \<Longrightarrow> GMain w w''"
  by (fastforce simp: GMain_def GAll_def)

lemma GKid_refl [simp]: "GKid w w"
  by (simp add: GKid_def)

lemma GKid_trans: "GKid w w' \<Longrightarrow> GKid w' w'' \<Longrightarrow> GKid w w''"
  by (auto simp: GKid_def intro: GAll_trans)

lemma GKid_GAll: "GKid w w' \<Longrightarrow> GAll w w'"
  by (simp add: GKid_def)

lemma GMain_GAll: "GMain w w' \<Longrightarrow> GAll w w'"
  by (simp add: GMain_def)

section \<open>Bodies of the main coroutine\<close>

lemma rgm_andThen:
  assumes "rgm Q p w" and "\<And>a w'. Q a w' \<Longrightarrow> GAll w w' \<Longrightarrow> rgm Q' (f a w') w'"
  shows "rgm Q' (andThen p f) w"
proof (rule rg_andThen)
  show "rgm (\<lambda>a w'. Q a w' \<and> GAll w w') p w"
    by (rule rg_post [OF assms(1)]) (blast intro: GKid_GAll GMain_GAll GAll_trans)+
qed (blast intro: assms(2) GMain_trans)+

lemma handleVote_rgm: "rgm (\<lambda>_ _. True) (handleVote ev rq n) n"
  by (auto simp: handleVote_def respondVote_def Let_def GMain_def GAll_def node_ok_defs)

lemma handleHeartBeat_rgm: "rgm (\<lambda>_ _. True) (handleHeartBeat ev rq n) n"
  by (auto simp: handleHeartBeat_def Let_def GMain_def GAll_def node_ok_defs
      setLeader_published updatePeerMetadata_published)

lemma handleResetElection_rgm: "rgm (\<lambda>_ _. True) (handleResetElection ev n) n"
  by (auto simp: handleResetElection_def GMain_def GAll_def node_ok_defs setLeader_published)

lemma handleResign_rgm: "rgm (\<lambda>_ _. True) (handleResign ev n) n"
  by (auto simp: handleResign_def sendElectionResets_eq GMain_def GAll_def node_ok_defs
      setLeader_published dest!: set_zip_rightD)

lemma handleSetPeers_rgm:
  "rgm (\<lambda>_ w. currentRole w = currentRole n) (handleSetPeers ev as n) n"
  by (auto simp: handleSetPeers_def Let_def GMain_def GAll_def node_ok_defs)

lemma handleSetMetadata_rgm:
  "rgm (\<lambda>_ w. currentRole w = currentRole n) (handleSetMetadata ev md n) n"
  by (auto simp: handleSetMetadata_def Let_def GMain_def GAll_def node_ok_defs)

lemmas handlers_rgm = handleVote_rgm handleHeartBeat_rgm handleResetElection_rgm
  handleResign_rgm handleSetPeers_rgm handleSetMetadata_rgm

lemma processRPC_rgm: "rgm (\<lambda>_ _. True) (processRPC ev n) n"
  unfolding processRPC_def
  by (cases "rq_Request (ev_RPCReq ev)")
    (auto simp: handlers_rgm GMain_def GAll_def node_ok_defs
      intro: rg_weaken [OF handleSetPeers_rgm] rg_weaken [OF handleSetMetadata_rgm])

lemma cancelBoth_rgm: "rgm PCInv (cancelBoth t1 t2 n) n"
  by (simp add: cancelBoth_def)

lemma GMain_counters:
  "GMain n (n\<lparr>rngPos := k\<rparr>)"
  "GMain n (n\<lparr>electionsStarted := e\<rparr>)"
  "GMain n (n\<lparr>electionsStarted := e, rngPos := k\<rparr>)"
  "GMain n (n\<lparr>peersLastContact := Some m\<rparr>)"
  "GMain n (n\<lparr>peersLastContact := Some m, rngPos := k\<rparr>)"
  by (auto simp: GMain_def GAll_def node_ok_defs)

lemma runFollower_rgm: "rgm PCInv (runFollower n) n"
  by (simp add: runFollower_def badTimeouts_def randomDuration_eq Let_def GMain_counters)

text \<open>The changes of world the timer and event branches make.\<close>

lemma GMain_updates:
  "currentRole n = roleFollower \<Longrightarrow> GMain n ((setLeader [] n)\<lparr>currentRole := roleCandidate\<rparr>)"
  "currentRole n = roleFollower \<Longrightarrow> GMain n (n\<lparr>currentRole := roleCandidate\<rparr>)"
  "currentRole n = roleFollower \<Longrightarrow> GMain n (n\<lparr>currentRole := roleShutdown\<rparr>)"
  "GMain n (callDone ev er n)"
  "GMain n (n\<lparr>currentRole := roleShutdown, a_role := 3\<rparr>)"
  "GMain n (sendElectionResets n)"
  "as_leader n \<Longrightarrow> GMain n (sendHeartBeats n)"
  "GMain n (setLeader [] (n\<lparr>currentRole := roleFollower, a_role := 0\<rparr>))"
  by (auto simp: GMain_def GAll_def node_ok_defs setLeader_published sendElectionResets_eq
      sendHeartBeats_eq as_leader_def dest!: set_zip_rightD)

lemma GKid_role: "GKid w w' \<Longrightarrow> currentRole w' = currentRole w"
  by (simp add: GKid_def)

lemma GKid_leader: "GKid w w' \<Longrightarrow> as_leader w \<Longrightarrow> as_leader w'"
  by (simp add: GKid_def GAll_def as_leader_def)

lemma as_leader_sendHeartBeats [simp]: "as_leader (sendHeartBeats n) = as_leader n"
  by (simp add: as_leader_def sendHeartBeats_eq)

lemma followerTimer_rgm: "currentRole n = roleFollower \<Longrightarrow> rgm PCInv (followerTimer l t n) n"
  by (simp add: followerTimer_def Let_def GMain_updates GKid_role)

lemma followerEvent_rgm:
  assumes "currentRole n = roleFollower"
  shows "rgm PCInv (followerEvent l ev n) n"
proof (cases "ev_Kind ev")
  case EventRPC
  then show ?thesis
    by (simp add: followerEvent_def) (rule rgm_andThen [OF processRPC_rgm], simp)
next
  case EventSetPeers
  then show ?thesis
    by (simp add: followerEvent_def) (rule rgm_andThen [OF handleSetPeers_rgm], simp)
next
  case EventSetMetadata
  then show ?thesis
    by (simp add: followerEvent_def) (rule rgm_andThen [OF handleSetMetadata_rgm], simp)
qed (simp_all add: followerEvent_def followerTimer_rgm GMain_updates assms)

lemma runCandidate_rgm: "currentRole n = roleCandidate \<Longrightarrow> rgm PCInv (runCandidate n) n"
  by (auto simp: runCandidate_def badTimeouts_def randomDuration_eq Let_def GMain_counters
      quorumSize_def dest!: GKid_role)

lemma awaitVotes_rgm:
  "rgm (\<lambda>_ w. currentRole w = currentRole n) (awaitVotes ps rs n) n"
proof (induction ps arbitrary: rs n)
  case (Cons p ps)
  have "rgm (\<lambda>_ w. currentRole w = currentRole n) (awaitVotes ps rs' w1) w1"
    if "GKid n w1" for rs' w1
    using Cons.IH [of w1 rs'] GKid_role [OF that] by simp
  then show ?case by simp
qed simp

lemma electSelf_rgm: "rgm (\<lambda>_ w. currentRole w = currentRole n) (electSelf n) n"
proof -
  let ?t = "currentTerm n + 1"
  let ?n = "n\<lparr>currentTerm := ?t, a_term := ?t, voteLastCandidate := self n, voteLastTerm := ?t\<rparr>"
  let ?m = "snd (spawnAll (\<lambda>p. VoteChild p ?t (self n)) (otherPeers ?n) ?n)"
  have "GMain n ?m"
    by (auto simp: spawnAll_eq GMain_def GAll_def node_ok_defs dest!: set_zip_rightD)
  moreover have "rgm (\<lambda>_ w. currentRole w = currentRole n) (awaitVotes ps rs ?m) ?m" for ps rs
    using awaitVotes_rgm [of ?m ps rs] by (simp add: spawnAll_eq)
  ultimately have "rgm (\<lambda>_ w. currentRole w = currentRole n) (awaitVotes ps rs ?m) n" for ps rs
    by (rule rg_prefix) (rule GMain_trans)
  then show ?thesis by (simp add: electSelf_def Let_def case_prod_beta)
qed

lemma processVotes_rgm:
  assumes "PCInv (CandidateLoop l) n"
  shows "rgm PCInv (processVotes l vs n) n"
  using assms
proof (induction l vs n rule: processVotes.induct)
  case (2 l v vs n)
  have fall: "GMain n (n\<lparr>currentRole := roleFollower, currentTerm := t, a_term := t, a_role := 0\<rparr>)" for t
    by (auto simp: GMain_def GAll_def node_ok_defs)
  have win: "GMain n (setLeader (self n)
      (n\<lparr>currentRole := roleLeader, a_role := 2, electionsWon := electionsWon n + 1\<rparr>))"
    by (auto simp: GMain_def GAll_def node_ok_defs setLeader_published)
  from 2 show ?case by (simp add: Let_def fall win)
qed simp

lemma candidateTimer_rgm:
  assumes "PCInv (CandidateLoop l) n"
  shows "rgm PCInv (candidateTimer l t n) n"
proof -
  have "rgm PCInv (andThen (electSelf n) (\<lambda>vs n. processVotes l vs n)) n"
    using assms by (intro rgm_andThen [OF electSelf_rgm]) (simp add: processVotes_rgm)
  with assms show ?thesis by (auto simp: candidateTimer_def dest: GKid_role)
qed

lemma candidateEvent_rgm:
  assumes "PCInv (CandidateLoop l) n"
  shows "rgm PCInv (candidateEvent l ev n) n"
proof (cases "ev_Kind ev")
  case EventRPC
  then show ?thesis using assms
    by (simp add: candidateEvent_def) (rule rgm_andThen [OF processRPC_rgm], simp add: cancelBoth_rgm)
next
  case EventSetPeers
  then show ?thesis using assms
    by (simp add: candidateEvent_def) (rule rgm_andThen [OF handleSetPeers_rgm], simp)
next
  case EventSetMetadata
  then show ?thesis using assms
    by (simp add: candidateEvent_def) (rule rgm_andThen [OF handleSetMetadata_rgm], simp)
next
  case EventShutdown
  then show ?thesis
    by (simp add: candidateEvent_def cancelBoth_def GMain_updates)
qed (use assms in \<open>simp_all add: candidateEvent_def candidateTimer_rgm GMain_updates\<close>)

lemma runLeader_rgm:
  assumes "currentRole n = roleLeader"
  shows "rgm PCInv (runLeader n) n"
proof -
  have "as_leader (n\<lparr>peersLastContact := Some m, rngPos := k\<rparr>)" for m k
    using assms by (simp add: as_leader_def)
  then have "as_leader w2" if "GKid (n\<lparr>peersLastContact := Some m, rngPos := k\<rparr>) w1" "GKid w1 w2"
    for m k w1 w2
    using GKid_leader [OF GKid_trans [OF that]] by blast
  then show ?thesis
    by (simp add: runLeader_def badTimeouts_def randomDuration_eq Let_def GMain_counters sdiv_zero_iff)
qed

lemma stepDown_GMain: "GMain n (stepDownFromLeader n)"
  unfolding stepDownFromLeader_def role_code.simps
  by (rule GMain_trans [OF _ GMain_updates(6)]) (rule GMain_updates(8))

lemma leaderTimer_rgm:
  assumes "as_leader n"
  shows "rgm PCInv (leaderTimer l t n) n"
proof -
  have l: "as_leader w1" if "GKid n w1" for w1 using that assms by (rule GKid_leader)
  have h: "as_leader w1" if "GKid (sendHeartBeats n) w1" for w1
    using that assms by (auto intro: GKid_leader)
  have q: "as_leader w2" if "GKid n w1" "GKid w1 w2" for w1 w2
    using GKid_leader [OF GKid_trans [OF that] assms] .
  show ?thesis
    by (simp add: leaderTimer_def Let_def GMain_updates stepDown_GMain assms l h q)
qed

lemma leaderEvent_rgm:
  assumes "as_leader n"
  shows "rgm PCInv (leaderEvent l ev n) n"
proof -
  have a: "as_leader w" if "GAll n w" and "currentRole w = roleLeader" for w
    using assms that by (simp add: as_leader_def GAll_def)
  have r: "currentRole n = roleLeader" using assms by (simp add: as_leader_def)
  show ?thesis
  proof (cases "ev_Kind ev")
    case EventRPC
    then show ?thesis
      by (simp add: leaderEvent_def) (rule rgm_andThen [OF processRPC_rgm], simp add: cancelBoth_rgm a)
  next
    case EventSetPeers
    then show ?thesis
      by (simp add: leaderEvent_def)
        (rule rgm_andThen [OF handleSetPeers_rgm], simp add: r a GMain_updates)
  next
    case EventSetMetadata
    then show ?thesis
      by (simp add: leaderEvent_def)
        (rule rgm_andThen [OF handleSetMetadata_rgm], simp add: r a GMain_updates)
  next
    case EventResign
    then show ?thesis
      by (simp add: leaderEvent_def) (rule rgm_andThen [OF handleResign_rgm], simp add: cancelBoth_rgm a)
  next
    case EventShutdown
    have "GMain n (sendElectionResets (n\<lparr>currentRole := roleShutdown, a_role := 3\<rparr>))"
      by (rule GMain_trans [OF GMain_updates(5,6)])
    with EventShutdown show ?thesis by (simp add: leaderEvent_def cancelBoth_def)
  qed (simp_all add: leaderEvent_def leaderTimer_rgm assms)
qed

lemma main_seg_rgm:
  assumes "PCInv pos n"
  shows "rgm PCInv (main_seg pos n) n"
proof (cases pos)
  case RunSwitch
  then show ?thesis
    by (simp add: runFollower_rgm runCandidate_rgm runLeader_rgm split: nrole.split)
next
  case (FollowerLoop l)
  then show ?thesis by (simp add: followerEvent_rgm GKid_role)
next
  case (CandidateLoop l)
  with assms show ?thesis by (auto intro!: candidateEvent_rgm simp: GKid_role)
next
  case (LeaderLoop l)
  with assms have l: "as_leader n" by simp
  then have "rgm PCInv (leaderEvent l ev w) w" if "GKid n w" for ev w
    using that by (intro leaderEvent_rgm) (rule GKid_leader)
  moreover from l have "currentRole n = roleLeader" by (simp add: as_leader_def)
  ultimately show ?thesis using LeaderLoop by simp
qed simp

section \<open>Spawned coroutines\<close>

lemma GKid_updates:
  "GKid n (n\<lparr>heartbeatsSent := x\<rparr>)"
  "GKid n (n\<lparr>heartbeatsSent := x, currentTerm := t, a_term := t\<rparr>)"
  "GKid n (updatePeerMetadata p md (n\<lparr>peersLastContact := Some m\<rparr>))"
  "GKid n (settle n)"
  by (auto simp: GKid_def GAll_def node_ok_defs updatePeerMetadata_published settle_def)

lemma heartBeatChild_rg:
  assumes "peersLastContact n \<noteq> None"
  shows "rg GAll GKid (\<lambda>_ _. True) badTimeouts (heartBeatChild p t s md n) n"
proof -
  have c: "\<exists>m. peersLastContact w = Some m" if "GAll n w" for w
    using that assms by (auto simp: GAll_def)
  have 1: "\<exists>m. peersLastContact w2 = Some m"
    if "GAll n w1" "GAll (w1\<lparr>heartbeatsSent := x\<rparr>) w2" for w1 w2 x
    using that c [of w1] by (auto simp: GAll_def)
  have 2: "\<exists>m. peersLastContact w2 = Some m"
    if "GAll n w1" "GAll (w1\<lparr>heartbeatsSent := x, currentTerm := u, a_term := u\<rparr>) w2" for w1 w2 x u
    using that c [of w1] by (auto simp: GAll_def)
  show ?thesis
    by (auto simp: heartBeatChild_def Let_def GKid_updates split: response.split option.split
        dest: 1 2)
qed

lemma childBody_rg:
  assumes "KidPre ch n"
  shows "rg GAll GKid (\<lambda>_ _. True) badTimeouts (childBody ch n) n"
  using assms by (cases ch) (auto simp: voteChild_def resetChild_def heartBeatChild_rg)

section \<open>The interpretation\<close>

interpretation nc: node_contract GMain GKid GAll PCInv KidPre badTimeouts
proof
  show "PCInv pos w'" if "PCInv pos w" and "GKid w w'" for pos w w'
    using that by (cases pos) (auto simp: GKid_role intro: GKid_leader)
  show "KidPre ch w'" if "KidPre ch w" and "GAll w w'" for ch w w'
    using that by (cases ch) (auto simp: GAll_def)
  show "KidPre ch w'" if "GMain w w'" "spawned w = []" "(i, ch) \<in> set (spawned w')" for w w' i ch
    using that by (cases ch) (auto simp: GMain_def)
  show "badTimeouts w'" if "badTimeouts w" "GAll w w'" for w w'
    using that by (simp add: badTimeouts_def GAll_def)
  show "spawned w' = []" if "GKid w w'" "spawned w = []" for w w'
    using that by (simp add: GKid_def)
qed (auto intro: main_seg_rgm childBody_rg GKid_trans GAll_trans GKid_GAll GMain_GAll GKid_updates)

end
