(* ===== verification/Samples.thy ===== *)
theory Samples
  imports Node
begin

text \<open>
  Concrete nodes and IO responses, for the instances at which the theorems are evaluated:
  nodes of small clusters, with short timeouts and a random source that always draws 0.
\<close>

definition sampleConf :: "string \<Rightarrow> string list \<Rightarrow> config" where
  "sampleConf i ps = \<lparr>UniqueID = i, Peers = ps, confMetadata = None, hasSendRPC = True,
     hasOnChange = True, HeartBeatTimeout = 100, ElectionTimeout = 100, NetworkTimeout = 50,
     LeaderQuorumTimeout = 200, MinimumQuorum = 0\<rparr>"

definition sampleNode :: "string \<Rightarrow> string list \<Rightarrow> node" where
  "sampleNode i ps = projr (NewNode (sampleConf i ps) (\<lambda>_. 0))"

definition sampleWorld :: world where
  "sampleWorld = world_of_node (sampleNode ''a'' [''a'', ''b'', ''c''])"

definition timerResp :: "timer_id \<Rightarrow> resp" where
  "timerResp t = (resp_of After)\<lparr>r_TimerID := t\<rparr>"

definition eventResp :: "event \<Rightarrow> resp" where
  "eventResp ev = (resp_of Recv)\<lparr>r_Event := ev\<rparr>"

definition fired :: "timer_id \<Rightarrow> resp" where
  "fired t = eventResp ((event_of EventTimer)\<lparr>ev_TimerID := t\<rparr>)"

definition nowIs :: "gotime \<Rightarrow> resp" where
  "nowIs t = (resp_of Now)\<lparr>r_Time := t\<rparr>"

definition rpcEvent :: "RPC \<Rightarrow> request \<Rightarrow> callback option \<Rightarrow> event" where
  "rpcEvent rpc rq cb =
    (event_of EventRPC)\<lparr>ev_RPCReq := \<lparr>rq_RPC = rpc, rq_Request = rq\<rparr>, ev_Respond := cb\<rparr>"

definition voteEvent :: "u64 \<Rightarrow> string \<Rightarrow> resp" where
  "voteEvent t cand =
    eventResp (rpcEvent VoteRPC (VoteReq \<lparr>vq_Term = t, vq_Candidate = cand\<rparr>) (Some 0))"

definition answered :: "RPC \<Rightarrow> response \<Rightarrow> resp" where
  "answered rpc rs = (resp_of SendRPC)\<lparr>r_RPCResp := \<lparr>rp_RPC = rpc, rp_Response = rs, rp_Error = []\<rparr>\<rparr>"

definition voteAnswer :: "u64 \<Rightarrow> bool \<Rightarrow> resp" where
  "voteAnswer t g = answered VoteRPC (VoteResp \<lparr>vp_Term = t, vp_Granted = g\<rparr>)"

definition beatAnswer :: "u64 \<Rightarrow> resp" where
  "beatAnswer t = answered HeartBeatRPC (HeartBeatResp \<lparr>hp_Term = t, hp_Metadata = None\<rparr>)"

abbreviation noVotes :: "nat \<Rightarrow> voteResp" where
  "noVotes \<equiv> (\<lambda>_. \<lparr>vp_Term = 0, vp_Granted = False\<rparr>)"

end
