(* ===== verification/Node_Exec.thy ===== *)
theory Node_Exec
  imports Node_Contracts Samples
begin

text \<open>
  Concrete runs of a node. A move names the coroutine the scheduler resumes and the IO
  response it is resumed with; \<open>run_moves\<close> computes the configuration a list of moves
  leads to, and every such configuration is reachable.
\<close>

datatype move =
    MainLoop
  | MainIO resp
  | MainAwait
  | KidStart nat
  | KidIO nat resp

fun do_move :: "move \<Rightarrow> cfg \<Rightarrow> cfg option" where
  "do_move MainLoop c =
    (case main c of
       Done pos w \<Rightarrow> if pos = Returned then None else Some (after_main (main_seg pos (shared c)) c)
     | _ \<Rightarrow> None)"
| "do_move (MainIO r) c =
    (case main c of Yield q w k \<Rightarrow> Some (after_main (k r (shared c)) c) | _ \<Rightarrow> None)"
| "do_move MainAwait c =
    (case main c of
       Await p w k \<Rightarrow>
         (case kids c p of
            Some (Live ch (Done (KVote v) w')) \<Rightarrow> Some (after_main (k v (shared c)) c)
          | _ \<Rightarrow> None)
     | _ \<Rightarrow> None)"
| "do_move (KidStart i) c =
    (case kids c i of
       Some (Fresh ch) \<Rightarrow> Some (after_kid i ch (childBody ch (shared c)) c)
     | _ \<Rightarrow> None)"
| "do_move (KidIO i r) c =
    (case kids c i of
       Some (Live ch (Yield q w k)) \<Rightarrow> Some (after_kid i ch (k r (shared c)) c)
     | _ \<Rightarrow> None)"

fun run_moves :: "move list \<Rightarrow> cfg \<Rightarrow> cfg option" where
  "run_moves [] c = Some c"
| "run_moves (m # ms) c = (case do_move m c of None \<Rightarrow> None | Some c' \<Rightarrow> run_moves ms c')"

lemma do_move_step: "do_move m c = Some c' \<Longrightarrow> node_step c c'"
  by (cases m) (auto split: step.splits if_splits option.splits kid.splits kidResult.splits
      intro: node_step.intros)

lemma node_step_do_move:
  assumes "node_step c c'"
  shows "\<exists>m. do_move m c = Some c'"
  using assms
proof cases
  case (main_loop pos w)
  then have "do_move MainLoop c = Some c'" by simp
  then show ?thesis ..
next
  case (main_io q w k r)
  then have "do_move (MainIO r) c = Some c'" by simp
  then show ?thesis ..
next
  case (main_await p w k ch v w')
  then have "do_move MainAwait c = Some c'" by simp
  then show ?thesis ..
next
  case (kid_start i ch)
  then have "do_move (KidStart i) c = Some c'" by simp
  then show ?thesis ..
next
  case (kid_io i ch q w k r)
  then have "do_move (KidIO i r) c = Some c'" by simp
  then show ?thesis ..
qed

lemma run_moves_append:
  "run_moves (ms @ ms') c = (case run_moves ms c of None \<Rightarrow> None | Some c' \<Rightarrow> run_moves ms' c')"
  by (induction ms arbitrary: c) (auto split: option.split)

text \<open>With timeouts that cannot make \<open>randomDuration\<close> panic, moves stay reachable.\<close>

lemma reachable_no_panic:
  assumes "reachable n c" and "\<not> badTimeouts (shared (initCfg n))"
  shows "\<not> panicked c"
proof
  assume "panicked c"
  with nc.reachable_panic [OF assms(1)] have "badTimeouts (shared c)" by simp
  with nc.reachable_since_init [OF assms(1)] assms(2) show False
    by (simp add: badTimeouts_def GAll_def)
qed

lemma reachable_run_moves:
  assumes "\<not> badTimeouts (shared (initCfg n))" and "reachable n c" and "run_moves ms c = Some c'"
  shows "reachable n c'"
  using assms(2,3)
proof (induction ms arbitrary: c)
  case (Cons m ms)
  from Cons.prems(2) obtain d where d: "do_move m c = Some d" "run_moves ms d = Some c'"
    by (auto split: option.splits)
  from Cons.prems(1) reachable_no_panic [OF Cons.prems(1) assms(1)] do_move_step [OF d(1)]
  have "reachable n d" by (rule reachable.step)
  then show ?case using d(2) by (rule Cons.IH)
qed simp

text \<open>Computing a predicate at the end of a run shows a reachable configuration.\<close>

lemma run_moves_reaches:
  assumes "\<not> badTimeouts (shared (initCfg n))"
    and "map_option P (run_moves ms (initCfg n)) = Some True"
  shows "\<exists>c. reachable n c \<and> P c"
proof -
  from assms(2) obtain c where c: "run_moves ms (initCfg n) = Some c" and "P c" by auto
  with reachable_run_moves [OF assms(1) reachable.init c] show ?thesis by blast
qed

section \<open>Runs of the sample nodes\<close>

lemma sampleNode_fresh: "i \<noteq> [] \<Longrightarrow> fresh_node (sampleNode i ps)"
  unfolding fresh_node_def
  by (rule exI [of _ "sampleConf i ps"], rule exI [of _ "\<lambda>_. 0"])
    (simp add: sampleNode_def NewNode_def sampleConf_def Let_def)

lemma sampleNode_timeouts: "\<not> badTimeouts (shared (initCfg (sampleNode i ps)))" if "i \<noteq> []"
  using that
  by (simp add: sampleNode_def NewNode_def sampleConf_def applyDefaults_def Let_def initCfg_def
      runStart_def settle_def badTimeouts_def world_of_node_def node.defs world.defs sdiv_zero_iff)

text \<open>From the start to the candidate loop: register the follower timers (1 and 2), let the
  heartbeat timer fire, become candidate, register the candidate timers (3 and 4).\<close>

definition toCandidate :: "move list" where
  "toCandidate = [MainLoop, MainIO (timerResp 1), MainIO (timerResp 2), MainLoop,
     MainIO (fired 1), MainIO (nowIs 1000), MainIO (resp_of Cancel), MainLoop,
     MainIO (timerResp 3), MainIO (timerResp 4), MainLoop]"

end
