(* ===== verification/Node_Votes.thy ===== *)
theory Node_Votes
  imports Node_Contracts
begin

text \<open>
  Terms and votes of one node. Every stretch of the main coroutine keeps or raises the term
  (but for the wrap-around of \<open>uint64\<close>) and never replaces a vote within a term; the
  spawned coroutines leave the vote alone, and only the heartbeat coroutine writes the
  term. This is a second interpretation of the contract \<open>node_contract\<close>.
\<close>

definition GQuiet :: "world \<Rightarrow> world \<Rightarrow> bool" where
  "GQuiet w w' \<longleftrightarrow> currentTerm w \<le> currentTerm w'
     \<and> voteLastTerm w' = voteLastTerm w \<and> voteLastCandidate w' = voteLastCandidate w"

text \<open>The vote record may move to a later term, never to another candidate of its term.\<close>

definition vote_le :: "world \<Rightarrow> world \<Rightarrow> bool" where
  "vote_le w w' \<longleftrightarrow> voteLastTerm w \<le> voteLastTerm w'
     \<and> (voteLastTerm w = voteLastTerm w' \<and> voteLastCandidate w \<noteq> []
          \<longrightarrow> voteLastCandidate w' = voteLastCandidate w)"

definition GVote :: "world \<Rightarrow> world \<Rightarrow> bool" where
  "GVote w w' \<longleftrightarrow> (currentTerm w \<noteq> - 1 \<longrightarrow> currentTerm w \<le> currentTerm w'
     \<and> (voteLastTerm w \<le> currentTerm w \<longrightarrow> voteLastTerm w' \<le> currentTerm w' \<and> vote_le w w'))"

definition GKidVote :: "world \<Rightarrow> world \<Rightarrow> bool" where
  "GKidVote w w' \<longleftrightarrow> voteLastTerm w' = voteLastTerm w \<and> voteLastCandidate w' = voteLastCandidate w
     \<and> (spawned w = [] \<longrightarrow> spawned w' = [])"

lemmas vote_rel_defs = GQuiet_def GVote_def vote_le_def

abbreviation rgq :: "'a body \<Rightarrow> world \<Rightarrow> bool" where
  "rgq p w \<equiv> rg (\<lambda>_ _. True) GQuiet (\<lambda>_ _. True) (\<lambda>_. True) p w"

abbreviation rgv :: "'a body \<Rightarrow> world \<Rightarrow> bool" where
  "rgv p w \<equiv> rg (\<lambda>_ _. True) GVote (\<lambda>_ _. True) (\<lambda>_. True) p w"

lemma GQuiet_refl [simp]: "GQuiet w w"
  by (simp add: GQuiet_def)

lemma GQuiet_trans: "GQuiet w w' \<Longrightarrow> GQuiet w' w'' \<Longrightarrow> GQuiet w w''"
  by (auto simp: GQuiet_def)

lemma GQuiet_GVote: "GQuiet w w' \<Longrightarrow> GVote w w'"
  by (auto simp: vote_rel_defs)

lemma GVote_refl [simp]: "GVote w w"
  by (simp add: GQuiet_GVote)

lemma GVote_absorb: "GVote w w' \<Longrightarrow> GQuiet w' w'' \<Longrightarrow> GVote w w''"
  by (auto simp: vote_rel_defs)

lemma rgq_rgv: "rgq p w \<Longrightarrow> rgv p w"
  by (erule rg_weaken) (auto intro: GQuiet_GVote)

lemma rgq_andThen: "rgq p w \<Longrightarrow> (\<And>a w'. rgq (f a w') w') \<Longrightarrow> rgq (andThen p f) w"
  by (rule rg_andThen) (auto intro: GQuiet_trans)

lemma rgv_andThen: "rgv p w \<Longrightarrow> (\<And>a w'. rgq (f a w') w') \<Longrightarrow> rgv (andThen p f) w"
  by (erule rg_andThen_absorb [where H = GQuiet]) (auto intro: GQuiet_GVote GVote_absorb)

section \<open>Bodies that cast no vote\<close>

lemma handlers_quiet:
  "rgq (handleHeartBeat ev hb n) n"
  "rgq (handleResetElection ev n) n"
  "rgq (handleResign ev n) n"
  "rgq (handleSetPeers ev as n) n"
  "rgq (handleSetMetadata ev md n) n"
  by (simp_all add: handleHeartBeat_def handleResetElection_def handleResign_def
      handleSetPeers_def handleSetMetadata_def sendElectionResets_eq GQuiet_def Let_def less_imp_le)

lemma cancelBoth_quiet: "rgq (cancelBoth t1 t2 n) n"
  by (simp add: cancelBoth_def)

lemma processVotes_quiet: "rgq (processVotes l vs n) n"
  by (induction l vs n rule: processVotes.induct) (simp_all add: GQuiet_def Let_def less_imp_le)

lemma awaitVotes_quiet: "rgq (awaitVotes ps rs n) n"
  by (induction ps arbitrary: rs n) simp_all

lemma timers_quiet:
  "rgq (followerTimer fl t n) n"
  "rgq (leaderTimer ll t n) n"
  by (simp_all add: followerTimer_def leaderTimer_def stepDownFromLeader_def sendElectionResets_eq
      sendHeartBeats_eq GQuiet_def Let_def)

lemma enter_quiet:
  "rgq (runFollower n) n"
  "rgq (runCandidate n) n"
  "rgq (runLeader n) n"
  "rgq (leaderEpilogue n) n"
  by (simp_all add: runFollower_def runCandidate_def runLeader_def leaderEpilogue_def
      randomDuration_eq GQuiet_def Let_def)

section \<open>Bodies that cast a vote\<close>

lemma handleVote_rgv: "rgv (handleVote ev rq n) n"
  by (auto simp: handleVote_def respondVote_def vote_rel_defs Let_def)

lemma processRPC_rgv: "rgv (processRPC ev n) n"
  unfolding processRPC_def
  by (auto simp: handleVote_rgv GVote_def vote_le_def intro: rgq_rgv handlers_quiet split: request.split)

lemma electSelf_rgv: "rgv (electSelf n) n"
proof -
  let ?t = "currentTerm n + 1"
  let ?n = "n\<lparr>currentTerm := ?t, a_term := ?t, voteLastCandidate := self n, voteLastTerm := ?t\<rparr>"
  let ?m = "snd (spawnAll (\<lambda>p. VoteChild p ?t (self n)) (otherPeers ?n) ?n)"
  have "GVote n ?m"
    using word_succ_greater [of "currentTerm n"] by (auto simp: spawnAll_eq vote_rel_defs)
  then have "rgv (awaitVotes ps rs ?m) n" for ps rs
    using rgv_andThen [of "Done () ?m" n "\<lambda>_ w. awaitVotes ps rs w"] awaitVotes_quiet by simp
  then show ?thesis by (simp add: electSelf_def Let_def case_prod_beta)
qed

lemma loops_rgv:
  "rgv (followerEvent fl ev n) n"
  "rgv (candidateEvent cl ev n) n"
  "rgv (leaderEvent ll ev n) n"
proof -
  have c: "rgv (candidateTimer cl t n) n" for t
    by (auto simp: candidateTimer_def intro: rgv_andThen electSelf_rgv processVotes_quiet)
  have g: "GVote n (callDone ev er n)" "GVote n (n\<lparr>currentRole := r\<rparr>)" for er r
    by (simp_all add: vote_rel_defs)
  have x: "rgv (cancelBoth t1 t2 (n\<lparr>currentRole := r, a_role := k\<rparr>)) n"
    "rgv (cancelBoth t1 t2 (sendElectionResets (n\<lparr>currentRole := r, a_role := k\<rparr>))) n" for t1 t2 r k
    by (simp_all add: cancelBoth_def sendElectionResets_eq vote_rel_defs)
  have h: "GQuiet w (sendHeartBeats w)" for w
    by (simp add: sendHeartBeats_eq GQuiet_def)
  note rules = rgv_andThen [OF processRPC_rgv] rgv_andThen [OF rgq_rgv [OF handlers_quiet(3)]]
    rgv_andThen [OF rgq_rgv [OF handlers_quiet(4)]] rgv_andThen [OF rgq_rgv [OF handlers_quiet(5)]]
    rgq_rgv [OF timers_quiet(1)] rgq_rgv [OF timers_quiet(2)]
  show "rgv (followerEvent fl ev n) n"
    by (auto simp: followerEvent_def g intro!: rules split: eventKind.split)
  show "rgv (candidateEvent cl ev n) n"
    by (auto simp: candidateEvent_def g c x intro!: rules cancelBoth_quiet split: eventKind.split)
  show "rgv (leaderEvent ll ev n) n"
    by (auto simp: leaderEvent_def Let_def g x h intro!: rules cancelBoth_quiet
        split: eventKind.split)
qed

lemma main_seg_rgv: "rgv (main_seg pos n) n"
  by (cases pos) (auto simp: loops_rgv intro: rgq_rgv enter_quiet split: nrole.split)

section \<open>The interpretation\<close>

lemma childBody_vote: "rg (\<lambda>_ _. True) GKidVote (\<lambda>_ _. True) (\<lambda>_. True) (childBody ch n) n"
  by (cases ch) (auto simp: voteChild_def resetChild_def heartBeatChild_def Let_def GKidVote_def
      split: response.split option.split)

interpretation vc: node_contract GVote GKidVote "\<lambda>_ _. True" "\<lambda>_ _. True" "\<lambda>_ _. True" "\<lambda>_. True"
proof
  show "rg GKidVote GVote (\<lambda>_ _. True) (\<lambda>_. True) (main_seg pos w) w" for pos w
    by (rule rg_weaken [OF main_seg_rgv]) auto
qed (auto simp: GKidVote_def settle_def childBody_vote)

section \<open>Runs\<close>

text \<open>Along a run in which no step lowers the term and no term is the maximal one, the vote
  record only moves forward.\<close>

definition vote_inv :: "world \<Rightarrow> bool" where
  "vote_inv w \<longleftrightarrow> voteLastTerm w \<le> currentTerm w"

lemma inv_step_vote:
  assumes "vc.cfg_inv c" and "node_step c c'"
    and "currentTerm (shared c) \<noteq> - 1" and "currentTerm (shared c) \<le> currentTerm (shared c')"
    and "vote_inv (shared c)"
  shows "vote_inv (shared c') \<and> vote_le (shared c) (shared c')"
proof -
  from vc.step_guarantee [OF assms(2,1)] obtain w
    where w: "shared c' = settle w" and g: "GVote (shared c) w \<or> GKidVote (shared c) w" by blast
  from g show ?thesis
  proof
    assume "GVote (shared c) w"
    with assms(3,5) w show ?thesis by (simp add: settle_def GVote_def vote_inv_def vote_le_def)
  next
    assume "GKidVote (shared c) w"
    with assms(4,5) w show ?thesis
      by (simp add: settle_def GKidVote_def vote_inv_def vote_le_def)
  qed
qed

lemma step_vote:
  assumes "reachable n c" and "node_step c c'"
    and "currentTerm (shared c) \<noteq> - 1" and "currentTerm (shared c) \<le> currentTerm (shared c')"
    and "vote_inv (shared c)"
  shows "vote_inv (shared c') \<and> vote_le (shared c) (shared c')"
  using inv_step_vote [OF vc.reachable_inv [OF assms(1)] assms(2-5)] by simp

lemma vote_le_trans: "vote_le w w' \<Longrightarrow> vote_le w' w'' \<Longrightarrow> vote_le w w''"
  by (auto simp: vote_le_def)

inductive steady :: "cfg \<Rightarrow> cfg \<Rightarrow> bool" where
  refl: "steady c c"
| step: "steady c c' \<Longrightarrow> \<not> panicked c' \<Longrightarrow> node_step c' c'' \<Longrightarrow> currentTerm (shared c') \<noteq> - 1 \<Longrightarrow>
    currentTerm (shared c') \<le> currentTerm (shared c'') \<Longrightarrow> steady c c''"

lemma steady_reachable: "steady c c' \<Longrightarrow> reachable n c \<Longrightarrow> reachable n c'"
  by (induction rule: steady.induct) (auto intro: reachable.step)

lemma steady_vote:
  assumes "steady c c'" and "reachable n c" and "vote_inv (shared c)"
  shows "vote_inv (shared c') \<and> vote_le (shared c) (shared c')"
  using assms
proof (induction rule: steady.induct)
  case (refl c)
  then show ?case by (simp add: vote_le_def)
next
  case (step c c' c'')
  then show ?case
    using step_vote [OF steady_reachable, of c c' n c''] by (blast intro: vote_le_trans)
qed

end
