(* ===== verification/Cluster.thy ===== *)
theory Cluster
  imports "HOL-Library.AList" Node_Exec Node_Votes
begin

text \<open>
  A cluster: the nodes of one peer list and the network between them. A node moves as in
  \<open>Node_Exec\<close>, but the answers to its IO requests are now those of its surroundings:

  \<^item> a timer is set under an id the node has not had before, and fires at most once, at any
    time, even after it was cancelled (\<open>internal/prod/io.go\<close> numbers timers and uses
    \<open>time.AfterFunc\<close>; a cancelled timer may already be in the event channel; that the adapter
    keeps this is shown in \<open>Production_Timers\<close>);
  \<^item> an RPC event is one that a coroutine of a member has sent to this node; it can arrive
    late, more than once, or never;
  \<^item> a coroutine that sent an RPC gets an error, or a response that the node it asked has
    given to this very request;
  \<^item> metadata updates, resignations and shutdowns come at any time. The peer lists stay as
    they are.

  A node in which a coroutine has panicked may go on here, which only adds runs.

  \<open>ballots\<close> and \<open>winners\<close> are history variables: every vote a node has recorded, and every node
  that has been leader, with the term of its vote.
\<close>

section \<open>Requests of the spawned coroutines\<close>

fun childCall :: "child \<Rightarrow> string \<times> rpcRequest" where
  "childCall (VoteChild pr trm slf) =
    (pr, \<lparr>rq_RPC = VoteRPC, rq_Request = VoteReq \<lparr>vq_Term = trm, vq_Candidate = slf\<rparr>\<rparr>)"
| "childCall (HeartBeatChild pr trm slf md) =
    (pr, \<lparr>rq_RPC = HeartBeatRPC,
          rq_Request = HeartBeatReq \<lparr>hq_Term = trm, hq_Leader = slf, hq_Metadata = md\<rparr>\<rparr>)"
| "childCall (ResetChild pr) = (pr, \<lparr>rq_RPC = ResetElectionRPC, rq_Request = ResetElectionReq\<rparr>)"

text \<open>This is what the coroutines yield first.\<close>

lemma childBody_call:
  "\<exists>k. childBody ch w = Yield (sendReq (fst (childCall ch)) (snd (childCall ch))) w k"
  by (cases ch) (auto simp: voteChild_def heartBeatChild_def resetChild_def)

section \<open>State\<close>

record cluster =
  cfgs :: "(string \<times> cfg) list"
  timersSet :: "(string \<times> timer_id) list"
  timersLeft :: "(string \<times> timer_id) list"
  inbox :: "(callback \<times> string \<times> nat \<times> string \<times> rpcRequest) list"
  ballots :: "(string \<times> u64 \<times> string) set"
  winners :: "(u64 \<times> string) set"

abbreviation cfgOf :: "cluster \<Rightarrow> string \<Rightarrow> cfg option" where
  "cfgOf s b \<equiv> map_of (cfgs s) b"

definition initCluster :: "node list \<Rightarrow> cluster" where
  "initCluster ns = \<lparr>cfgs = map (\<lambda>n. (self n, initCfg n)) ns, timersSet = [], timersLeft = [],
     inbox = [], ballots = {}, winners = {}\<rparr>"

definition ownBallot :: "string \<Rightarrow> 'a node_scheme \<Rightarrow> (string \<times> u64 \<times> string) set" where
  "ownBallot b w = (if voteLastCandidate w = [] then {} else {(b, voteLastTerm w, voteLastCandidate w)})"

text \<open>Node \<open>b\<close> has moved to \<open>c\<close>.\<close>

definition observe :: "string \<Rightarrow> cfg \<Rightarrow> cluster \<Rightarrow> cluster" where
  "observe b c s = s\<lparr>cfgs := AList.update b c (cfgs s),
     ballots := ownBallot b (shared c) \<union> ballots s,
     winners := (if currentRole (shared c) = roleLeader then insert (voteLastTerm (shared c), b) (winners s)
                 else winners s)\<rparr>"

definition moveNode :: "string \<Rightarrow> move \<Rightarrow> cfg \<Rightarrow> cluster \<Rightarrow> cluster option" where
  "moveNode b m c s = map_option (\<lambda>c'. observe b c' s) (do_move m c)"

section \<open>Actions\<close>

datatype action =
    Local string move
  | SetTimer string timer_id
  | Fire string timer_id
  | Deliver string string nat callback
  | Reply string nat callback rpcResponse
  | Fail string nat error

definition mainAsks :: "kind \<Rightarrow> cfg \<Rightarrow> bool" where
  "mainAsks kd c = (case main c of Yield q w k \<Rightarrow> q_Kind q = kd | _ \<Rightarrow> False)"

definition kidAsks :: "kind \<Rightarrow> nat \<Rightarrow> cfg \<Rightarrow> bool" where
  "kidAsks kd i c = (case kids c i of Some (Live ch (Yield q w k)) \<Rightarrow> q_Kind q = kd | _ \<Rightarrow> False)"

text \<open>The call of a coroutine that has been started: the node it goes to, and the request.\<close>

definition sentCall :: "cfg \<Rightarrow> nat \<Rightarrow> (string \<times> rpcRequest) option" where
  "sentCall c i = (case kids c i of Some (Live ch _) \<Rightarrow> Some (childCall ch) | _ \<Rightarrow> None)"

text \<open>The moves that do not go through the network or the timers.\<close>

fun localMove :: "move \<Rightarrow> cfg \<Rightarrow> bool" where
  "localMove (MainIO r) c \<longleftrightarrow> mainAsks Cancel c \<or> mainAsks Now c
     \<or> mainAsks Recv c \<and> (ev_Kind (r_Event r) = EventSetMetadata \<or> ev_Kind (r_Event r) = EventResign
          \<or> ev_Kind (r_Event r) = EventShutdown)"
| "localMove (KidIO i r) c \<longleftrightarrow> kidAsks Now i c"
| "localMove _ c \<longleftrightarrow> True"

definition rpcArrives :: "rpcRequest \<Rightarrow> callback \<Rightarrow> resp" where
  "rpcArrives rq cb = eventResp ((event_of EventRPC)\<lparr>ev_RPCReq := rq, ev_Respond := Some cb\<rparr>)"

fun cluster_move :: "action \<Rightarrow> cluster \<Rightarrow> cluster option" where
  "cluster_move (Local b m) s =
    (case cfgOf s b of
       None \<Rightarrow> None
     | Some c \<Rightarrow> if localMove m c then moveNode b m c s else None)"
| "cluster_move (SetTimer b t) s =
    (case cfgOf s b of
       None \<Rightarrow> None
     | Some c \<Rightarrow>
         if mainAsks After c \<and> (b, t) \<notin> set (timersSet s)
         then moveNode b (MainIO (timerResp t)) c
                (s\<lparr>timersSet := (b, t) # timersSet s, timersLeft := (b, t) # timersLeft s\<rparr>)
         else None)"
| "cluster_move (Fire b t) s =
    (case cfgOf s b of
       None \<Rightarrow> None
     | Some c \<Rightarrow>
         if mainAsks Recv c \<and> (b, t) \<in> set (timersLeft s)
         then moveNode b (MainIO (fired t)) c (s\<lparr>timersLeft := removeAll (b, t) (timersLeft s)\<rparr>)
         else None)"
| "cluster_move (Deliver b a i cb) s =
    (case (cfgOf s b, cfgOf s a) of
       (Some c, Some ca) \<Rightarrow>
         (case sentCall ca i of
            Some (pr, rq) \<Rightarrow>
              if mainAsks Recv c \<and> pr = b \<and> map_of (inbox s) cb = None
              then moveNode b (MainIO (rpcArrives rq cb)) c (s\<lparr>inbox := (cb, a, i, pr, rq) # inbox s\<rparr>)
              else None
          | None \<Rightarrow> None)
     | _ \<Rightarrow> None)"
| "cluster_move (Reply a i cb rs) s =
    (case cfgOf s a of
       None \<Rightarrow> None
     | Some c \<Rightarrow>
         (case sentCall c i of
            Some (pr, rq) \<Rightarrow>
              (case cfgOf s pr of
                 None \<Rightarrow> None
               | Some cp \<Rightarrow>
                   if kidAsks SendRPC i c \<and> map_of (inbox s) cb = Some (a, i, pr, rq)
                      \<and> Responded cb rs \<in> set (outputs (shared cp))
                   then moveNode a (KidIO i ((resp_of SendRPC)\<lparr>r_RPCResp := rs\<rparr>)) c s
                   else None)
          | None \<Rightarrow> None))"
| "cluster_move (Fail a i e) s =
    (case cfgOf s a of
       None \<Rightarrow> None
     | Some c \<Rightarrow>
         if kidAsks SendRPC i c then moveNode a (KidIO i ((resp_of SendRPC)\<lparr>r_Err := Some e\<rparr>)) c s
         else None)"

section \<open>Runs\<close>

text \<open>The nodes of a cluster, as \<open>NewNode\<close> makes them: each is in its own peer list, and the
  lists have the same members.\<close>

definition formed :: "node list \<Rightarrow> bool" where
  "formed ns \<longleftrightarrow> distinct (map self ns) \<and> (\<forall>n\<in>set ns. fresh_node n
     \<and> distinct (map Address (currentPeers n)) \<and> Address ` set (currentPeers n) = self ` set ns)"

definition cluster_step :: "cluster \<Rightarrow> cluster \<Rightarrow> bool" where
  "cluster_step s s' \<longleftrightarrow> (\<exists>act. cluster_move act s = Some s')"

fun perform :: "action list \<Rightarrow> cluster \<Rightarrow> cluster option" where
  "perform [] s = Some s"
| "perform (act # acts) s =
    (case cluster_move act s of None \<Rightarrow> None | Some s' \<Rightarrow> perform acts s')"

lemma perform_steps: "perform acts s = Some s' \<Longrightarrow> cluster_step\<^sup>*\<^sup>* s s'"
proof (induction acts arbitrary: s)
  case (Cons act acts)
  from Cons.prems obtain s1 where "cluster_step s s1" "perform acts s1 = Some s'"
    by (auto simp: cluster_step_def split: option.splits)
  with Cons.IH show ?case by (blast intro: converse_rtranclp_into_rtranclp)
qed simp

text \<open>Steps in which no node lowers its term, or starts from the largest one.\<close>

definition termsRise :: "cluster \<Rightarrow> cluster \<Rightarrow> bool" where
  "termsRise s s' \<longleftrightarrow> list_all (\<lambda>(b, c). currentTerm (shared c) \<noteq> - 1
     \<and> (case cfgOf s' b of None \<Rightarrow> False | Some c' \<Rightarrow> currentTerm (shared c) \<le> currentTerm (shared c'))) (cfgs s)"

definition rising_step :: "cluster \<Rightarrow> cluster \<Rightarrow> bool" where
  "rising_step s s' \<longleftrightarrow> cluster_step s s' \<and> termsRise s s'"

fun perform_rising :: "action list \<Rightarrow> cluster \<Rightarrow> cluster option" where
  "perform_rising [] s = Some s"
| "perform_rising (act # acts) s =
    (case cluster_move act s of
       None \<Rightarrow> None
     | Some s' \<Rightarrow> if termsRise s s' then perform_rising acts s' else None)"

lemma perform_rising_steps: "perform_rising acts s = Some s' \<Longrightarrow> rising_step\<^sup>*\<^sup>* s s'"
proof (induction acts arbitrary: s)
  case (Cons act acts)
  from Cons.prems obtain s1 where "rising_step s s1" "perform_rising acts s1 = Some s'"
    by (auto simp: rising_step_def cluster_step_def split: option.splits if_splits)
  with Cons.IH show ?case by (blast intro: converse_rtranclp_into_rtranclp)
qed simp

end
