(* ===== verification/Quorum.thy ===== *)
theory Quorum
  imports Node Samples
begin

text \<open>
  Quorums. The locale \<open>majority_rule\<close> states what an election relies on: the number of
  votes asked of a cluster of a given size is more than half of it. Its lemmas say that
  two quorums share a member and that one vote per member lets at most one candidate
  collect a quorum. It is interpreted on the rule \<open>quorumSize\<close> computes.
\<close>

locale majority_rule =
  fixes needed :: "nat \<Rightarrow> int"
  assumes majority: "int k < 2 * needed k"
begin

lemma intersect:
  assumes "finite M" and "A \<subseteq> M" and "B \<subseteq> M"
    and "needed (card M) \<le> int (card A)" and "needed (card M) \<le> int (card B)"
  shows "A \<inter> B \<noteq> {}"
proof
  assume "A \<inter> B = {}"
  moreover have "finite A" "finite B" using assms(1-3) by (auto intro: finite_subset)
  ultimately have "card (A \<union> B) = card A + card B" by (simp add: card_Un_disjoint)
  moreover have "card (A \<union> B) \<le> card M" using assms(1-3) by (auto intro: card_mono)
  ultimately show False using assms(4,5) majority [of "card M"] by linarith
qed

text \<open>Members vote for at most one candidate, so two candidates with a quorum are one.\<close>

lemma unique_choice:
  assumes "finite M"
    and "needed (card M) \<le> int (card {m \<in> M. vote m = Some a})"
    and "needed (card M) \<le> int (card {m \<in> M. vote m = Some b})"
  shows "a = b"
proof -
  have "{m \<in> M. vote m = Some a} \<inter> {m \<in> M. vote m = Some b} \<noteq> {}"
    by (rule intersect [OF assms(1) _ _ assms(2,3)]) auto
  then show ?thesis by auto
qed

end

text \<open>The rule of \<open>quorumSize\<close> as a function of the number of peers.\<close>

definition quorumOf :: "nat \<Rightarrow> int" where
  "quorumOf k = (if k = 0 then 1 else int k div 2 + 1)"

lemma quorumSize_eq: "quorumSize n = quorumOf (length (currentPeers n))"
  by (simp add: quorumSize_def quorumOf_def Let_def)

interpretation mq: majority_rule quorumOf
proof
  show "int k < 2 * quorumOf k" for k
    by (simp add: quorumOf_def) linarith
qed

text \<open>Two nodes with the same list of distinct peers: if every peer votes for at most one
  candidate, then two candidates that each reach the quorum size of one of the nodes are
  the same candidate.\<close>

theorem quorum_unique_candidate:
  fixes vote :: "string \<Rightarrow> string option"
  assumes "map Address (currentPeers n1) = map Address (currentPeers n2)"
    and "distinct (map Address (currentPeers n1))"
    and "quorumSize n1 \<le> int (card {m \<in> Address ` set (currentPeers n1). vote m = Some a})"
    and "quorumSize n2 \<le> int (card {m \<in> Address ` set (currentPeers n2). vote m = Some b})"
  shows "a = b"
proof -
  let ?M = "Address ` set (currentPeers n1)"
  have M: "?M = Address ` set (currentPeers n2)" using assms(1) by (metis list.set_map)
  have "card ?M = length (currentPeers n1)" using assms(2) by (metis distinct_card length_map list.set_map)
  moreover have "length (currentPeers n1) = length (currentPeers n2)"
    using assms(1) by (metis length_map)
  ultimately show ?thesis
    using mq.unique_choice [of ?M vote a b] assms(3,4) M by (simp add: quorumSize_eq)
qed

theorem quorum_unique_candidate_witness:
  "let n = sampleWorld; vote = (\<lambda>m. if m = ''c'' then None else Some ''b'') in
   map Address (currentPeers n) = map Address (currentPeers n) \<and>
   distinct (map Address (currentPeers n)) \<and>
   quorumSize n \<le> int (card {m \<in> Address ` set (currentPeers n). vote m = Some ''b''}) \<and>
   ''b'' = ''b''"
proof -
  define vote where "vote = (\<lambda>m::string. if m = ''c'' then None else Some ''b'')"
  have p: "map Address (currentPeers sampleWorld) = [''a'', ''b'', ''c'']" by code_simp
  have d: "distinct (map Address (currentPeers sampleWorld))" unfolding p by simp
  have "Address ` set (currentPeers sampleWorld) = {''a'', ''b'', ''c''}"
    using arg_cong [OF p, of set] by simp
  then have s: "{m \<in> Address ` set (currentPeers sampleWorld). vote m = Some ''b''} = {''a'', ''b''}"
    by (auto simp: vote_def)
  have q: "quorumSize sampleWorld \<le> int (card {m \<in> Address ` set (currentPeers sampleWorld). vote m = Some ''b''})"
    unfolding s by code_simp
  show ?thesis
    using d q quorum_unique_candidate [OF refl d q q] unfolding vote_def Let_def by blast
qed

end
