(* ===== verification/Ballots.thy ===== *)
theory Ballots
  imports Quorum
begin

text \<open>
  What an election promises, without nodes or messages: members put ballots into a box, one
  candidate per member and term, and a candidate is elected for a term once it has the ballots
  of a quorum. The locale \<open>refines\<close> says what it takes to show that a detailed system does
  only such steps.
\<close>

record box =
  bx_ballots :: "(string \<times> u64 \<times> string) set"
  bx_elected :: "(u64 \<times> string) set"

definition votersOf :: "string set \<Rightarrow> (string \<times> u64 \<times> string) set \<Rightarrow> u64 \<Rightarrow> string \<Rightarrow> string set" where
  "votersOf M bs t c = {m \<in> M. (m, t, c) \<in> bs}"

inductive box_step :: "string set \<Rightarrow> box \<Rightarrow> box \<Rightarrow> bool" for M where
  cast: "(\<And>c'. (m, t, c') \<in> bx_ballots x \<Longrightarrow> c' = c) \<Longrightarrow>
    box_step M x (x\<lparr>bx_ballots := insert (m, t, c) (bx_ballots x)\<rparr>)"
| elect: "quorumOf (card M) \<le> int (card (votersOf M (bx_ballots x) t c)) \<Longrightarrow>
    box_step M x (x\<lparr>bx_elected := insert (t, c) (bx_elected x)\<rparr>)"

definition emptyBox :: box where
  "emptyBox = \<lparr>bx_ballots = {}, bx_elected = {}\<rparr>"

definition box_inv :: "string set \<Rightarrow> box \<Rightarrow> bool" where
  "box_inv M x \<longleftrightarrow>
    (\<forall>m t c c'. (m, t, c) \<in> bx_ballots x \<longrightarrow> (m, t, c') \<in> bx_ballots x \<longrightarrow> c = c')
    \<and> (\<forall>t c. (t, c) \<in> bx_elected x \<longrightarrow> quorumOf (card M) \<le> int (card (votersOf M (bx_ballots x) t c)))"

lemma votersOf_mono: "finite M \<Longrightarrow> bs \<subseteq> bs' \<Longrightarrow> card (votersOf M bs t c) \<le> card (votersOf M bs' t c)"
  by (rule card_mono) (auto simp: votersOf_def)

lemma box_step_inv: "box_step M x x' \<Longrightarrow> finite M \<Longrightarrow> box_inv M x \<Longrightarrow> box_inv M x'"
proof (induction rule: box_step.induct)
  case (cast m t x c)
  have "quorumOf (card M) \<le> int (card (votersOf M (insert (m, t, c) (bx_ballots x)) t' c'))"
    if "(t', c') \<in> bx_elected x" for t' c'
    using that cast.prems votersOf_mono [of M "bx_ballots x" "insert (m, t, c) (bx_ballots x)" t' c']
    by (fastforce simp: box_inv_def)
  with cast show ?case by (auto simp: box_inv_def)
qed (auto simp: box_inv_def)

lemma box_run_inv: "(box_step M)\<^sup>*\<^sup>* emptyBox x \<Longrightarrow> finite M \<Longrightarrow> box_inv M x"
  by (induction rule: rtranclp_induct) (auto simp: box_step_inv, simp add: box_inv_def emptyBox_def)

text \<open>At most one candidate is ever elected for a term.\<close>

lemma elected_unique:
  assumes "(box_step M)\<^sup>*\<^sup>* emptyBox x" and "finite M" and "(t, a) \<in> bx_elected x" and "(t, b) \<in> bx_elected x"
  shows "a = b"
proof -
  note inv = box_run_inv [OF assms(1,2)]
  have "votersOf M (bx_ballots x) t a \<inter> votersOf M (bx_ballots x) t b \<noteq> {}"
    by (rule mq.intersect [OF assms(2)]) (use inv assms(3,4) in \<open>auto simp: box_inv_def votersOf_def\<close>)
  then obtain m where "(m, t, a) \<in> bx_ballots x" "(m, t, b) \<in> bx_ballots x" by (auto simp: votersOf_def)
  with inv show ?thesis by (auto simp: box_inv_def)
qed

text \<open>A system refines another if an invariant lets every step be followed by abstract ones.\<close>

locale refines =
  fixes cstep :: "'c \<Rightarrow> 'c \<Rightarrow> bool" and astep :: "'a \<Rightarrow> 'a \<Rightarrow> bool"
    and abst :: "'c \<Rightarrow> 'a" and inv :: "'c \<Rightarrow> bool"
  assumes keeps: "inv s \<Longrightarrow> cstep s s' \<Longrightarrow> inv s'"
    and follows: "inv s \<Longrightarrow> cstep s s' \<Longrightarrow> astep\<^sup>*\<^sup>* (abst s) (abst s')"
begin

lemma runs:
  assumes "cstep\<^sup>*\<^sup>* s s'" and "inv s"
  shows "inv s' \<and> astep\<^sup>*\<^sup>* (abst s) (abst s')"
  using assms
proof (induction rule: rtranclp_induct)
  case (step y z)
  then show ?case using keeps follows by (meson rtranclp_trans)
qed simp

end

end
