(* ===== verification/Cluster_Votes.thy ===== *)
theory Cluster_Votes
  imports Cluster Ballots
begin

text \<open>
  What a node of a cluster does for the votes, relative to what it can know of the cluster:
  its timers, its coroutines, the ballots cast so far and the calls it has received. The
  predicate \<open>okm\<close> is rely-guarantee reasoning about a body of the main coroutine, like \<open>rg\<close>,
  but only for the answers a cluster gives, and with that knowledge.
\<close>

record knowledge =
  k_left :: "timer_id set"
  k_kids :: "nat \<rightharpoonup> child"
  k_ballots :: "(string \<times> u64 \<times> string) set"
  k_calls :: "callback \<rightharpoonup> rpcRequest"

section \<open>The relations\<close>

text \<open>A node with the members \<open>M\<close> in its peer list, blocked.\<close>

definition fits :: "string set \<Rightarrow> world \<Rightarrow> bool" where
  "fits M w \<longleftrightarrow> node_ok w \<and> spawned w = [] \<and> self w \<noteq> [] \<and> self w \<in> M
     \<and> distinct (map Address (currentPeers w)) \<and> Address ` set (currentPeers w) = M"

text \<open>What happens while the main coroutine is blocked: the coroutines it has spawned run, other
  nodes vote.\<close>

definition meanwhile :: "world \<Rightarrow> knowledge \<Rightarrow> world \<Rightarrow> knowledge \<Rightarrow> bool" where
  "meanwhile w g w1 g1 \<longleftrightarrow> GKid w w1 \<and> k_left g1 = k_left g \<and> k_calls g1 = k_calls g
     \<and> k_kids g \<subseteq>\<^sub>m k_kids g1 \<and> (\<forall>(i, ch)\<in>set (spawned w). k_kids g1 i = Some ch)
     \<and> k_ballots g \<subseteq> k_ballots g1 \<and> ownBallot (self w) w \<subseteq> k_ballots g1"

text \<open>The answers to its requests, and what it learns from them.\<close>

definition mayAnswer :: "string \<Rightarrow> req \<Rightarrow> resp \<Rightarrow> knowledge \<Rightarrow> knowledge \<Rightarrow> bool" where
  "mayAnswer b q r g g' \<longleftrightarrow>
    (case q_Kind q of
       After \<Rightarrow> g' = g\<lparr>k_left := insert (r_TimerID r) (k_left g)\<rparr>
     | Recv \<Rightarrow>
         (case ev_Kind (r_Event r) of
            EventTimer \<Rightarrow> ev_TimerID (r_Event r) \<in> k_left g
              \<and> g' = g\<lparr>k_left := k_left g - {ev_TimerID (r_Event r)}\<rparr>
          | EventRPC \<Rightarrow> (\<exists>cb ch. ev_Respond (r_Event r) = Some cb \<and> ev_RPCReq (r_Event r) = snd (childCall ch)
              \<and> (\<forall>p t s. ch = VoteChild p t s \<longrightarrow> s \<noteq> b \<and> s \<noteq> []) \<and> g' = g\<lparr>k_calls := (k_calls g)(cb \<mapsto> snd (childCall ch))\<rparr>)
          | EventSetPeers \<Rightarrow> False
          | _ \<Rightarrow> g' = g)
     | SendRPC \<Rightarrow> False
     | _ \<Rightarrow> g' = g)"

definition mayVote :: "nat \<Rightarrow> voteResp \<Rightarrow> knowledge \<Rightarrow> bool" where
  "mayVote p v g \<longleftrightarrow> (\<forall>pr t s. k_kids g p = Some (VoteChild pr t s) \<and> vp_Granted v \<longrightarrow> (pr, t, s) \<in> k_ballots g)"

text \<open>A response is one to a call the node has received; a granted vote is the vote on record.\<close>

definition honest :: "knowledge \<Rightarrow> world \<Rightarrow> callback \<Rightarrow> rpcResponse \<Rightarrow> bool" where
  "honest g w cb rs \<longleftrightarrow> (\<exists>rq. k_calls g cb = Some rq \<and>
     (\<forall>v vq. rp_Response rs = VoteResp v \<and> vp_Granted v \<and> rq_Request rq = VoteReq vq \<longrightarrow>
        voteLastTerm w = vq_Term vq \<and> voteLastCandidate w = vq_Candidate vq \<and> vq_Candidate vq \<noteq> []))"

definition votersFor :: "string set \<Rightarrow> knowledge \<Rightarrow> world \<Rightarrow> string set" where
  "votersFor M g w = votersOf M (k_ballots g \<union> ownBallot (self w) w) (voteLastTerm w) (self w)"

definition elected :: "string set \<Rightarrow> knowledge \<Rightarrow> world \<Rightarrow> bool" where
  "elected M g w \<longleftrightarrow> voteLastCandidate w = self w \<and> quorumOf (card M) \<le> int (card (votersFor M g w))"

definition spawnsFresh :: "world \<Rightarrow> world \<Rightarrow> bool" where
  "spawnsFresh w w' \<longleftrightarrow> (\<exists>chs. spawned w' = spawned w @ zip [nextCo w ..< nextCo w'] chs
     \<and> nextCo w' = nextCo w + length chs \<and> (\<forall>p t s. VoteChild p t s \<in> set chs \<longrightarrow> s = self w \<and> p \<noteq> self w))"

definition sameVote :: "world \<Rightarrow> world \<Rightarrow> bool" where
  "sameVote w w' \<longleftrightarrow> voteLastTerm w' = voteLastTerm w \<and> voteLastCandidate w' = voteLastCandidate w"

text \<open>What a stretch of the main coroutine keeps; a stretch that also gives no response; and one
  that leaves votes alone and does not make a leader, either.\<close>

definition keepsNode :: "world \<Rightarrow> world \<Rightarrow> bool" where
  "keepsNode w w' \<longleftrightarrow> self w' = self w \<and> map Address (currentPeers w') = map Address (currentPeers w)
     \<and> spawnsFresh w w'"

definition leadsRightly :: "string set \<Rightarrow> knowledge \<Rightarrow> world \<Rightarrow> world \<Rightarrow> bool" where
  "leadsRightly M g w w' \<longleftrightarrow> (currentRole w' = roleLeader \<longrightarrow>
     currentRole w = roleLeader \<and> sameVote w w' \<or> elected M g w')"

definition GStretch :: "string set \<Rightarrow> knowledge \<Rightarrow> world \<Rightarrow> world \<Rightarrow> bool" where
  "GStretch M g w w' \<longleftrightarrow> keepsNode w w' \<and> leadsRightly M g w w'
     \<and> (\<forall>(cb, rs)\<in>answersIn (outputs w'). (cb, rs) \<in> answersIn (outputs w) \<or> honest g w' cb rs)"

definition GElect :: "string set \<Rightarrow> knowledge \<Rightarrow> world \<Rightarrow> world \<Rightarrow> bool" where
  "GElect M g w w' \<longleftrightarrow> keepsNode w w' \<and> leadsRightly M g w w' \<and> answersIn (outputs w') = answersIn (outputs w)"

definition GCalm :: "string set \<Rightarrow> knowledge \<Rightarrow> world \<Rightarrow> world \<Rightarrow> bool" where
  "GCalm M g w w' \<longleftrightarrow> keepsNode w w' \<and> sameVote w w' \<and> answersIn (outputs w') = answersIn (outputs w)
     \<and> (currentRole w' = roleLeader \<longrightarrow> currentRole w = roleLeader)"

lemmas stretch_defs = GStretch_def GElect_def GCalm_def keepsNode_def leadsRightly_def sameVote_def

lemma spawnsFresh_refl [simp]: "spawned w' = spawned w \<Longrightarrow> nextCo w' = nextCo w \<Longrightarrow> spawnsFresh w w'"
  by (auto simp: spawnsFresh_def intro: exI [of _ "[]"])

lemma spawnsFresh_trans:
  assumes "spawnsFresh w w'" "spawnsFresh w' w''" "self w' = self w" shows "spawnsFresh w w''"
proof -
  obtain xs where x: "spawned w' = spawned w @ zip [nextCo w ..< nextCo w'] xs" "nextCo w' = nextCo w + length xs"
      "\<forall>p t s. VoteChild p t s \<in> set xs \<longrightarrow> s = self w \<and> p \<noteq> self w"
    using assms(1) unfolding spawnsFresh_def by blast
  obtain ys where y: "spawned w'' = spawned w' @ zip [nextCo w' ..< nextCo w''] ys" "nextCo w'' = nextCo w' + length ys"
      "\<forall>p t s. VoteChild p t s \<in> set ys \<longrightarrow> s = self w \<and> p \<noteq> self w"
    using assms(2) unfolding spawnsFresh_def assms(3) by blast
  have "[nextCo w ..< nextCo w''] = [nextCo w ..< nextCo w'] @ [nextCo w' ..< nextCo w'']"
    unfolding x(2) y(2) by (metis add.assoc upt_add_eq_append le_add1)
  then have "spawned w'' = spawned w @ zip [nextCo w ..< nextCo w''] (xs @ ys)"
    using x(1,2) y(1) by (simp add: zip_append)
  moreover have "\<forall>p t s. VoteChild p t s \<in> set (xs @ ys) \<longrightarrow> s = self w \<and> p \<noteq> self w"
    using x(3) y(3) by (metis Un_iff set_append)
  ultimately show ?thesis unfolding spawnsFresh_def
    using x(2) y(2) by (intro exI [of _ "xs @ ys"]) (simp only: length_append add.assoc simp_thms)
qed

lemma sameVote_elected: "sameVote w w' \<Longrightarrow> self w' = self w \<Longrightarrow> elected M g w' = elected M g w"
  by (simp add: sameVote_def elected_def votersFor_def ownBallot_def)

lemma sameVote_honest: "sameVote w w' \<Longrightarrow> honest g w' cb rs = honest g w cb rs"
  by (simp add: sameVote_def honest_def)

lemma keepsNode_trans: "keepsNode w w' \<Longrightarrow> keepsNode w' w'' \<Longrightarrow> keepsNode w w''"
  by (auto simp: keepsNode_def intro: spawnsFresh_trans)

lemma leadsRightly_trans:
  assumes "leadsRightly M g w w'" "leadsRightly M g w' w''" "self w'' = self w'"
  shows "leadsRightly M g w w''"
  using assms sameVote_elected [of w' w'' M g] by (auto simp: leadsRightly_def sameVote_def)

lemma GCalm_GElect: "GCalm M g w w' \<Longrightarrow> GElect M g w w'"
  by (auto simp: stretch_defs)

lemma GElect_GStretch: "GElect M g w w' \<Longrightarrow> GStretch M g w w'"
  by (auto simp: GElect_def GStretch_def)

lemma GElect_trans: "GElect M g w w' \<Longrightarrow> GElect M g w' w'' \<Longrightarrow> GElect M g w w''"
  by (auto simp: GElect_def keepsNode_def dest: leadsRightly_trans intro: spawnsFresh_trans)

lemma GCalm_trans: "GCalm M g w w' \<Longrightarrow> GCalm M g w' w'' \<Longrightarrow> GCalm M g w w''"
  by (auto simp: GCalm_def sameVote_def dest: keepsNode_trans)

lemma GStretch_absorb: "GStretch M g w w' \<Longrightarrow> GCalm M g w' w'' \<Longrightarrow> GStretch M g w w''"
proof -
  assume a: "GStretch M g w w'" "GCalm M g w' w''"
  then have "leadsRightly M g w' w''" by (auto simp: GCalm_def leadsRightly_def)
  with a have "leadsRightly M g w w''"
    by (auto simp: GStretch_def GCalm_def keepsNode_def dest: leadsRightly_trans)
  with a show ?thesis
    by (auto simp: GStretch_def GCalm_def sameVote_honest dest: keepsNode_trans)
qed

section \<open>Rely-guarantee with knowledge\<close>

primrec okm :: "string set \<Rightarrow> (knowledge \<Rightarrow> world \<Rightarrow> world \<Rightarrow> bool) \<Rightarrow> ('a \<Rightarrow> world \<Rightarrow> knowledge \<Rightarrow> bool)
    \<Rightarrow> 'a body \<Rightarrow> world \<Rightarrow> knowledge \<Rightarrow> bool" where
  "okm M G Q (Done a w') w g \<longleftrightarrow> G g w w' \<and> Q a w' g"
| "okm M G Q (Panic w') w g \<longleftrightarrow> G g w w'"
| "okm M G Q (Yield q w' k) w g \<longleftrightarrow> G g w w' \<and> (\<forall>r w1 g1 g2. meanwhile w' g w1 g1 \<longrightarrow> fits M w1 \<longrightarrow>
     mayAnswer (self w1) q r g1 g2 \<longrightarrow> okm M G Q (k r w1) w1 g2)"
| "okm M G Q (Await p w' k) w g \<longleftrightarrow> G g w w' \<and> (\<forall>v w1 g1. meanwhile w' g w1 g1 \<longrightarrow> fits M w1 \<longrightarrow>
     mayVote p v g1 \<longrightarrow> okm M G Q (k v w1) w1 g1)"

lemma okm_guarantee: "okm M G Q p w g \<Longrightarrow> G g w (world_of p)"
  by (cases p) auto

lemma okm_weaken:
  assumes "okm M G Q p w g" "\<And>g x y. G g x y \<Longrightarrow> G' g x y" "\<And>a x g. Q a x g \<Longrightarrow> Q' a x g"
  shows "okm M G' Q' p w g"
  using assms(1)
proof (induction p arbitrary: w g rule: step_induct)
  case (Yield q w' k)
  then show ?case using assms(2) by auto
next
  case (Await q w' k)
  then show ?case using assms(2) by auto
qed (use assms(2,3) in auto)

lemma okm_andThen:
  assumes "okm M G Q p w g" "\<And>a w' g'. Q a w' g' \<Longrightarrow> okm M H Q' (f a w') w' g'"
    and imp: "\<And>g x y. H g x y \<Longrightarrow> G g x y" and absorb: "\<And>g x y z. G g x y \<Longrightarrow> H g y z \<Longrightarrow> G g x z"
  shows "okm M G Q' (andThen p f) w g"
  using assms(1)
proof (induction p arbitrary: w g rule: step_induct)
  case (Done a w')
  then have G: "G g w w'" and H: "okm M H Q' (f a w') w' g" using assms(2) by auto
  have "okm M G Q' (f a w') w' g" by (rule okm_weaken [OF H imp])
  with G H show ?case by (cases "f a w'") (auto intro: absorb)
next
  case (Yield q w' k)
  then show ?case by auto
next
  case (Await q w' k)
  then show ?case by auto
qed auto

section \<open>Bodies that leave votes alone\<close>

text \<open>At a loop head: a candidate needs the quorum of the members, and has no votes as long as
  its vote timer can fire.\<close>

definition QPC :: "string set \<Rightarrow> pc \<Rightarrow> world \<Rightarrow> knowledge \<Rightarrow> bool" where
  "QPC M pos w g \<longleftrightarrow> (case pos of
     CandidateLoop l \<Rightarrow> c_votesNeeded l = quorumOf (card M) \<and> (c_voteTimerID l \<in> k_left g \<longrightarrow> c_grantedVotes l = 0)
   | _ \<Rightarrow> True)"

abbreviation okq :: "string set \<Rightarrow> pc body \<Rightarrow> world \<Rightarrow> knowledge \<Rightarrow> bool" where
  "okq M p w g \<equiv> okm M (GCalm M) (QPC M) p w g"

lemma GCalm_I:
  assumes "self w' = self w" "map Address (currentPeers w') = map Address (currentPeers w)"
    "spawned w' = spawned w" "nextCo w' = nextCo w" "voteLastTerm w' = voteLastTerm w"
    "voteLastCandidate w' = voteLastCandidate w" "answersIn (outputs w') = answersIn (outputs w)"
    "currentRole w' = roleLeader \<Longrightarrow> currentRole w = roleLeader"
  shows "GCalm M g w w'"
  using assms by (simp add: GCalm_def keepsNode_def sameVote_def)

lemma GCalm_refl [simp]: "GCalm M g w w"
  by (rule GCalm_I) auto

lemma spawnsFresh_all:
  assumes "\<And>a p t s. mk a = VoteChild p t s \<Longrightarrow> s = self n \<and> p = a"
  shows "spawnsFresh n (snd (spawnAll mk (otherPeers n) n))"
proof -
  have "s = self n \<and> p \<noteq> self n" if "VoteChild p t s \<in> set (map mk (otherPeers n))" for p t s
  proof -
    from that obtain a where "mk a = VoteChild p t s" "a \<noteq> self n" by (auto simp: otherPeers_def)
    with assms [of a p t s] show ?thesis by simp
  qed
  then show ?thesis
    unfolding spawnsFresh_def by (intro exI [of _ "map mk (otherPeers n)"]) (auto simp: spawnAll_eq)
qed

lemma fanouts_calm:
  "GCalm M g n (sendHeartBeats n)" "GCalm M g n (sendElectionResets n)"
  using spawnsFresh_all [of "\<lambda>p. HeartBeatChild p (currentTerm n) (self n) (currentMetadata n)" n]
    spawnsFresh_all [of ResetChild n]
  by (auto simp: GCalm_def keepsNode_def sameVote_def sendHeartBeats_def sendElectionResets_def spawnAll_eq)

lemma QPC_simps [simp]:
  "QPC M RunSwitch w g" "QPC M (FollowerLoop fl) w g" "QPC M (LeaderLoop ll) w g" "QPC M Returned w g"
  "QPC M (CandidateLoop l) w g \<longleftrightarrow> c_votesNeeded l = quorumOf (card M)
     \<and> (c_voteTimerID l \<in> k_left g \<longrightarrow> c_grantedVotes l = 0)"
  by (simp_all add: QPC_def)

lemma fits_quorum: "fits M w \<Longrightarrow> quorumSize w = quorumOf (card M)"
  unfolding fits_def quorumSize_eq by (metis distinct_card length_map list.set_map)

lemma updates_calm:
  "GCalm M g n (n\<lparr>rngPos := k\<rparr>)" "GCalm M g n (n\<lparr>electionsStarted := e\<rparr>)"
  "GCalm M g n (n\<lparr>electionsStarted := e, rngPos := k\<rparr>)"
  "GCalm M g n (n\<lparr>peersLastContact := pl\<rparr>)" "GCalm M g n (n\<lparr>peersLastContact := pl, rngPos := k\<rparr>)"
  "GCalm M g n (n\<lparr>lastContact := lc\<rparr>)" "GCalm M g n (callDone ev er n)" "GCalm M g n (setLeader ldr n)"
  "GCalm M g n (setLeader ldr (n\<lparr>lastContact := lc\<rparr>))"
  by (rule GCalm_I; simp)+

lemma leaving_calm:
  assumes "r \<noteq> roleLeader"
  shows "GCalm M g n (n\<lparr>currentRole := r\<rparr>)" "GCalm M g n (n\<lparr>currentRole := r, a_role := k\<rparr>)"
    "GCalm M g n ((setLeader ldr n)\<lparr>currentRole := r\<rparr>)"
    "GCalm M g n (setLeader ldr (n\<lparr>currentRole := r, a_role := k\<rparr>))"
    "GCalm M g n (n\<lparr>currentRole := r, currentTerm := t, a_term := t, a_role := k\<rparr>)"
  using assms by (auto intro!: GCalm_I)

lemma stepDown_calm:
  "GCalm M g n (sendElectionResets (setLeader [] (n\<lparr>currentRole := roleFollower, a_role := k\<rparr>)))"
  "GCalm M g n (sendElectionResets (n\<lparr>currentRole := roleShutdown, a_role := k\<rparr>))"
  by (rule GCalm_trans [OF _ fanouts_calm(2)], simp add: leaving_calm)+

lemma cancelBoth_calm: "okq M (cancelBoth t1 t2 n) n g"
  by (simp add: cancelBoth_def)

lemma enter_calm:
  "okq M (runFollower n) n g" "okq M (runCandidate n) n g" "okq M (runLeader n) n g"
  "okq M (leaderEpilogue n) n g"
  by (auto simp: runFollower_def runCandidate_def runLeader_def leaderEpilogue_def randomDuration_eq
      Let_def updates_calm fits_quorum)

lemma followerTimer_calm: "okq M (followerTimer l t n) n g"
  by (simp add: followerTimer_def Let_def leaving_calm)

lemma leaderTimer_calm: "okq M (leaderTimer l t n) n g"
  by (simp add: leaderTimer_def Let_def stepDownFromLeader_def stepDown_calm fanouts_calm)

lemma handlers_calm:
  "okm M (GCalm M) (\<lambda>_ _ g'. k_left g' = k_left g) (handleResign ev n) n g"
  "okm M (GCalm M) (\<lambda>_ _ g'. k_left g' = k_left g) (handleSetMetadata ev md n) n g"
proof -
  show "okm M (GCalm M) (\<lambda>_ _ g'. k_left g' = k_left g) (handleResign ev n) n g"
    using GCalm_trans [OF stepDown_calm(1) updates_calm(7)] by (simp add: handleResign_def updates_calm)
  show "okm M (GCalm M) (\<lambda>_ _ g'. k_left g' = k_left g) (handleSetMetadata ev md n) n g"
    by (auto simp: handleSetMetadata_def applySelfMetadata_def Let_def intro!: GCalm_I)
qed

section \<open>Answering\<close>

lemma GStretch_I:
  assumes "self w' = self w" "map Address (currentPeers w') = map Address (currentPeers w)"
    "spawned w' = spawned w" "nextCo w' = nextCo w"
    "currentRole w' = roleLeader \<Longrightarrow> currentRole w = roleLeader \<and> sameVote w w'"
    "\<And>cb rs. (cb, rs) \<in> answersIn (outputs w') \<Longrightarrow> (cb, rs) \<in> answersIn (outputs w) \<or> honest g w' cb rs"
  shows "GStretch M g w w'"
  using assms unfolding GStretch_def keepsNode_def leadsRightly_def by auto

text \<open>The two ways a vote request is answered: at once, or after the node has recorded its vote.\<close>

lemma respond_now:
  assumes "ev_Respond ev = Some cb" "self w = self n" "currentPeers w = currentPeers n" "spawned w = spawned n"
    "nextCo w = nextCo n" "outputs w = outputs n" "honest g w cb rs"
    "currentRole w = roleLeader \<Longrightarrow> currentRole n = roleLeader \<and> sameVote n w"
  shows "GStretch M g n (callRespond ev rs w)"
  using assms by (auto simp: honest_def answersIn_callRespond sameVote_def intro!: GStretch_I)

lemma respond_later:
  assumes "ev_Respond ev = Some cb" "k_calls g cb = Some rq" "rq_Request rq = VoteReq vq"
    "GStretch M g n w" "voteLastTerm w = vq_Term vq" "voteLastCandidate w = vq_Candidate vq" "vq_Candidate vq \<noteq> []"
  shows "okm M (GStretch M) (\<lambda>_ _ g'. k_left g' = k_left g)
    (Yield nowReq w (\<lambda>r n. respondVote ev rs (n\<lparr>lastContact := r_Time r\<rparr>))) n g"
proof -
  have "GStretch M g2 v (callRespond ev rs (v\<lparr>lastContact := t\<rparr>))"
    if "voteLastTerm v = vq_Term vq" "voteLastCandidate v = vq_Candidate vq" "k_calls g2 = k_calls g" for v g2 rs t
    using that assms(2,3,7)
    by (auto simp: sameVote_def honest_def answersIn_callRespond assms(1) intro!: GStretch_I)
  with assms show ?thesis
    by (auto simp: respondVote_def meanwhile_def GKid_def mayAnswer_def req_of_def)
qed

lemma handleVote_ok:
  assumes "fits M n" "ev_Respond ev = Some cb" "k_calls g cb = Some (ev_RPCReq ev)"
    "rq_Request (ev_RPCReq ev) = VoteReq rq" "vq_Candidate rq \<noteq> self n" "vq_Candidate rq \<noteq> []"
  shows "okm M (GStretch M) (\<lambda>_ _ g'. k_left g' = k_left g) (handleVote ev rq n) n g"
proof -
  let ?refuse = "vq_Term rq < currentTerm n \<or> currentLeader n \<noteq> [] \<and> currentLeader n \<noteq> vq_Candidate rq"
  let ?n = "if currentTerm n < vq_Term rq then n\<lparr>currentRole := roleFollower, a_role := role_code roleFollower,
    currentTerm := vq_Term rq, a_term := vq_Term rq\<rparr> else n"
  have n: "self ?n = self n" "currentPeers ?n = currentPeers n" "spawned ?n = spawned n" "nextCo ?n = nextCo n"
      "outputs ?n = outputs n" "voteLastTerm ?n = voteLastTerm n" "voteLastCandidate ?n = voteLastCandidate n" by simp_all
  have l: "currentRole ?n \<noteq> roleLeader" if "\<not> ?refuse" using that assms(1,5) by (auto simp: fits_def node_ok_defs)
  consider (refuse) "?refuse" | (voted) "\<not> ?refuse" "voteLastTerm n = vq_Term rq" "voteLastCandidate n \<noteq> []"
    | (fresh) "\<not> ?refuse" "\<not> (voteLastTerm n = vq_Term rq \<and> voteLastCandidate n \<noteq> [])" by blast
  then show ?thesis
  proof cases
    case refuse
    then show ?thesis
      using assms(3)
      by (auto simp: handleVote_def respondVote_def Let_def honest_def sameVote_def intro!: respond_now [OF assms(2)])
  next
    case voted
    have "GStretch M g n (callRespond ev \<lparr>rp_RPC = VoteRPC, rp_Response = VoteResp rs, rp_Error = []\<rparr> ?n)"
      if "vp_Granted rs \<longrightarrow> voteLastCandidate n = vq_Candidate rq" for rs
      by (rule respond_now [OF assms(2)]) (use n l [OF voted(1)] that assms(3,4,6) voted in \<open>simp_all add: honest_def\<close>)
    with voted show ?thesis by (auto simp: handleVote_def respondVote_def Let_def split: if_splits)
  next
    case fresh
    have "GStretch M g n (?n\<lparr>voteLastTerm := vq_Term rq, voteLastCandidate := vq_Candidate rq\<rparr>)"
      by (rule GStretch_I) (use n l [OF fresh(1)] in simp_all)
    note respond_later [OF assms(2-4) this _ _ assms(6)]
    with fresh show ?thesis by (auto simp: handleVote_def Let_def simp del: okm.simps split: if_splits)
  qed
qed

lemma rpcs_ok:
  assumes "ev_Respond ev = Some cb" "k_calls g cb = Some rq"
  shows "okm M (GStretch M) (\<lambda>_ _ g'. k_left g' = k_left g) (handleHeartBeat ev hb n) n g"
    "okm M (GStretch M) (\<lambda>_ _ g'. k_left g' = k_left g) (handleResetElection ev n) n g"
  by (auto simp: handleHeartBeat_def handleResetElection_def Let_def sameVote_def honest_def answersIn_callRespond assms meanwhile_def
      mayAnswer_def req_of_def intro!: GStretch_I)

lemma processRPC_ok:
  assumes "fits M n" "mayAnswer (self n) recvReq r g g'" "ev_Kind (r_Event r) = EventRPC"
  shows "okm M (GStretch M) (\<lambda>_ _ g2. k_left g2 = k_left g) (processRPC (r_Event r) n) n g'"
proof -
  from assms(2,3) obtain cb ch where c: "ev_Respond (r_Event r) = Some cb"
      "ev_RPCReq (r_Event r) = snd (childCall ch)" "\<forall>p t s. ch = VoteChild p t s \<longrightarrow> s \<noteq> self n \<and> s \<noteq> []"
      "g' = g\<lparr>k_calls := (k_calls g)(cb \<mapsto> snd (childCall ch))\<rparr>"
    by (auto simp: mayAnswer_def req_of_def)
  then show ?thesis
    using handleVote_ok [OF assms(1) c(1), of g'] rpcs_ok [OF c(1), of g']
    by (cases ch) (auto simp: processRPC_def)
qed

section \<open>Elections\<close>

lemma finite_votersFor: "finite M \<Longrightarrow> finite (votersFor M g w)"
  by (simp add: votersFor_def votersOf_def)

text \<open>Each awaited coroutine is that of another member, so every granted vote is one more ballot.\<close>

definition awaited :: "string set \<Rightarrow> nat list \<Rightarrow> string list \<Rightarrow> world \<Rightarrow> knowledge \<Rightarrow> bool" where
  "awaited M ps qs w g \<longleftrightarrow> length ps = length qs \<and> distinct qs \<and> set qs \<subseteq> M
     \<and> (\<forall>(i, q)\<in>set (zip ps qs). k_kids g i = Some (VoteChild q (voteLastTerm w) (self w))
          \<or> (i, VoteChild q (voteLastTerm w) (self w)) \<in> set (spawned w))"

definition counted :: "string set \<Rightarrow> string list \<Rightarrow> voteResult list \<Rightarrow> world \<Rightarrow> knowledge \<Rightarrow> bool" where
  "counted M qs rs w g \<longleftrightarrow> voteLastCandidate w = self w
     \<and> length (filter granted rs) \<le> card (votersFor M g w - set qs)"

lemma meanwhile_awaited: "awaited M ps qs w g \<Longrightarrow> meanwhile w g w1 g1 \<Longrightarrow> awaited M ps qs w1 g1"
  by (fastforce simp: awaited_def meanwhile_def GKid_def GAll_def map_le_def dom_def)

lemma meanwhile_voters: "meanwhile w g w1 g1 \<Longrightarrow> votersFor M g w \<subseteq> votersFor M g1 w1"
  by (auto simp: votersFor_def votersOf_def meanwhile_def GKid_def GAll_def)

lemma counted_next:
  assumes "finite M" "awaited M (p # ps) (q # qs) w1 g1" "counted M (q # qs) rs w g" "meanwhile w g w1 g1"
    "mayVote p v g1" "spawned w1 = []"
  shows "counted M qs (rs @ [\<lparr>granted = vp_Granted v, vterm = vp_Term v\<rparr>]) w1 g1"
proof -
  let ?old = "votersFor M g w - set (q # qs)" and ?new = "votersFor M g1 w1 - set qs"
  have fin: "finite ?new" using assms(1) by (simp add: finite_votersFor)
  have sub: "?old \<subseteq> ?new" using meanwhile_voters [OF assms(4)] by auto
  have "voteLastCandidate w1 = self w1" using assms(3,4) by (simp add: counted_def meanwhile_def GKid_def GAll_def)
  moreover have "length (filter granted rs) + (if vp_Granted v then 1 else 0) \<le> card ?new"
  proof (cases "vp_Granted v")
    case True
    with assms(2,5,6) have "(q, voteLastTerm w1, self w1) \<in> k_ballots g1" by (auto simp: awaited_def mayVote_def)
    with assms(2) have "insert q ?old \<subseteq> ?new"
      using sub by (auto simp: awaited_def votersFor_def votersOf_def)
    from card_mono [OF fin this] have "Suc (card ?old) \<le> card ?new"
      using finite_subset [OF sub fin] by simp
    with assms(3) True show ?thesis by (simp add: counted_def)
  next
    case False
    with assms(3) card_mono [OF fin sub] show ?thesis by (simp add: counted_def)
  qed
  ultimately show ?thesis by (auto simp: counted_def)
qed

lemma awaitVotes_ok:
  assumes "finite M" "awaited M ps qs w g" "counted M qs rs w g"
  shows "okm M (GCalm M) (\<lambda>rs' w' g'. counted M [] rs' w' g' \<and> k_left g' = k_left g \<and> currentRole w' = currentRole w)
    (awaitVotes ps rs w) w g"
  using assms(2,3)
proof (induction ps arbitrary: qs rs w g)
  case Nil
  then show ?case by (simp add: awaited_def)
next
  case (Cons p ps)
  then obtain q qs' where qs: "qs = q # qs'" by (cases qs) (auto simp: awaited_def)
  have "okm M (GCalm M) (\<lambda>rs' w' g'. counted M [] rs' w' g' \<and> k_left g' = k_left g \<and> currentRole w' = currentRole w)
      (awaitVotes ps (rs @ [\<lparr>granted = vp_Granted v, vterm = vp_Term v\<rparr>]) w1) w1 g1"
    if m: "meanwhile w g w1 g1" "fits M w1" "mayVote p v g1" for v w1 g1
  proof -
    have a: "awaited M (p # ps) (q # qs') w1 g1" using meanwhile_awaited [OF Cons.prems(1) m(1)] qs by simp
    then have "awaited M ps qs' w1 g1" by (auto simp: awaited_def)
    moreover have "counted M qs' (rs @ [\<lparr>granted = vp_Granted v, vterm = vp_Term v\<rparr>]) w1 g1"
      using counted_next [OF assms(1) a _ m(1,3)] Cons.prems(2) m(2) by (simp add: qs fits_def)
    moreover have "k_left g1 = k_left g" "currentRole w1 = currentRole w"
      using m(1) by (simp_all add: meanwhile_def GKid_def)
    ultimately show ?thesis using Cons.IH [of qs' w1 g1] by simp
  qed
  then show ?case by simp
qed

lemma electSelf_ok:
  assumes "fits M n" "finite M" "currentRole n = roleCandidate"
  shows "okm M (GElect M) (\<lambda>rs w g'. counted M [] rs w g' \<and> k_left g' = k_left g \<and> currentRole w = roleCandidate)
    (electSelf n) n g"
proof -
  let ?t = "currentTerm n + 1"
  let ?n = "n\<lparr>currentTerm := ?t, a_term := ?t, voteLastCandidate := self n, voteLastTerm := ?t\<rparr>"
  let ?m = "snd (spawnAll (\<lambda>p. VoteChild p ?t (self n)) (otherPeers ?n) ?n)"
  let ?ps = "[nextCo n ..< nextCo n + length (otherPeers ?n)]"
  have "spawnsFresh ?n ?m" by (rule spawnsFresh_all) simp
  then have "GElect M g n ?m"
    using assms(3) by (auto simp: GElect_def keepsNode_def leadsRightly_def spawnAll_eq spawnsFresh_def)
  then have m: "okm M (GElect M) (\<lambda>_ w g'. w = ?m \<and> g' = g) (Done () ?m) n g" by simp
  have "awaited M ?ps (otherPeers ?n) ?m g"
    using assms(1) unfolding awaited_def
    by (auto simp: spawnAll_eq otherPeers_def fits_def zip_map2)
  moreover have "counted M (otherPeers ?n) [\<lparr>granted = True, vterm = ?t\<rparr>] ?m g"
  proof -
    have "{self n} \<subseteq> votersFor M g ?m - set (otherPeers ?n)"
      using assms(1) by (auto simp: votersFor_def votersOf_def ownBallot_def fits_def otherPeers_def spawnAll_eq)
    from card_mono [OF _ this] show ?thesis
      using assms(2) by (simp add: counted_def finite_votersFor spawnAll_eq)
  qed
  ultimately have "okm M (GCalm M) (\<lambda>rs w g'. counted M [] rs w g' \<and> k_left g' = k_left g \<and> currentRole w = roleCandidate)
      (awaitVotes ?ps [\<lparr>granted = True, vterm = ?t\<rparr>] ?m) ?m g"
    using awaitVotes_ok [OF assms(2), of ?ps "otherPeers ?n" ?m g] assms(3) by (simp add: spawnAll_eq)
  then have "okm M (GElect M) (\<lambda>rs w g'. counted M [] rs w g' \<and> k_left g' = k_left g \<and> currentRole w = roleCandidate)
      (andThen (Done () ?m) (\<lambda>_ w. awaitVotes ?ps [\<lparr>granted = True, vterm = ?t\<rparr>] w)) n g"
    by (intro okm_andThen [OF m, where H = "GCalm M"]) (auto intro: GCalm_GElect GElect_trans)
  then show ?thesis by (simp add: electSelf_def Let_def spawnAll_eq)
qed

lemma processVotes_ok:
  assumes "currentRole n = roleCandidate" "voteLastCandidate n = self n" "c_votesNeeded l = quorumOf (card M)"
    "c_grantedVotes l + int (length (filter granted vs)) \<le> int (card (votersFor M g n))"
    "c_voteTimerID l \<notin> k_left g"
  shows "okm M (GElect M) (QPC M) (processVotes l vs n) n g"
  using assms
proof (induction l vs n rule: processVotes.induct)
  case (1 l n)
  then show ?case by (simp add: GCalm_GElect)
next
  case (2 l v vs n)
  let ?l = "if granted v then l\<lparr>c_grantedVotes := c_grantedVotes l + 1\<rparr> else l"
  let ?n = "setLeader (self n) (n\<lparr>currentRole := roleLeader, a_role := role_code roleLeader, electionsWon := electionsWon n + 1\<rparr>)"
  have win: "GElect M g n ?n" if "c_votesNeeded ?l \<le> c_grantedVotes ?l"
    using that 2(2-6)
    by (auto simp: GElect_def keepsNode_def leadsRightly_def elected_def votersFor_def ownBallot_def split: if_splits)
  have lose: "GElect M g n (n\<lparr>currentRole := roleFollower, currentTerm := t, a_term := t, a_role := 0\<rparr>)" for t
    by (rule GCalm_GElect) (rule leaving_calm, simp)
  consider (newer) "currentTerm n < vterm v" | (won) "\<not> currentTerm n < vterm v" "c_votesNeeded ?l \<le> c_grantedVotes ?l"
    | (more) "\<not> currentTerm n < vterm v" "\<not> c_votesNeeded ?l \<le> c_grantedVotes ?l" by blast
  then show ?case
  proof cases
    case more
    with 2 show ?thesis by (auto simp: Let_def)
  qed (use win lose in \<open>auto simp: Let_def GCalm_GElect\<close>)
qed

lemma candidateTimer_ok:
  assumes "fits M n" "finite M" "currentRole n = roleCandidate" "QPC M (CandidateLoop l) n g"
    "t \<notin> k_left g" "t = c_voteTimerID l \<Longrightarrow> c_grantedVotes l = 0"
  shows "okm M (GElect M) (QPC M) (candidateTimer l t n) n g"
proof -
  have "okm M (GElect M) (QPC M) (andThen (electSelf n) (\<lambda>vs n. processVotes l vs n)) n g" if "t = c_voteTimerID l"
    using assms(4-6) that
    by (intro okm_andThen [OF electSelf_ok [OF assms(1-3)], where H = "GElect M"])
      (auto simp: counted_def intro!: processVotes_ok intro: GElect_trans)
  with assms(4,6) show ?thesis by (auto simp: candidateTimer_def GCalm_GElect)
qed

section \<open>The main coroutine\<close>

lemma recv_cases:
  assumes "mayAnswer b recvReq r g g'"
  obtains (timer) "ev_Kind (r_Event r) = EventTimer" "ev_TimerID (r_Event r) \<in> k_left g"
      "g' = g\<lparr>k_left := k_left g - {ev_TimerID (r_Event r)}\<rparr>"
    | (rpc) "ev_Kind (r_Event r) = EventRPC" "k_left g' = k_left g"
    | (metadata) "ev_Kind (r_Event r) = EventSetMetadata" "g' = g"
    | (resign) "ev_Kind (r_Event r) = EventResign" "g' = g"
    | (shutdown) "ev_Kind (r_Event r) = EventShutdown" "g' = g"
  using assms by (cases "ev_Kind (r_Event r)") (auto simp: mayAnswer_def req_of_def)

lemma calm_stretch: "okm M (GCalm M) Q p w g \<Longrightarrow> okm M (GStretch M) Q p w g"
  by (erule okm_weaken) (auto intro: GCalm_GElect GElect_GStretch)

lemma elect_stretch: "okm M (GElect M) Q p w g \<Longrightarrow> okm M (GStretch M) Q p w g"
  by (erule okm_weaken) (auto intro: GElect_GStretch)

lemmas enter_ok = enter_calm [THEN calm_stretch]

text \<open>A handler, and what the loop of a role does after it.\<close>

lemma stretch_then:
  assumes "okm M (GStretch M) (\<lambda>_ _ g'. k_left g' = k_left g) p w g0"
    and "\<And>w' g'. k_left g' = k_left g \<Longrightarrow> okq M (f () w') w' g'"
  shows "okm M (GStretch M) (QPC M) (andThen p f) w g0"
  by (rule okm_andThen [OF assms(1), where H = "GCalm M"])
    (auto intro: assms(2) GCalm_GElect GElect_GStretch GStretch_absorb)

lemmas calm_defs = GCalm_GElect GElect_GStretch updates_calm leaving_calm stepDown_calm fanouts_calm cancelBoth_calm

lemma followerEvent_ok:
  assumes "fits M n" "mayAnswer (self n) recvReq r g g'"
  shows "okm M (GStretch M) (QPC M) (followerEvent l (r_Event r) n) n g'"
  using assms(2)
proof (cases rule: recv_cases)
  case timer
  then show ?thesis by (simp add: followerEvent_def followerTimer_calm calm_stretch)
next
  case rpc
  then show ?thesis
    by (simp add: followerEvent_def) (rule stretch_then [OF processRPC_ok [OF assms]], simp_all)
next
  case metadata
  then show ?thesis
    by (simp add: followerEvent_def) (rule stretch_then [OF calm_stretch [OF handlers_calm(2)]], simp)
qed (simp_all add: followerEvent_def calm_defs)

lemma leaderEvent_ok:
  assumes "fits M n" "mayAnswer (self n) recvReq r g g'"
  shows "okm M (GStretch M) (QPC M) (leaderEvent l (r_Event r) n) n g'"
  using assms(2)
proof (cases rule: recv_cases)
  case timer
  then show ?thesis by (simp add: leaderEvent_def leaderTimer_calm calm_stretch)
next
  case rpc
  then show ?thesis
    by (simp add: leaderEvent_def) (rule stretch_then [OF processRPC_ok [OF assms]], simp_all add: calm_defs)
next
  case metadata
  then show ?thesis
    by (simp add: leaderEvent_def) (rule stretch_then [OF calm_stretch [OF handlers_calm(2)]], simp add: calm_defs)
next
  case resign
  then show ?thesis
    by (simp add: leaderEvent_def) (rule stretch_then [OF calm_stretch [OF handlers_calm(1)]], simp add: calm_defs)
qed (simp_all add: leaderEvent_def cancelBoth_def calm_defs)

lemma candidateEvent_ok:
  assumes "fits M n" "mayAnswer (self n) recvReq r g g'" "finite M" "currentRole n = roleCandidate"
    "QPC M (CandidateLoop l) n g"
  shows "okm M (GStretch M) (QPC M) (candidateEvent l (r_Event r) n) n g'"
  using assms(2)
proof (cases rule: recv_cases)
  case timer
  with assms(5) show ?thesis
    by (simp add: candidateEvent_def) (rule elect_stretch, rule candidateTimer_ok, use assms in auto)
next
  case rpc
  with assms(5) show ?thesis
    by (simp add: candidateEvent_def)
      (rule stretch_then [OF processRPC_ok [OF assms(1,2)]], auto simp: calm_defs)
next
  case metadata
  with assms(5) show ?thesis
    by (simp add: candidateEvent_def) (rule stretch_then [OF calm_stretch [OF handlers_calm(2)]], auto)
qed (use assms(5) in \<open>simp_all add: candidateEvent_def cancelBoth_def calm_defs\<close>)

lemmas events_ok = followerEvent_ok leaderEvent_ok candidateEvent_ok

lemma main_seg_ok:
  assumes "fits M n" "finite M" "QPC M pos n g"
  shows "okm M (GStretch M) (QPC M) (main_seg pos n) n g"
proof -
  have calm: "GStretch M g n n" by (simp add: GCalm_GElect GElect_GStretch)
  show ?thesis
  proof (cases pos)
    case (CandidateLoop l)
    have "QPC M (CandidateLoop l) w g1" if "meanwhile n g w g1" for w g1
      using that assms(3) CandidateLoop by (simp add: meanwhile_def)
    with CandidateLoop assms calm show ?thesis
      by (auto simp: meanwhile_def GKid_def intro!: events_ok(3))
  qed (use assms calm in \<open>auto intro!: events_ok enter_ok split: nrole.split\<close>)
qed

end
