(* ===== verification/Handler_Specs.thy ===== *)
theory Handler_Specs
  imports Node_Contracts Samples
begin

text \<open>
  What the handlers and the election loop compute, branch by branch. \<open>run_with io votes\<close>
  runs a body to its end when no other coroutine interferes: \<open>io\<close> answers the yielded
  requests and \<open>votes\<close> the awaited promises. It is \<open>None\<close> if the body panics.
\<close>

primrec run_with :: "(req \<Rightarrow> resp) \<Rightarrow> (nat \<Rightarrow> voteResp) \<Rightarrow> ('a, 'w) step \<Rightarrow> ('a \<times> 'w) option" where
  "run_with io votes (Done a w) = Some (a, w)"
| "run_with io votes (Panic w) = None"
| "run_with io votes (Yield q w k) = run_with io votes (k (io q) w)"
| "run_with io votes (Await p w k) = run_with io votes (k (votes p) w)"

lemma run_with_andThen:
  "run_with io votes (andThen p f) =
    (case run_with io votes p of None \<Rightarrow> None | Some (a, w) \<Rightarrow> run_with io votes (f a w))"
  by (induction p rule: step_induct) auto

section \<open>Votes\<close>

text \<open>The condition under which a node grants a vote.\<close>

definition grants :: "voteReq \<Rightarrow> 'a node_scheme \<Rightarrow> bool" where
  "grants rq n \<longleftrightarrow>
     (currentLeader n = [] \<or> currentLeader n = vq_Candidate rq) \<and>
     currentTerm n \<le> vq_Term rq \<and>
     (voteLastTerm n = vq_Term rq \<longrightarrow> voteLastCandidate n = [] \<or> voteLastCandidate n = vq_Candidate rq)"

text \<open>The request gets past the leader check and the check for older terms.\<close>

definition admissible :: "voteReq \<Rightarrow> 'a node_scheme \<Rightarrow> bool" where
  "admissible rq n \<longleftrightarrow> (currentLeader n = [] \<or> currentLeader n = vq_Candidate rq)
     \<and> currentTerm n \<le> vq_Term rq"

text \<open>C4. The vote decision. A vote request is answered exactly once. It is granted if and
  only if no other leader is known, its term is not older than the node's, and the node has
  not voted for another candidate in that term; a grant carries the requested term and
  leaves the node with exactly this vote on record. A request that is not granted leaves
  the vote record alone, and one that meets a known leader or comes with an older term
  changes nothing but the answer it gets.\<close>

theorem handleVote_decision:
  assumes "ev_Respond ev = Some cb"
  shows "\<exists>n'. run_with io votes (handleVote ev rq n) = Some ((), n')
    \<and> outputs n' = outputs n @ [Responded cb \<lparr>rp_RPC = VoteRPC, rp_Response =
        VoteResp \<lparr>vp_Term = (if admissible rq n then vq_Term rq else currentTerm n),
                  vp_Granted = grants rq n\<rparr>, rp_Error = []\<rparr>]
    \<and> currentTerm n' = (if admissible rq n then vq_Term rq else currentTerm n)
    \<and> (grants rq n \<longrightarrow> voteLastTerm n' = vq_Term rq \<and> voteLastCandidate n' = vq_Candidate rq)
    \<and> (\<not> grants rq n \<longrightarrow>
         voteLastTerm n' = voteLastTerm n \<and> voteLastCandidate n' = voteLastCandidate n)
    \<and> (\<not> admissible rq n \<longrightarrow> n'\<lparr>outputs := outputs n\<rparr> = n)"
  using assms
  by (auto simp: handleVote_def respondVote_def callRespond_def grants_def admissible_def Let_def)

theorem handleVote_decision_witness:
  "\<exists>n'. run_with (\<lambda>_. nowIs 9) noVotes
      (handleVote (rpcEvent VoteRPC OtherReq (Some 7)) \<lparr>vq_Term = 3, vq_Candidate = ''b''\<rparr> sampleWorld)
      = Some ((), n')
    \<and> outputs n' = [Responded 7 \<lparr>rp_RPC = VoteRPC, rp_Response =
        VoteResp \<lparr>vp_Term = 3, vp_Granted = True\<rparr>, rp_Error = []\<rparr>]
    \<and> voteLastTerm n' = 3 \<and> voteLastCandidate n' = ''b''"
proof -
  have "ev_Respond (rpcEvent VoteRPC OtherReq (Some 7)) = Some 7" by (simp add: rpcEvent_def)
  moreover have "grants \<lparr>vq_Term = 3, vq_Candidate = ''b''\<rparr> sampleWorld"
    "admissible \<lparr>vq_Term = 3, vq_Candidate = ''b''\<rparr> sampleWorld" "outputs sampleWorld = []"
    by code_simp+
  ultimately show ?thesis
    using handleVote_decision [of "rpcEvent VoteRPC OtherReq (Some 7)" 7 "\<lambda>_. nowIs 9" noVotes
        "\<lparr>vq_Term = 3, vq_Candidate = ''b''\<rparr>" sampleWorld] by auto
qed

section \<open>Answers\<close>

text \<open>How often an event is answered: the calls of its callback among the new outputs.\<close>

definition answers :: "callback \<Rightarrow> effect list \<Rightarrow> nat" where
  "answers cb es = length (filter (\<lambda>e. case e of Responded cb' r \<Rightarrow> cb' = cb | _ \<Rightarrow> False) es)"

lemma answers_append [simp]: "answers cb (xs @ ys) = answers cb xs + answers cb ys"
  by (simp add: answers_def)

lemma answers_Nil [simp]: "answers cb [] = 0"
  by (simp add: answers_def)

lemma answers_fireOnChange [simp]: "answers cb (outputs (fireOnChange n)) = answers cb (outputs n)"
  by (simp add: fireOnChange_def) (simp add: answers_def)

lemma answers_setLeader [simp]: "answers cb (outputs (setLeader ldr n)) = answers cb (outputs n)"
  by (simp add: setLeader_def)

lemma answers_updatePeerMetadata [simp]:
  "answers cb (outputs (updatePeerMetadata ad md n)) = answers cb (outputs n)"
  by (simp add: updatePeerMetadata_def Let_def split: option.split)

lemma answers_callDone [simp]: "answers cb (outputs (callDone ev er n)) = answers cb (outputs n)"
  by (simp add: callDone_def split: option.split) (simp add: answers_def)

lemma answers_callRespond:
  "ev_Respond ev = Some cb \<Longrightarrow>
    answers cb (outputs (callRespond ev rs n)) = Suc (answers cb (outputs n))"
  by (simp add: callRespond_def) (simp add: answers_def)

definition peerRPC :: "request \<Rightarrow> bool" where
  "peerRPC r \<longleftrightarrow> (case r of ResignReq \<Rightarrow> False | SetPeersReq _ \<Rightarrow> False | SetMetadataReq _ \<Rightarrow> False | _ \<Rightarrow> True)"

text \<open>C11. Every RPC event that carries a vote, heartbeat or reset request, or a request of an
  unknown type, is answered exactly once on every path; the requests that have their own
  events (resign, set peers, set metadata) are processed but never answered through the
  response callback.\<close>

theorem processRPC_answers:
  assumes "ev_Respond ev = Some cb"
  shows "\<exists>n'. run_with io votes (processRPC ev n) = Some ((), n')
    \<and> answers cb (outputs n') =
        answers cb (outputs n) + (if peerRPC (rq_Request (ev_RPCReq ev)) then 1 else 0)"
proof -
  note a = answers_callRespond [OF assms]
  show ?thesis
    by (cases "rq_Request (ev_RPCReq ev)")
      (auto simp: processRPC_def peerRPC_def a handleVote_def respondVote_def handleHeartBeat_def
        handleResetElection_def handleResign_def handleSetPeers_def handleSetMetadata_def
        sendElectionResets_eq Let_def)
qed

theorem processRPC_answers_witness:
  "\<exists>n'. run_with (\<lambda>_. nowIs 9) noVotes
      (processRPC (rpcEvent ResetElectionRPC ResetElectionReq (Some 4)) sampleWorld) = Some ((), n')
    \<and> answers 4 (outputs n') = 1"
proof -
  have "ev_Respond (rpcEvent ResetElectionRPC ResetElectionReq (Some 4)) = Some 4"
    by (simp add: rpcEvent_def)
  moreover have "outputs sampleWorld = []" by code_simp
  ultimately show ?thesis
    using processRPC_answers [of "rpcEvent ResetElectionRPC ResetElectionReq (Some 4)" 4
        "\<lambda>_. nowIs 9" noVotes sampleWorld]
    by (simp add: peerRPC_def rpcEvent_def)
qed

section \<open>Heartbeats\<close>

text \<open>C12. A heartbeat makes any node a follower of its sender, whatever the terms: the term
  becomes the larger of the two, the contact time is refreshed, the vote record is kept,
  the sender's metadata is taken over, and the answer carries the node's old term if it
  was a follower and the sender's term otherwise.\<close>

theorem handleHeartBeat_effect:
  assumes "ev_Respond ev = Some cb"
  shows "\<exists>n' xs. run_with io votes (handleHeartBeat ev rq n) = Some ((), n')
    \<and> outputs n' = outputs n @ xs @ [Responded cb \<lparr>rp_RPC = HeartBeatRPC, rp_Response =
        HeartBeatResp \<lparr>hp_Term = (if currentRole n = roleFollower then currentTerm n else hq_Term rq),
          hp_Metadata = currentMetadata n\<rparr>, rp_Error = []\<rparr>]
    \<and> currentRole n' = roleFollower \<and> currentLeader n' = hq_Leader rq
    \<and> currentTerm n' = max (currentTerm n) (hq_Term rq)
    \<and> lastContact n' = r_Time (io nowReq)
    \<and> heartbeatsRecv n' = heartbeatsRecv n + 1
    \<and> voteLastTerm n' = voteLastTerm n \<and> voteLastCandidate n' = voteLastCandidate n
    \<and> map Address (currentPeers n') = map Address (currentPeers n)
    \<and> (\<forall>p. find (\<lambda>p. Address p = hq_Leader rq) (currentPeers n') = Some p
          \<longrightarrow> bytes_Equal (Metadata p) (hq_Metadata rq))"
proof -
  have md: "bytes_Equal (Metadata p) md"
    if "find (\<lambda>p. Address p = a) (currentPeers (updatePeerMetadata a md w)) = Some p" for a md w p
    using that
    by (auto simp: updatePeerMetadata_def Let_def setPeerMetadata_def find_map_first
        split: option.splits if_splits)
  have out: "\<exists>xs. outputs (updatePeerMetadata a md w) = outputs n @ xs"
    if "prefix (outputs n) (outputs w)" for a md w
    using that prefix_outputs(3) [of "outputs n" w a md] by (auto simp: prefix_def)
  show ?thesis
    by (auto simp: handleHeartBeat_def Let_def callRespond_def assms max_def md intro!: out)
qed

theorem handleHeartBeat_effect_witness:
  "\<exists>n' xs. run_with (\<lambda>_. nowIs 9) noVotes
      (handleHeartBeat (rpcEvent HeartBeatRPC OtherReq (Some 4))
         \<lparr>hq_Term = 5, hq_Leader = ''b'', hq_Metadata = Some [1]\<rparr> sampleWorld) = Some ((), n')
    \<and> currentRole n' = roleFollower \<and> currentLeader n' = ''b'' \<and> currentTerm n' = 5"
proof -
  have "ev_Respond (rpcEvent HeartBeatRPC OtherReq (Some 4)) = Some 4" by (simp add: rpcEvent_def)
  moreover have "currentTerm sampleWorld = 0" by code_simp
  ultimately show ?thesis
    using handleHeartBeat_effect [of "rpcEvent HeartBeatRPC OtherReq (Some 4)" 4 "\<lambda>_. nowIs 9"
        noVotes "\<lparr>hq_Term = 5, hq_Leader = ''b'', hq_Metadata = Some [1]\<rparr>" sampleWorld]
    by auto
qed

end
