(* ===== verification/Election_Specs.thy ===== *)
theory Election_Specs
  imports Handler_Specs
begin

text \<open>
  What an election and the leader's periodic check compute: \<open>electSelf\<close> against the list
  of requests it must send, the vote loop against a declarative tally, the quorum check
  against a count of recently heard peers, and the effect of a shutdown in each role.
\<close>

section \<open>Starting an election\<close>

lemma run_awaitVotes:
  "run_with io votes (awaitVotes ps rs n) =
    Some (rs @ map (\<lambda>p. \<lparr>granted = vp_Granted (votes p), vterm = vp_Term (votes p)\<rparr>) ps, n)"
  by (induction ps arbitrary: rs) auto

text \<open>C13. An election raises the term by one (modulo \<open>2^64\<close>), records the vote for
  itself, spawns exactly one vote request per other peer, in peer order, with the new term
  and its own name, and returns its own vote followed by one result per request.\<close>

theorem electSelf_effect:
  "let t = currentTerm n + 1; k = length (otherPeers n); ids = [nextCo n ..< nextCo n + k] in
   run_with io votes (electSelf n) =
     Some (\<lparr>granted = True, vterm = t\<rparr>
             # map (\<lambda>p. \<lparr>granted = vp_Granted (votes p), vterm = vp_Term (votes p)\<rparr>) ids,
           n\<lparr>currentTerm := t, a_term := t, voteLastCandidate := self n, voteLastTerm := t,
             spawned := spawned n @ zip ids (map (\<lambda>p. VoteChild p t (self n)) (otherPeers n)),
             nextCo := nextCo n + k\<rparr>)"
  by (simp add: electSelf_def spawnAll_eq run_awaitVotes otherPeers_def Let_def)

section \<open>Counting votes\<close>

definition tally :: "voteResult list \<Rightarrow> int" where
  "tally vs = int (length (filter granted vs))"

lemma tally_simps [simp]:
  "tally [] = 0"
  "tally (v # vs) = (if granted v then 1 else 0) + tally vs"
  by (simp_all add: tally_def)

text \<open>The votes are won if some initial part of the results has no newer term and enough
  grants.\<close>

definition wins :: "int \<Rightarrow> int \<Rightarrow> u64 \<Rightarrow> voteResult list \<Rightarrow> bool" where
  "wins have need cur vs \<longleftrightarrow>
    (\<exists>k \<le> length vs. (\<forall>v \<in> set (take k vs). vterm v \<le> cur) \<and> need \<le> have + tally (take k vs))"

lemma wins_Nil: "have < need \<Longrightarrow> \<not> wins have need cur []"
  by (simp add: wins_def)

lemma wins_Cons:
  assumes "have < need"
  shows "wins have need cur (v # vs) \<longleftrightarrow> vterm v \<le> cur \<and>
    (need \<le> have + (if granted v then 1 else 0)
     \<or> wins (have + (if granted v then 1 else 0)) need cur vs)"
proof
  assume "wins have need cur (v # vs)"
  then obtain k where k: "k \<le> length (v # vs)" "\<forall>u \<in> set (take k (v # vs)). vterm u \<le> cur"
      "need \<le> have + tally (take k (v # vs))"
    by (auto simp: wins_def)
  with assms obtain j where "k = Suc j" by (cases k) auto
  with k show "vterm v \<le> cur \<and> (need \<le> have + (if granted v then 1 else 0)
     \<or> wins (have + (if granted v then 1 else 0)) need cur vs)"
    by (auto simp: wins_def intro!: exI [of _ j])
next
  assume r: "vterm v \<le> cur \<and> (need \<le> have + (if granted v then 1 else 0)
     \<or> wins (have + (if granted v then 1 else 0)) need cur vs)"
  then consider "need \<le> have + (if granted v then 1 else 0)"
    | k where "k \<le> length vs" "\<forall>u \<in> set (take k vs). vterm u \<le> cur"
        "need \<le> have + (if granted v then 1 else 0) + tally (take k vs)"
    by (auto simp: wins_def)
  then show "wins have need cur (v # vs)"
  proof cases
    case 1
    with r show ?thesis by (auto simp: wins_def intro!: exI [of _ 1])
  next
    case (2 k)
    with r show ?thesis by (auto simp: wins_def intro!: exI [of _ "Suc k"])
  qed
qed

definition afterWin :: "world \<Rightarrow> world" where
  "afterWin n = setLeader (self n)
     (n\<lparr>currentRole := roleLeader, a_role := 2, electionsWon := electionsWon n + 1\<rparr>)"

definition afterNewerTerm :: "u64 \<Rightarrow> world \<Rightarrow> world" where
  "afterNewerTerm t n =
     n\<lparr>currentRole := roleFollower, currentTerm := t, a_term := t, a_role := 0\<rparr>"

text \<open>C14. The vote loop decides as the declarative tally does: it wins exactly if some
  initial part of the results holds no newer term and reaches the votes needed; otherwise
  it falls back to follower at the first newer term, or stays candidate with all grants
  counted.\<close>

theorem processVotes_tally:
  assumes "c_grantedVotes l < c_votesNeeded l"
  shows "run_with io votes (processVotes l vs n) =
    Some (if wins (c_grantedVotes l) (c_votesNeeded l) (currentTerm n) vs then (RunSwitch, afterWin n)
          else case find (\<lambda>v. currentTerm n < vterm v) vs of
            Some v \<Rightarrow> (RunSwitch, afterNewerTerm (vterm v) n)
          | None \<Rightarrow> (CandidateLoop (l\<lparr>c_grantedVotes := c_grantedVotes l + tally vs\<rparr>), n))"
  using assms
proof (induction vs arbitrary: l)
  case Nil
  then show ?case by (simp add: wins_Nil)
next
  case (Cons v vs)
  let ?l = "if granted v then l\<lparr>c_grantedVotes := c_grantedVotes l + 1\<rparr> else l"
  show ?case
  proof (cases "currentTerm n < vterm v")
    case True
    then have "\<not> vterm v \<le> currentTerm n" by (simp add: not_le)
    with True Cons.prems show ?thesis by (simp add: wins_Cons afterNewerTerm_def Let_def)
  next
    case old: False
    show ?thesis
    proof (cases "c_votesNeeded ?l \<le> c_grantedVotes ?l")
      case True
      with old Cons.prems show ?thesis
        by (auto simp: wins_Cons afterWin_def Let_def split: if_splits)
    next
      case False
      with old Cons.prems show ?thesis
        using Cons.IH [of ?l] by (auto simp: wins_Cons Let_def not_less add.assoc split: if_splits option.split)
    qed
  qed
qed

theorem processVotes_tally_witness:
  "let l = \<lparr>c_voteDelay = 10, c_voteTimerID = 3, c_electionTimerID = 4, c_grantedVotes = 0,
            c_votesNeeded = 2\<rparr> in
   c_grantedVotes l < c_votesNeeded l \<and>
   run_with (\<lambda>_. resp_of Cancel) noVotes
     (processVotes l [\<lparr>granted = True, vterm = 0\<rparr>, \<lparr>granted = True, vterm = 0\<rparr>] sampleWorld)
   = Some (RunSwitch, afterWin sampleWorld)"
proof -
  define l where "l = \<lparr>c_voteDelay = 10, c_voteTimerID = 3, c_electionTimerID = 4,
    c_grantedVotes = 0, c_votesNeeded = 2\<rparr>"
  have h: "c_grantedVotes l < c_votesNeeded l" by (simp add: l_def)
  have "wins (c_grantedVotes l) (c_votesNeeded l) (currentTerm sampleWorld)
      [\<lparr>granted = True, vterm = 0\<rparr>, \<lparr>granted = True, vterm = 0\<rparr>]"
    by (auto simp: wins_def l_def intro!: exI [of _ 2])
  then show ?thesis
    using h processVotes_tally [OF h, of "\<lambda>_. resp_of Cancel" noVotes
      "[\<lparr>granted = True, vterm = 0\<rparr>, \<lparr>granted = True, vterm = 0\<rparr>]" sampleWorld]
    by (simp add: l_def)
qed

text \<open>With fewer peers than the configured minimum, the vote timer of a candidate never
  starts an election: the timer is registered again and the node's state is untouched.\<close>

theorem candidate_minimum_quorum:
  assumes "int (length (currentPeers n)) < MinimumQuorum (conf n)"
  shows "run_with io votes (candidateTimer l (c_voteTimerID l) n) =
    Some (CandidateLoop (l\<lparr>c_voteTimerID := r_TimerID (io (afterReq (c_voteDelay l)))\<rparr>), n)"
  using assms by (simp add: candidateTimer_def)

theorem candidate_minimum_quorum_witness:
  "let n = sampleWorld\<lparr>conf := (conf sampleWorld)\<lparr>MinimumQuorum := 4\<rparr>\<rparr>;
       l = \<lparr>c_voteDelay = 10, c_voteTimerID = 3, c_electionTimerID = 4, c_grantedVotes = 0,
            c_votesNeeded = 2\<rparr> in
   int (length (currentPeers n)) < MinimumQuorum (conf n) \<and>
   run_with (\<lambda>_. timerResp 9) noVotes (candidateTimer l 3 n) =
     Some (CandidateLoop (l\<lparr>c_voteTimerID := 9\<rparr>), n)"
proof -
  define n where "n = sampleWorld\<lparr>conf := (conf sampleWorld)\<lparr>MinimumQuorum := 4\<rparr>\<rparr>"
  define l where "l = \<lparr>c_voteDelay = 10, c_voteTimerID = 3, c_electionTimerID = 4,
    c_grantedVotes = 0, c_votesNeeded = 2\<rparr>"
  have "length (currentPeers sampleWorld) = 3" by code_simp
  then have h: "int (length (currentPeers n)) < MinimumQuorum (conf n)" by (simp add: n_def)
  with candidate_minimum_quorum [OF h, of "\<lambda>_. timerResp 9" noVotes l]
  show ?thesis by (simp add: n_def l_def timerResp_def resp_of_def)
qed

section \<open>The leader's check\<close>

text \<open>Peers, other than the node itself, heard from within the heartbeat timeout.\<close>

definition heard :: "gotime \<Rightarrow> world \<Rightarrow> string list \<Rightarrow> string list" where
  "heard now n as = filter (\<lambda>a. a \<noteq> self n \<and>
     (\<exists>lc. contactOf n a = Some lc \<and> time_Sub now lc < HeartBeatTimeout (conf n))) as"

lemma countContacted_heard: "countContacted now n as c = c + int (length (heard now n as))"
  by (induction as arbitrary: c) (auto simp: heard_def split: option.split)



end
