(* ===== verification/Node_Properties.thy ===== *)
theory Node_Properties
  imports Node_Votes Node_Exec Election_Specs
begin

text \<open>
  Properties of every reachable configuration of a started node, under every order in which
  the scheduler resumes its coroutines and every answer of the IO adapter, and concrete
  runs that show where the code departs from what its documents promise.
\<close>

section \<open>Initial configurations\<close>

lemma fresh_world:
  assumes "fresh_node n"
  shows "node_ok (shared (initCfg n))" and "vote_inv (shared (initCfg n))"
    and "spawned (shared (initCfg n)) = []" and "conf (shared (initCfg n)) = conf n"
    and "self (shared (initCfg n)) = self n" and "ElectionTimeout (conf n) \<noteq> 0"
  using assms
  by (auto simp: fresh_node_def NewNode_def applyDefaults_def second_def initCfg_def runStart_def
      settle_def world_of_node_def node.defs world.defs Let_def node_ok_defs vote_inv_def
      split: if_splits)

lemma reachable_ok:
  assumes "fresh_node n" and "reachable n c"
  shows "node_ok (shared c)" and "conf (shared c) = conf n" and "self (shared c) = self n"
  using nc.reachable_since_init [OF assms(2)] fresh_world [OF assms(1)] by (auto simp: GAll_def)

section \<open>Votes and terms\<close>

text \<open>The moves of a steady run: no step lowers the term, none starts at the maximal one.\<close>

fun steady_moves :: "move list \<Rightarrow> cfg \<Rightarrow> cfg option" where
  "steady_moves [] c = Some c"
| "steady_moves (m # ms) c =
    (case do_move m c of
       None \<Rightarrow> None
     | Some c' \<Rightarrow>
         if currentTerm (shared c) \<noteq> - 1 \<and> currentTerm (shared c) \<le> currentTerm (shared c')
         then steady_moves ms c' else None)"

lemma steady_trans: "steady c' c'' \<Longrightarrow> steady c c' \<Longrightarrow> steady c c''"
  by (induction rule: steady.induct) (auto intro: steady.step)

lemma steady_moves_steady:
  assumes "\<not> badTimeouts (shared (initCfg n))" and "reachable n c" and "steady_moves ms c = Some c'"
  shows "steady c c' \<and> reachable n c'"
  using assms(2,3)
proof (induction ms arbitrary: c)
  case Nil
  then show ?case by (auto intro: steady.refl)
next
  case (Cons m ms)
  from Cons.prems(2) obtain d where d: "do_move m c = Some d" "steady_moves ms d = Some c'"
      "currentTerm (shared c) \<noteq> - 1" "currentTerm (shared c) \<le> currentTerm (shared d)"
    by (auto split: option.splits if_splits)
  have np: "\<not> panicked c" by (rule reachable_no_panic [OF Cons.prems(1) assms(1)])
  have "reachable n d" by (rule reachable.step [OF Cons.prems(1) np do_move_step [OF d(1)]])
  moreover have "steady c d"
    by (rule steady.step [OF steady.refl np do_move_step [OF d(1)] d(3,4)])
  ultimately show ?case using Cons.IH [OF _ d(2)] steady_trans by blast
qed

text \<open>C3. One vote per term. As long as no step lowers a node's term (and the term has not
  reached the largest \<open>uint64\<close>), the node's vote record never goes from one candidate to
  another within a term, whatever requests arrive and in whatever order its coroutines
  run.\<close>

theorem vote_once_per_term:
  assumes "fresh_node n" and "steady (initCfg n) c" and "steady c c'"
    and "voteLastTerm (shared c) = voteLastTerm (shared c')" and "voteLastCandidate (shared c) \<noteq> []"
  shows "voteLastCandidate (shared c') = voteLastCandidate (shared c)"
proof -
  have "reachable n c" by (rule steady_reachable [OF assms(2) reachable.init])
  moreover have "vote_inv (shared c)"
    using steady_vote [OF assms(2) reachable.init] fresh_world(2) [OF assms(1)] by blast
  ultimately have "vote_le (shared c) (shared c')" using steady_vote [OF assms(3)] by blast
  with assms(4,5) show ?thesis by (simp add: vote_le_def)
qed

definition votesForB :: "move list" where
  "votesForB = [MainLoop, MainIO (timerResp 1), MainIO (timerResp 2), MainLoop,
     MainIO (voteEvent 1 ''b''), MainIO (nowIs 50), MainLoop]"

theorem vote_once_per_term_witness:
  "\<exists>c c'. fresh_node (sampleNode ''a'' [''a'', ''b'', ''c''])
     \<and> steady (initCfg (sampleNode ''a'' [''a'', ''b'', ''c''])) c \<and> steady c c'
     \<and> voteLastTerm (shared c) = 1 \<and> voteLastTerm (shared c') = 1
     \<and> voteLastCandidate (shared c) = ''b'' \<and> voteLastCandidate (shared c') = ''b''"
proof -
  let ?n = "sampleNode ''a'' [''a'', ''b'', ''c'']"
  have f: "fresh_node ?n" and b: "\<not> badTimeouts (shared (initCfg ?n))"
    by (simp_all add: sampleNode_fresh sampleNode_timeouts)
  have "map_option (\<lambda>c. voteLastTerm (shared c) = 1 \<and> voteLastCandidate (shared c) = ''b''
          \<and> map_option (\<lambda>c'. voteLastTerm (shared c') = 1)
              (steady_moves [MainIO (voteEvent 1 ''c''), MainLoop] c) = Some True)
      (steady_moves votesForB (initCfg ?n)) = Some True"
    by code_simp
  then obtain c c' where c: "steady_moves votesForB (initCfg ?n) = Some c"
    and c': "steady_moves [MainIO (voteEvent 1 ''c''), MainLoop] c = Some c'"
    and v: "voteLastTerm (shared c) = 1" "voteLastCandidate (shared c) = ''b''" "voteLastTerm (shared c') = 1"
    by auto
  from steady_moves_steady [OF b reachable.init c] have s: "steady (initCfg ?n) c" "reachable ?n c" by auto
  from steady_moves_steady [OF b s(2) c'] have s': "steady c c'" by simp
  from vote_once_per_term [OF f s(1) s'] v have "voteLastCandidate (shared c') = ''b''" by simp
  with f s(1) s' v show ?thesis by blast
qed

text \<open>The main coroutine's moves honour the vote contract.\<close>

lemma main_move_vote:
  assumes "reachable n c" and "do_move m c = Some c'" and "m = MainLoop \<or> m = MainAwait \<or> (\<exists>r. m = MainIO r)"
  shows "\<exists>w. shared c' = settle w \<and> GVote (shared c) w"
proof -
  have inv: "vc.cfg_inv c" by (rule vc.reachable_inv [OF assms(1)]) simp
  have "\<exists>p. c' = after_main p c \<and> rg GKidVote GVote (\<lambda>_ _. True) (\<lambda>_. True) p (shared c)"
    using assms(2,3) inv
    by (auto simp: vc.cfg_inv_def vc.blocked_ok_def vc.main_ok vc.GK_refl
        split: step.splits if_splits option.splits kid.splits kidResult.splits)
      (blast intro: vc.GK_refl)
  then show ?thesis by (auto simp: after_main_def dest: rg_guarantee)
qed

text \<open>C5. The main coroutine never lowers the term. In every reachable configuration below the
  maximal term, each of its steps (all roles, all handlers, the election itself) keeps the
  term or raises it.\<close>

theorem main_never_lowers_term:
  assumes "reachable n c" and "do_move m c = Some c'"
    and "m = MainLoop \<or> m = MainAwait \<or> (\<exists>r. m = MainIO r)"
    and "currentTerm (shared c) \<noteq> - 1"
  shows "currentTerm (shared c) \<le> currentTerm (shared c')"
  using main_move_vote [OF assms(1-3)] assms(4) by (auto simp: GVote_def settle_def)

theorem main_never_lowers_term_witness:
  "\<exists>c c'. reachable (sampleNode ''a'' [''a'', ''b'', ''c'']) c \<and> do_move (MainIO (voteEvent 4 ''b'')) c = Some c'
     \<and> currentTerm (shared c) \<noteq> - 1 \<and> currentTerm (shared c) \<le> currentTerm (shared c')"
proof -
  let ?n = "sampleNode ''a'' [''a'', ''b'', ''c'']"
  have b: "\<not> badTimeouts (shared (initCfg ?n))" by (simp add: sampleNode_timeouts)
  have "map_option (\<lambda>c. currentTerm (shared c) \<noteq> - 1 \<and> do_move (MainIO (voteEvent 4 ''b'')) c \<noteq> None)
      (run_moves votesForB (initCfg ?n)) = Some True"
    by code_simp
  from run_moves_reaches [OF b this] obtain c c' where c: "reachable ?n c"
      "currentTerm (shared c) \<noteq> - 1" "do_move (MainIO (voteEvent 4 ''b'')) c = Some c'" by auto
  from main_never_lowers_term [OF c(1,3) _ c(2)] c show ?thesis by blast
qed

text \<open>Winning an election in a cluster of three, starting from the candidate loop.\<close>

definition winThree :: "move list" where
  "winThree = [MainIO (fired 3), KidStart 0, KidStart 1, KidIO 0 (voteAnswer 1 True),
     KidIO 1 (voteAnswer 1 True), MainAwait, MainAwait, MainIO (resp_of Cancel),
     MainIO (resp_of Cancel), MainLoop, MainIO (timerResp 5), MainIO (timerResp 6), MainLoop]"

text \<open>The leader sends heartbeats at term 1, resigns, and votes for b in terms 6 and 10; then
  a heartbeat answer with term 5 arrives, and after it a request of c for term 6.\<close>

definition untilVotedInSix :: "move list" where
  "untilVotedInSix = toCandidate @ winThree @ [MainIO (fired 5), KidStart 2, KidStart 3,
     MainIO (timerResp 7), MainLoop, MainIO (eventResp (event_of EventResign)),
     MainIO (resp_of Cancel), MainIO (resp_of Cancel), MainLoop, MainIO (timerResp 8),
     MainIO (timerResp 9), MainLoop, MainIO (voteEvent 6 ''b''), MainIO (nowIs 2000), MainLoop]"

definition untilLateAnswer :: "move list" where
  "untilLateAnswer = [MainIO (voteEvent 10 ''b''), MainIO (nowIs 2000), MainLoop, KidIO 2 (beatAnswer 5)]"

definition untilSecondVote :: "move list" where
  "untilSecondVote = [MainIO (voteEvent 6 ''c''), MainIO (nowIs 2000)]"

lemma run_moves_steps: "run_moves ms c = Some c' \<Longrightarrow> node_step\<^sup>*\<^sup>* c c'"
proof (induction ms arbitrary: c)
  case (Cons m ms)
  then show ?case
    by (auto split: option.splits intro: converse_rtranclp_into_rtranclp dest: do_move_step)
qed simp

text \<open>A late heartbeat answer breaks the rule of one vote per term. A heartbeat coroutine
  compares the answered term with the term it captured when it was spawned, not with the
  node's current term, and so can lower the current term. There is a run of a freshly built
  node in which the term falls from 10 to 5 and the node, which had voted for b in term 6,
  then votes for c in term 6.\<close>

theorem late_heartbeat_second_vote:
  "\<exists>n c c' c''. fresh_node n \<and> reachable n c \<and> node_step\<^sup>*\<^sup>* c c' \<and> node_step\<^sup>*\<^sup>* c' c''
     \<and> voteLastTerm (shared c) = 6 \<and> voteLastCandidate (shared c) = ''b''
     \<and> voteLastTerm (shared c') = 10 \<and> currentTerm (shared c') = 5
     \<and> voteLastTerm (shared c'') = 6 \<and> voteLastCandidate (shared c'') = ''c''"
proof -
  let ?n = "sampleNode ''a'' [''a'', ''b'', ''c'']"
  have f: "fresh_node ?n" and b: "\<not> badTimeouts (shared (initCfg ?n))"
    by (simp_all add: sampleNode_fresh sampleNode_timeouts)
  have "map_option (\<lambda>c. voteLastTerm (shared c) = 6 \<and> voteLastCandidate (shared c) = ''b'' \<and>
       map_option (\<lambda>c'. voteLastTerm (shared c') = 10 \<and> currentTerm (shared c') = 5 \<and>
         map_option (\<lambda>c''. voteLastTerm (shared c'') = 6 \<and> voteLastCandidate (shared c'') = ''c'')
           (run_moves untilSecondVote c') = Some True)
         (run_moves untilLateAnswer c) = Some True)
      (run_moves untilVotedInSix (initCfg ?n)) = Some True"
    by code_simp
  then obtain c c' c'' where r: "run_moves untilVotedInSix (initCfg ?n) = Some c"
      "run_moves untilLateAnswer c = Some c'" "run_moves untilSecondVote c' = Some c''"
    and "voteLastTerm (shared c) = 6" "voteLastCandidate (shared c) = ''b''"
      "voteLastTerm (shared c') = 10" "currentTerm (shared c') = 5"
      "voteLastTerm (shared c'') = 6" "voteLastCandidate (shared c'') = ''c''"
    by auto
  with f reachable_run_moves [OF b reachable.init r(1)] run_moves_steps [OF r(2)]
    run_moves_steps [OF r(3)] show ?thesis by blast
qed

section \<open>What external readers see\<close>



text \<open>A leader knows it and shows it: in every reachable configuration in the leader role,
  \<open>IsLeader\<close> is true, \<open>GetLeader\<close> is the node itself and the published role is leader.\<close>

theorem leader_is_published:
  assumes "fresh_node n" and "reachable n c" and "currentRole (shared c) = roleLeader"
  shows "IsLeader (shared c) \<and> GetLeader (shared c) = self n \<and> ns_Role (GetState (shared c)) = 2"
  using reachable_ok [OF assms(1,2)] assms(3)
  by (auto simp: node_ok_defs IsLeader_def GetLeader_def GetState_def)

theorem leader_is_published_witness:
  "\<exists>c. reachable (sampleNode ''a'' [''a'', ''b'', ''c'']) c \<and> currentRole (shared c) = roleLeader
     \<and> IsLeader (shared c) \<and> GetLeader (shared c) = self (sampleNode ''a'' [''a'', ''b'', ''c''])"
proof -
  let ?n = "sampleNode ''a'' [''a'', ''b'', ''c'']"
  have f: "fresh_node ?n" and b: "\<not> badTimeouts (shared (initCfg ?n))"
    by (simp_all add: sampleNode_fresh sampleNode_timeouts)
  have "map_option (\<lambda>c. currentRole (shared c) = roleLeader)
      (run_moves (toCandidate @ winThree) (initCfg ?n)) = Some True" by code_simp
  from run_moves_reaches [OF b this] obtain c where c: "reachable ?n c"
    "currentRole (shared c) = roleLeader" by auto
  with leader_is_published [OF f c] show ?thesis by blast
qed

section \<open>No panic\<close>

text \<open>C9. No coroutine panics (by a division by zero in \<open>randomDuration\<close> or a write to a nil
  contact map) in any run of a node whose heartbeat timeout is at least ten nanoseconds in
  size.\<close>

theorem no_panic:
  assumes "fresh_node n" and "reachable n c" and "10 \<le> \<bar>HeartBeatTimeout (conf n)\<bar>"
  shows "\<not> panicked c"
proof (rule reachable_no_panic [OF assms(2)])
  show "\<not> badTimeouts (shared (initCfg n))"
    using assms(3) fresh_world [OF assms(1)] by (simp add: badTimeouts_def sdiv_zero_iff)
qed

theorem no_panic_witness:
  "\<exists>c. reachable (sampleNode ''a'' [''a'', ''b'', ''c'']) c \<and> currentRole (shared c) = roleLeader \<and> \<not> panicked c"
proof -
  let ?n = "sampleNode ''a'' [''a'', ''b'', ''c'']"
  have f: "fresh_node ?n" and b: "\<not> badTimeouts (shared (initCfg ?n))"
    by (simp_all add: sampleNode_fresh sampleNode_timeouts)
  have t: "10 \<le> \<bar>HeartBeatTimeout (conf ?n)\<bar>" by code_simp
  have "map_option (\<lambda>c. currentRole (shared c) = roleLeader)
      (run_moves (toCandidate @ winThree) (initCfg ?n)) = Some True" by code_simp
  from run_moves_reaches [OF b this] obtain c where c: "reachable ?n c"
    "currentRole (shared c) = roleLeader" by auto
  with no_panic [OF f c(1) t] show ?thesis by blast
qed

section \<open>The loops\<close>

text \<open>C10. The loops of the leader and of the candidate are only re-entered in their role, so
  the code after the loop of \<open>runLeader\<close> (which would reset the contact time) is never
  reached: at the leader's loop head the next thing the main coroutine does is to wait for
  an event.\<close>

theorem leader_epilogue_unreachable:
  assumes "reachable n c" and "main c = Done (LeaderLoop l) w"
  shows "main_seg (LeaderLoop l) (shared c) =
    Yield recvReq (shared c) (\<lambda>r n. leaderEvent l (r_Event r) n)"
  using nc.reachable_loop_head [OF assms(1) _ assms(2)] by (simp add: as_leader_def)

theorem leader_epilogue_unreachable_witness:
  "\<exists>c l w. reachable (sampleNode ''a'' [''a'', ''b'', ''c'']) c \<and> main c = Done (LeaderLoop l) w
     \<and> main_seg (LeaderLoop l) (shared c) = Yield recvReq (shared c) (\<lambda>r n. leaderEvent l (r_Event r) n)"
proof -
  let ?n = "sampleNode ''a'' [''a'', ''b'', ''c'']"
  have b: "\<not> badTimeouts (shared (initCfg ?n))" by (simp add: sampleNode_timeouts)
  have "map_option (\<lambda>c. case main c of Done (LeaderLoop l) w \<Rightarrow> True | _ \<Rightarrow> False)
      (run_moves (toCandidate @ butlast winThree) (initCfg ?n)) = Some True" by code_simp
  from run_moves_reaches [OF b this] obtain c where r: "reachable ?n c"
    and m: "case main c of Done (LeaderLoop l) w \<Rightarrow> True | _ \<Rightarrow> False" by blast
  from m obtain l w where "main c = Done (LeaderLoop l) w" by (auto split: step.splits pc.splits)
  note c = r this
  from c leader_epilogue_unreachable [OF c] show ?thesis by blast
qed

end
