(* ===== verification/Cluster_Safety.thy ===== *)
theory Cluster_Safety
  imports Cluster_Votes Node_Properties
begin

text \<open>
  Election safety. The invariant of a node of a cluster says what the ballots cast so far mean
  for it; it is kept by every step, and makes the steps of a cluster steps of the ballot box of
  \<open>Ballots\<close>. So no two nodes are ever elected with votes of the same term.
\<close>

section \<open>What a node knows\<close>

fun childOf :: "kid \<Rightarrow> child" where
  "childOf (Fresh ch) = ch"
| "childOf (Live ch _) = ch"

definition callsTo :: "string \<Rightarrow> cluster \<Rightarrow> callback \<rightharpoonup> rpcRequest" where
  "callsTo b s cb = (case map_of (inbox s) cb of
     Some (a, i, pr, rq) \<Rightarrow> if pr = b then Some rq else None
   | None \<Rightarrow> None)"

definition knowledgeOf :: "cluster \<Rightarrow> string \<Rightarrow> cfg \<Rightarrow> knowledge" where
  "knowledgeOf s b c = \<lparr>k_left = {t. (b, t) \<in> set (timersLeft s)}, k_kids = map_option childOf \<circ> kids c,
     k_ballots = ballots s, k_calls = callsTo b s\<rparr>"

section \<open>The invariant of a node\<close>

text \<open>The blocked main coroutine: whatever its surroundings do next, it will behave.\<close>

definition mainOk :: "string set \<Rightarrow> pc body \<Rightarrow> world \<Rightarrow> knowledge \<Rightarrow> bool" where
  "mainOk M p w g \<longleftrightarrow> (case p of
     Done pos _ \<Rightarrow> QPC M pos w g
   | Panic _ \<Rightarrow> True
   | Yield q _ k \<Rightarrow> (\<forall>r w1 g1 g2. meanwhile w g w1 g1 \<longrightarrow> fits M w1 \<longrightarrow> mayAnswer (self w1) q r g1 g2 \<longrightarrow>
       okm M (GStretch M) (QPC M) (k r w1) w1 g2)
   | Await i _ k \<Rightarrow> (\<forall>v w1 g1. meanwhile w g w1 g1 \<longrightarrow> fits M w1 \<longrightarrow> mayVote i v g1 \<longrightarrow>
       okm M (GStretch M) (QPC M) (k v w1) w1 g1))"

definition kidOk :: "string \<Rightarrow> knowledge \<Rightarrow> kid \<Rightarrow> bool" where
  "kidOk b g kd \<longleftrightarrow> (\<forall>p t s. childOf kd = VoteChild p t s \<longrightarrow> s = b \<and> p \<noteq> b)
     \<and> (\<forall>p t s bd. kd = Live (VoteChild p t s) bd \<longrightarrow> (\<exists>w. bd = voteChild p t s w)
          \<or> (\<exists>v w. bd = Done (KVote v) w \<and> (vp_Granted v \<longrightarrow> (p, t, s) \<in> k_ballots g)))"

definition answersOk :: "string \<Rightarrow> knowledge \<Rightarrow> world \<Rightarrow> bool" where
  "answersOk b g w \<longleftrightarrow> (\<forall>(cb, rs)\<in>answersIn (outputs w). \<exists>rq. k_calls g cb = Some rq \<and>
     (\<forall>v vq. rp_Response rs = VoteResp v \<and> vp_Granted v \<and> rq_Request rq = VoteReq vq \<longrightarrow>
        (b, vq_Term vq, vq_Candidate vq) \<in> k_ballots g))"

text \<open>The ballots of a node are older than its vote on record, or are this vote.\<close>

definition ballotsOk :: "string \<Rightarrow> knowledge \<Rightarrow> world \<Rightarrow> bool" where
  "ballotsOk b g w \<longleftrightarrow> ownBallot b w \<subseteq> k_ballots g
     \<and> (\<forall>t x. (b, t, x) \<in> k_ballots g \<longrightarrow> t < voteLastTerm w \<or> (b, t, x) \<in> ownBallot b w)"

definition nodeInv :: "string set \<Rightarrow> knowledge \<Rightarrow> (u64 \<times> string) set \<Rightarrow> string \<Rightarrow> cfg \<Rightarrow> bool" where
  "nodeInv M g W b c \<longleftrightarrow> nc.cfg_inv c \<and> vc.cfg_inv c \<and> vote_inv (shared c)
     \<and> fits M (shared c) \<and> self (shared c) = b
     \<and> mainOk M (main c) (shared c) g
     \<and> (\<forall>i kd. kids c i = Some kd \<longrightarrow> i < nextCo (shared c) \<and> kidOk b g kd)
     \<and> k_kids g = map_option childOf \<circ> kids c
     \<and> answersOk b g (shared c) \<and> ballotsOk b g (shared c)
     \<and> (currentRole (shared c) = roleLeader \<longrightarrow> (voteLastTerm (shared c), b) \<in> W)"

lemma meanwhile_trans:
  assumes "meanwhile w g w1 g1" "meanwhile w1 g1 w2 g2" shows "meanwhile w g w2 g2"
proof -
  have k: "k_kids g1 \<subseteq>\<^sub>m k_kids g2" using assms(2) by (simp add: meanwhile_def)
  have "k_kids g2 i = Some ch" if "(i, ch) \<in> set (spawned w)" for i ch
    using that assms(1) k by (fastforce simp: meanwhile_def map_le_def dom_def)
  moreover have "GKid w w2" using assms by (auto simp: meanwhile_def intro: GKid_trans)
  moreover have "k_kids g \<subseteq>\<^sub>m k_kids g2" using assms(1) k by (auto simp: meanwhile_def intro: map_le_trans)
  ultimately show ?thesis using assms by (auto simp: meanwhile_def)
qed

lemma QPC_meanwhile: "QPC M pos w g \<Longrightarrow> meanwhile w' g w1 g1 \<Longrightarrow> QPC M pos w1 g1"
  by (cases pos) (auto simp: meanwhile_def)

lemma mainOk_meanwhile:
  assumes "mainOk M p w g" "meanwhile w g w1 g1"
  shows "mainOk M p w1 g1"
proof (cases p)
  case (Done pos w0)
  with assms show ?thesis by (auto simp: mainOk_def intro: QPC_meanwhile)
qed (use assms meanwhile_trans in \<open>fastforce simp: mainOk_def\<close>)+

lemma okm_mainOk:
  assumes "okm M (GStretch M) (QPC M) p w0 g" "meanwhile (world_of p) g w1 g1"
  shows "mainOk M p w1 g1"
proof (cases p)
  case (Done pos w0)
  with assms show ?thesis by (auto simp: mainOk_def intro: QPC_meanwhile)
qed (use assms meanwhile_trans in \<open>fastforce simp: mainOk_def\<close>)+

lemma meanwhile_idle:
  assumes "spawned w = []" "ownBallot (self w) w \<subseteq> k_ballots g"
    "k_left g1 = k_left g" "k_calls g1 = k_calls g" "k_kids g1 = k_kids g" "k_ballots g \<subseteq> k_ballots g1"
  shows "meanwhile w g w g1"
  using assms by (auto simp: meanwhile_def)

lemma kidOk_mono: "kidOk b g kd \<Longrightarrow> k_ballots g \<subseteq> k_ballots g1 \<Longrightarrow> kidOk b g1 kd"
  by (fastforce simp: kidOk_def)

text \<open>A move of another node leaves the invariant of this one.\<close>

lemma nodeInv_idle:
  assumes "nodeInv M g W b c" "k_left g1 = k_left g" "k_calls g1 = k_calls g" "k_kids g1 = k_kids g"
    "k_ballots g \<subseteq> k_ballots g1" "\<And>t x. (b, t, x) \<in> k_ballots g1 \<Longrightarrow> (b, t, x) \<in> k_ballots g" "W \<subseteq> W1"
  shows "nodeInv M g1 W1 b c"
proof -
  have "meanwhile (shared c) g (shared c) g1"
    by (rule meanwhile_idle) (use assms in \<open>auto simp: nodeInv_def fits_def ballotsOk_def\<close>)
  moreover note kidOk_mono [OF _ assms(5)]
  moreover have "answersOk b g1 w" if "answersOk b g w" for w
    using that assms(3,5) by (fastforce simp: answersOk_def)
  moreover have "ballotsOk b g1 w" if "ballotsOk b g w" for w
    using that assms(5,6) by (auto simp: ballotsOk_def)
  ultimately show ?thesis
    using assms(1,4,7) by (auto simp: nodeInv_def intro: mainOk_meanwhile)
qed

section \<open>Moves of a node\<close>

lemma settle_simps [simp]:
  "self (settle w) = self w" "currentPeers (settle w) = currentPeers w" "spawned (settle w) = []"
  "nextCo (settle w) = nextCo w" "voteLastTerm (settle w) = voteLastTerm w" "currentTerm (settle w) = currentTerm w"
  "voteLastCandidate (settle w) = voteLastCandidate w" "outputs (settle w) = outputs w"
  "currentRole (settle w) = currentRole w" "node_ok (settle w) = node_ok w"
  by (simp_all add: settle_def node_ok_defs)

lemma ownBallot_settle [simp]: "ownBallot b (settle w) = ownBallot b w"
  by (simp add: ownBallot_def)

lemma ballotsOk_next:
  assumes "ballotsOk b g w" "vote_le w w'" "k_ballots g' = ownBallot b w' \<union> k_ballots g"
  shows "ballotsOk b g' w'"
proof -
  have "t < voteLastTerm w' \<or> (b, t, x) \<in> ownBallot b w'" if "(b, t, x) \<in> k_ballots g'" for t x
    using that assms unfolding ballotsOk_def vote_le_def
    by (force simp: ownBallot_def order.strict_iff_order split: if_splits)
  with assms(3) show ?thesis by (auto simp: ballotsOk_def)
qed

lemma answersOk_next:
  assumes "answersOk b g w" "GStretch M g2 w w'" "k_calls g \<subseteq>\<^sub>m k_calls g2" "k_calls g' = k_calls g2"
    "k_ballots g' = ownBallot b w' \<union> k_ballots g"
  shows "answersOk b g' w'"
  unfolding answersOk_def
proof (clarify)
  fix cb rs assume "(cb, rs) \<in> answersIn (outputs w')"
  then consider (old) "(cb, rs) \<in> answersIn (outputs w)" | (new) "honest g2 w' cb rs"
    using assms(2) by (auto simp: GStretch_def)
  then show "\<exists>rq. k_calls g' cb = Some rq \<and> (\<forall>v vq. rp_Response rs = VoteResp v \<and> vp_Granted v \<and>
      rq_Request rq = VoteReq vq \<longrightarrow> (b, vq_Term vq, vq_Candidate vq) \<in> k_ballots g')"
  proof cases
    case old
    with assms(1) obtain rq where "k_calls g cb = Some rq" "\<forall>v vq. rp_Response rs = VoteResp v \<and> vp_Granted v \<and>
        rq_Request rq = VoteReq vq \<longrightarrow> (b, vq_Term vq, vq_Candidate vq) \<in> k_ballots g"
      by (fastforce simp: answersOk_def)
    with assms(3-5) show ?thesis by (force simp: map_le_def dom_def)
  next
    case new
    with assms(4,5) show ?thesis by (fastforce simp: honest_def ownBallot_def)
  qed
qed

lemma fits_next:
  assumes "fits M w" "node_ok w'" "spawned w' = []" "self w' = self w"
    "map Address (currentPeers w') = map Address (currentPeers w)"
  shows "fits M w'"
  using assms unfolding fits_def by (metis list.set_map)

lemma node_ok_step: "nc.cfg_inv c \<Longrightarrow> node_step c c' \<Longrightarrow> node_ok (shared c) \<Longrightarrow> node_ok (shared c')"
  using nc.step_inv by (auto simp: GAll_def)

text \<open>The kids after a stretch of the main coroutine: the old ones, and the spawned ones.\<close>

lemma spawned_kids:
  assumes "spawnsFresh w w'" "spawned w = []" "dom ks \<subseteq> {..<nextCo w}"
  shows "ks i = Some kd \<Longrightarrow> adopt (spawned w') ks i = Some kd"
    and "(i, ch) \<in> set (spawned w') \<Longrightarrow> adopt (spawned w') ks i = Some (Fresh ch)"
    and "(i, ch) \<in> set (spawned w') \<Longrightarrow> i < nextCo w'"
    and "(i, VoteChild p t s) \<in> set (spawned w') \<Longrightarrow> s = self w \<and> p \<noteq> self w"
    and "nextCo w \<le> nextCo w'"
proof -
  from assms(1,2) obtain chs where c: "spawned w' = zip [nextCo w ..< nextCo w'] chs" "nextCo w' = nextCo w + length chs"
      "\<forall>p t s. VoteChild p t s \<in> set chs \<longrightarrow> s = self w \<and> p \<noteq> self w"
    unfolding spawnsFresh_def by (metis append_Nil)
  have ids: "map fst (spawned w') = [nextCo w ..< nextCo w']" using c(1,2) by simp
  have "i \<notin> fst ` set (spawned w')" if "ks i = Some kd"
    using assms(3) that arg_cong [OF ids, of set] by (auto dest: domI)
  then show "ks i = Some kd \<Longrightarrow> adopt (spawned w') ks i = Some kd" by (simp add: adopt_other)
  show "(i, ch) \<in> set (spawned w') \<Longrightarrow> adopt (spawned w') ks i = Some (Fresh ch)"
    by (rule adopt_new) (simp_all add: ids)
  show "(i, ch) \<in> set (spawned w') \<Longrightarrow> i < nextCo w'"
    using c(1) by (auto dest: set_zip_leftD)
  show "(i, VoteChild p t s) \<in> set (spawned w') \<Longrightarrow> s = self w \<and> p \<noteq> self w"
    using c(1,3) by (auto dest: set_zip_rightD)
  show "nextCo w \<le> nextCo w'" using c(2) by simp
qed

lemma main_move_inv:
  assumes inv: "nodeInv M g W b c" and ok: "okm M (GStretch M) (QPC M) p (shared c) g2"
    and g2: "k_kids g2 = k_kids g" "k_ballots g2 = k_ballots g" "k_calls g \<subseteq>\<^sub>m k_calls g2"
    and step: "node_step c c'" "c' = after_main p c"
    and terms: "currentTerm (shared c) \<noteq> - 1" "currentTerm (shared c) \<le> currentTerm (shared c')"
    and g': "k_left g' = k_left g2" "k_calls g' = k_calls g2" "k_kids g' = map_option childOf \<circ> kids c'"
      "k_ballots g' = ownBallot b (shared c') \<union> k_ballots g"
    and W': "currentRole (shared c') = roleLeader \<longrightarrow> (voteLastTerm (shared c'), b) \<in> W'"
  shows "nodeInv M g' W' b c'"
proof -
  let ?w = "world_of p"
  have c': "shared c' = settle ?w" "kids c' = adopt (spawned ?w) (kids c)" "main c' = p"
    using step(2) by (simp_all add: after_main_def)
  from okm_guarantee [OF ok] have st: "GStretch M g2 (shared c) ?w" .
  then have keep: "self ?w = self (shared c)" "map Address (currentPeers ?w) = map Address (currentPeers (shared c))"
      "spawnsFresh (shared c) ?w" by (auto simp: GStretch_def keepsNode_def)
  have lt: "dom (kids c) \<subseteq> {..<nextCo (shared c)}" using inv by (auto simp: nodeInv_def)
  have sp: "spawned (shared c) = []" "self (shared c) = b" using inv by (simp_all add: nodeInv_def fits_def)
  note kids = spawned_kids [OF keep(3) sp(1) lt]
  have m: "meanwhile ?w g2 (settle ?w) g'"
    unfolding meanwhile_def map_le_def
    using nc.GK_settle g2 g' c' kids(1,2) inv keep(1) sp(2) by (auto simp: nodeInv_def)
  have v: "vote_inv (shared c') \<and> vote_le (shared c) (shared c')"
    using inv inv_step_vote [OF _ step(1) terms] by (simp add: nodeInv_def)
  have "i < nextCo ?w \<and> kidOk b g' kd" if "kids c' i = Some kd" for i kd
    using adopt_cases [OF that [unfolded c'(2)]]
  proof
    assume "kids c i = Some kd"
    with inv have "i < nextCo (shared c)" "kidOk b g kd" by (auto simp: nodeInv_def)
    moreover from this(2) have "kidOk b g' kd" by (rule kidOk_mono) (simp add: g'(4))
    ultimately show ?thesis using kids(5) by simp
  qed (use kids(3,4) sp(2) in \<open>fastforce simp: kidOk_def\<close>)
  moreover have "fits M (shared c')"
  proof (rule fits_next)
    show "fits M (shared c)" using inv by (simp add: nodeInv_def)
    show "node_ok (shared c')" by (rule node_ok_step [OF _ step(1)]) (use inv in \<open>simp_all add: nodeInv_def fits_def\<close>)
  qed (simp_all add: c' keep)
  ultimately show ?thesis
    using inv v nc.step_inv [OF step(1)] vc.step_inv [OF step(1)] okm_mainOk [OF ok m] c' keep(1) g'(3) W'
      answersOk_next [OF _ st g2(3) g'(2)] ballotsOk_next [of b g "shared c" "shared c'" g'] g'(4)
    unfolding nodeInv_def by (auto simp: answersOk_def)
qed

lemma kid_move_inv:
  assumes inv: "nodeInv M g W b c" and kd: "kids c i = Some kd" "childOf kd = ch" "kidOk b g (Live ch p)"
    and gk: "GKid (shared c) (world_of p)" and step: "node_step c c'" "c' = after_kid i ch p c"
    and terms: "currentTerm (shared c) \<noteq> - 1" "currentTerm (shared c) \<le> currentTerm (shared c')"
    and g': "k_left g' = k_left g" "k_calls g' = k_calls g" "k_kids g' = map_option childOf \<circ> kids c'"
      "k_ballots g' = ownBallot b (shared c') \<union> k_ballots g" and W': "W \<subseteq> W'"
  shows "nodeInv M g' W' b c'"
proof -
  let ?w = "settle (world_of p)"
  have gs: "GKid (shared c) ?w" using gk nc.GK_settle by (rule GKid_trans)
  have c': "shared c' = ?w" "kids c' = (kids c)(i \<mapsto> Live ch p)" "main c' = main c"
    using step(2) gk inv by (simp_all add: after_kid_def GKid_def nodeInv_def fits_def)
  have own: "ownBallot b ?w = ownBallot b (shared c)" using gk by (simp add: ownBallot_def GKid_def)
  have bal: "k_ballots g' = k_ballots g" using g'(4) own c'(1) inv by (auto simp: nodeInv_def ballotsOk_def)
  have kids: "k_kids g' = k_kids g"
    using g'(3) c'(2) kd(1,2) inv by (auto simp: nodeInv_def fun_eq_iff)
  have m: "meanwhile (shared c) g ?w g'"
    using gs inv g'(1,2) bal kids by (auto simp: meanwhile_def nodeInv_def fits_def ballotsOk_def)
  have "fits M ?w"
  proof (rule fits_next)
    show "fits M (shared c)" using inv by (simp add: nodeInv_def)
    show "node_ok ?w" using node_ok_step [OF _ step(1)] inv c'(1) by (simp add: nodeInv_def fits_def)
  qed (use gs in \<open>simp_all add: GKid_def GAll_def\<close>)
  moreover have "answersOk b g' ?w" "ballotsOk b g' ?w"
    using inv gs bal g'(2) own by (simp_all add: nodeInv_def answersOk_def ballotsOk_def GKid_def)
  moreover have "j < nextCo ?w \<and> kidOk b g' kd'" if "kids c' j = Some kd'" for j kd'
    using that inv kd gs bal c'(2) kidOk_mono [of b g _ g'] by (auto simp: nodeInv_def GKid_def split: if_splits)
  moreover have "vote_inv (shared c')" using inv inv_step_vote [OF _ step(1) terms] by (simp add: nodeInv_def)
  ultimately show ?thesis
    using inv nc.step_inv [OF step(1)] vc.step_inv [OF step(1)] c' W' g'(3) gs mainOk_meanwhile [OF _ m]
    unfolding nodeInv_def by (auto simp: GKid_def GAll_def)
qed

section \<open>The invariant of a cluster\<close>

definition clusterInv :: "string set \<Rightarrow> cluster \<Rightarrow> bool" where
  "clusterInv M s \<longleftrightarrow> finite M \<and> distinct (map fst (cfgs s)) \<and> fst ` set (cfgs s) = M
     \<and> (\<forall>b c. cfgOf s b = Some c \<longrightarrow> nodeInv M (knowledgeOf s b c) (winners s) b c)"

definition boxOf :: "cluster \<Rightarrow> box" where
  "boxOf s = \<lparr>bx_ballots = ballots s, bx_elected = winners s\<rparr>"

text \<open>A step of a cluster is a move of one node, after an event of its surroundings.\<close>

lemma observe_simps [simp]:
  "cfgOf (observe b c s) b' = (if b' = b then Some c else cfgOf s b')"
  "timersLeft (observe b c s) = timersLeft s" "inbox (observe b c s) = inbox s"
  "ballots (observe b c s) = ownBallot b (shared c) \<union> ballots s"
  "winners (observe b c s) = (if currentRole (shared c) = roleLeader
     then insert (voteLastTerm (shared c), b) (winners s) else winners s)"
  "callsTo b' (observe b c s) = callsTo b' s"
  by (auto simp: observe_def update_conv' callsTo_def fun_eq_iff)

lemma fst_update: "map fst (AList.update k v al) = (if k \<in> fst ` set al then map fst al else map fst al @ [k])"
  by (induction al) auto

text \<open>What the surroundings of node \<open>b\<close> may do for a move of it: \<open>s1\<close> is the cluster after their event.\<close>

definition backed :: "child \<Rightarrow> resp \<Rightarrow> (string \<times> u64 \<times> string) set \<Rightarrow> bool" where
  "backed ch r bs \<longleftrightarrow> (\<forall>p t x v. ch = VoteChild p t x \<and> r_Err r = None \<and> rp_Response (r_RPCResp r) = VoteResp v
     \<and> vp_Granted v \<longrightarrow> (p, t, x) \<in> bs)"

fun admits :: "cluster \<Rightarrow> string \<Rightarrow> cfg \<Rightarrow> move \<Rightarrow> cluster \<Rightarrow> bool" where
  "admits s b c (MainIO r) s1 \<longleftrightarrow> cfgs s1 = cfgs s \<and> ballots s1 = ballots s \<and> winners s1 = winners s
     \<and> (\<forall>b' c'. b' \<noteq> b \<longrightarrow> knowledgeOf s1 b' c' = knowledgeOf s b' c') \<and> callsTo b s \<subseteq>\<^sub>m callsTo b s1
     \<and> (\<forall>q w k. main c = Yield q w k \<longrightarrow> mayAnswer b q r (knowledgeOf s b c) (knowledgeOf s1 b c))"
| "admits s b c (KidIO i r) s1 \<longleftrightarrow> s1 = s
     \<and> (\<forall>ch q w k. kids c i = Some (Live ch (Yield q w k)) \<longrightarrow> backed ch r (ballots s))"
| "admits s b c _ s1 \<longleftrightarrow> s1 = s"

lemma sentCall_kid: "sentCall c i = Some x \<longleftrightarrow> (\<exists>ch bd. kids c i = Some (Live ch bd) \<and> childCall ch = x)"
  by (auto simp: sentCall_def split: option.splits kid.splits)

lemma admits_local:
  assumes "nodeInv M (knowledgeOf s b c) W b c" "localMove m c"
  shows "admits s b c m s"
proof (cases m)
  case (MainIO r)
  with assms(2) show ?thesis
    by (auto simp: mainAsks_def mayAnswer_def req_of_def split: step.splits)
next
  case (KidIO i r)
  then have "backed ch r (ballots s)" if k: "kids c i = Some (Live ch (Yield q w k))" for ch q w k
  proof -
    have "ch \<noteq> VoteChild p t x" for p t x
      using assms k KidIO by (fastforce simp: nodeInv_def kidOk_def kidAsks_def voteChild_def req_of_def)
    then show ?thesis by (simp add: backed_def)
  qed
  with KidIO show ?thesis by simp
qed simp_all

lemma admits_timers:
  "mainAsks After c \<Longrightarrow> admits s b c (MainIO (timerResp t))
     (s\<lparr>timersSet := ts, timersLeft := (b, t) # timersLeft s\<rparr>)"
  "mainAsks Recv c \<Longrightarrow> (b, t) \<in> set (timersLeft s) \<Longrightarrow>
     admits s b c (MainIO (fired t)) (s\<lparr>timersLeft := removeAll (b, t) (timersLeft s)\<rparr>)"
  by (auto simp: mainAsks_def mayAnswer_def knowledgeOf_def callsTo_def timerResp_def fired_def eventResp_def
      event_of_def resp_of_def map_le_def split: step.splits)

lemma admits_deliver:
  assumes "nodeInv M g W a ca" "sentCall ca i = Some (b, rq)" "mainAsks Recv c" "map_of (inbox s) cb = None"
  shows "admits s b c (MainIO (rpcArrives rq cb)) (s\<lparr>inbox := (cb, a, i, b, rq) # inbox s\<rparr>)"
proof -
  let ?s = "s\<lparr>inbox := (cb, a, i, b, rq) # inbox s\<rparr>"
  obtain ch bd where ch: "kids ca i = Some (Live ch bd)" "childCall ch = (b, rq)"
    using assms(2) by (auto simp: sentCall_kid)
  then have v: "\<forall>p t x. ch = VoteChild p t x \<longrightarrow> x \<noteq> b \<and> x \<noteq> []"
    using assms(1) by (fastforce simp: nodeInv_def kidOk_def fits_def)
  have calls: "callsTo b ?s = (callsTo b s)(cb \<mapsto> rq)" "callsTo b s cb = None"
      "\<And>b'. b' \<noteq> b \<Longrightarrow> callsTo b' ?s = callsTo b' s"
    using assms(4) by (auto simp: callsTo_def fun_eq_iff)
  have "mayAnswer b recvReq (rpcArrives rq cb) (knowledgeOf s b c) (knowledgeOf ?s b c)"
    using v ch(2) calls(1)
    by (auto simp: mayAnswer_def rpcArrives_def eventResp_def event_of_def resp_of_def req_of_def knowledgeOf_def
        intro!: exI [of _ ch])
  then have "mayAnswer b q (rpcArrives rq cb) (knowledgeOf s b c) (knowledgeOf ?s b c)"
    if "q_Kind q = Recv" for q
    using that by (simp add: mayAnswer_def req_of_def)
  with assms(3) calls show ?thesis
    by (auto simp: mainAsks_def knowledgeOf_def map_le_def split: step.splits)
qed

lemma admits_reply:
  assumes "nodeInv M (knowledgeOf s p cp) W p cp" "sentCall c i = Some (p, rq)"
    "map_of (inbox s) cb = Some (a, i, p, rq)" "Responded cb rs \<in> set (outputs (shared cp))"
  shows "admits s a c (KidIO i ((resp_of SendRPC)\<lparr>r_RPCResp := rs\<rparr>)) s"
proof -
  have k: "k_calls (knowledgeOf s p cp) cb = Some rq" using assms(3) by (simp add: knowledgeOf_def callsTo_def)
  have "(cb, rs) \<in> answersIn (outputs (shared cp))" using assms(4) by (simp add: answersIn_def)
  with assms(1) k have v: "(p, t, x) \<in> ballots s"
    if "rp_Response rs = VoteResp v" "vp_Granted v" "rq_Request rq = VoteReq \<lparr>vq_Term = t, vq_Candidate = x\<rparr>" for v t x
    using that by (fastforce simp: nodeInv_def answersOk_def knowledgeOf_def)
  obtain ch bd where ch: "kids c i = Some (Live ch bd)" "childCall ch = (p, rq)"
    using assms(2) by (auto simp: sentCall_kid)
  have "backed ch ((resp_of SendRPC)\<lparr>r_RPCResp := rs\<rparr>) (ballots s)"
    using v ch(2) by (auto simp: backed_def)
  with ch show ?thesis by simp
qed

inductive node_moves :: "cluster \<Rightarrow> cluster \<Rightarrow> bool" where
  "cfgOf s b = Some c \<Longrightarrow> do_move m c = Some c' \<Longrightarrow> admits s b c m s1 \<Longrightarrow> node_moves s (observe b c' s1)"

lemma cluster_move_admits:
  assumes "clusterInv M s" "cluster_move act s = Some s'"
  shows "node_moves s s'"
proof -
  have inv: "nodeInv M (knowledgeOf s b c) (winners s) b c" if "cfgOf s b = Some c" for b c
    using that assms(1) by (simp add: clusterInv_def)
  have moved: ?thesis if "cfgOf s b = Some c" "moveNode b m c s1 = Some s'" "admits s b c m s1" for b c m s1
    using that by (auto simp: moveNode_def intro: node_moves.intros)
  show ?thesis
  proof (cases act)
    case (Local b m)
    with assms(2) show ?thesis by (auto split: option.splits if_splits intro!: moved admits_local inv)
  next
    case (SetTimer b t)
    with assms(2) show ?thesis
      by (auto simp del: admits.simps split: option.splits if_splits intro!: moved admits_timers)
  next
    case (Fire b t)
    with assms(2) show ?thesis
      by (auto simp del: admits.simps split: option.splits if_splits intro!: moved admits_timers)
  next
    case (Deliver b a i cb)
    with assms(2) show ?thesis
      by (auto simp del: admits.simps split: option.splits if_splits intro!: moved admits_deliver inv)
  next
    case (Reply a i cb rs)
    with assms(2) show ?thesis
      by (auto simp del: admits.simps split: option.splits if_splits intro!: moved intro: admits_reply [OF inv])
  next
    case (Fail a i e)
    with assms(2) show ?thesis
      by (auto simp: backed_def split: option.splits if_splits intro!: moved)
  qed
qed

lemma voteChild_cases:
  assumes "kidOk b g (Live ch (Yield q w k))" "backed ch r (k_ballots g)"
  shows "kidOk b g (Live ch (k r w1))"
  using assms by (fastforce simp: kidOk_def backed_def voteChild_def split: response.split)

text \<open>The move runs a stretch of the main coroutine, or of a spawned one.\<close>

lemma move_stretch:
  assumes inv: "nodeInv M (knowledgeOf s b c) W b c" and mv: "do_move m c = Some c'"
    and adm: "admits s b c m s1" and fin: "finite M"
  obtains (main) p where "c' = after_main p c" "okm M (GStretch M) (QPC M) p (shared c) (knowledgeOf s1 b c)"
    | (kid) i kd ch p where "c' = after_kid i ch p c" "kids c i = Some kd" "childOf kd = ch"
        "kidOk b (knowledgeOf s b c) (Live ch p)" "GKid (shared c) (world_of p)" "s1 = s"
proof -
  let ?g = "knowledgeOf s b c"
  have ok: "mainOk M (main c) (shared c) ?g" "fits M (shared c)" "self (shared c) = b" "nc.cfg_inv c"
    using inv by (simp_all add: nodeInv_def)
  have id: "meanwhile (shared c) ?g (shared c) ?g"
    by (rule meanwhile_idle) (use inv in \<open>auto simp: nodeInv_def fits_def ballotsOk_def\<close>)
  show thesis
  proof (cases m)
    case MainLoop
    with mv ok adm fin show thesis
      by (auto split: step.splits if_splits intro!: main main_seg_ok simp: mainOk_def)
  next
    case (MainIO r)
    with mv ok adm id show thesis by (auto split: step.splits intro!: main simp: mainOk_def)
  next
    case MainAwait
    with mv obtain p w k ch v w' where a: "main c = Await p w k" "kids c p = Some (Live ch (Done (KVote v) w'))"
        "c' = after_main (k v (shared c)) c"
      by (auto split: step.splits option.splits kid.splits kidResult.splits)
    with inv have "mayVote p v ?g"
      by (fastforce simp: mayVote_def nodeInv_def kidOk_def voteChild_def)
    with a MainAwait ok adm id show thesis by (auto intro!: main simp: mainOk_def)
  next
    case (KidStart i)
    with mv obtain ch where f: "kids c i = Some (Fresh ch)" "c' = after_kid i ch (childBody ch (shared c)) c"
      by (auto split: option.splits kid.splits)
    with inv have "kidOk b ?g (Live ch (childBody ch (shared c)))"
      by (fastforce simp: nodeInv_def kidOk_def)
    with f KidStart adm nc.kid_guarantee(1) [OF ok(4) f(1)] show thesis by (intro kid) auto
  next
    case (KidIO i r)
    with mv obtain ch q w k where f: "kids c i = Some (Live ch (Yield q w k))" "c' = after_kid i ch (k r (shared c)) c"
      by (auto split: option.splits kid.splits step.splits)
    with inv adm KidIO have "kidOk b ?g (Live ch (k r (shared c)))"
      by (intro voteChild_cases [of b ?g ch q w k]) (auto simp: nodeInv_def knowledgeOf_def)
    with f KidIO adm nc.kid_guarantee(2) [OF ok(4) f(1)] show thesis by (intro kid) auto
  qed
qed

section \<open>Steps of a cluster\<close>

text \<open>Seen from the ballot box: the new vote of a node is cast, then the node may be elected.\<close>

lemma box_moves:
  assumes "ballotsOk b g w" "vote_le w w'" "k_ballots g = bs"
    and "currentRole w' = roleLeader \<Longrightarrow> (voteLastTerm w', b) \<in> W
      \<or> quorumOf (card M) \<le> int (card (votersOf M (bs \<union> ownBallot b w') (voteLastTerm w') b))"
  shows "(box_step M)\<^sup>*\<^sup>* \<lparr>bx_ballots = bs, bx_elected = W\<rparr> \<lparr>bx_ballots = ownBallot b w' \<union> bs,
    bx_elected = (if currentRole w' = roleLeader then insert (voteLastTerm w', b) W else W)\<rparr>"
proof -
  let ?x = "\<lparr>bx_ballots = bs, bx_elected = W\<rparr>" and ?y = "\<lparr>bx_ballots = ownBallot b w' \<union> bs, bx_elected = W\<rparr>"
  have uniq: "x = voteLastCandidate w'" if "voteLastCandidate w' \<noteq> []" "(b, voteLastTerm w', x) \<in> bs" for x
    using that assms(1-3) unfolding ballotsOk_def vote_le_def
    by (force simp: ownBallot_def order.strict_iff_order split: if_splits)
  have "(box_step M)\<^sup>*\<^sup>* ?x ?y"
  proof (cases "voteLastCandidate w' = []")
    case False
    from box_step.cast [of b "voteLastTerm w'" ?x "voteLastCandidate w'" M] uniq [OF False] False
    have "box_step M ?x ?y" by (auto simp: ownBallot_def)
    then show ?thesis by blast
  qed (simp add: ownBallot_def)
  moreover have "(box_step M)\<^sup>*\<^sup>* ?y (?y\<lparr>bx_elected := (if currentRole w' = roleLeader
      then insert (voteLastTerm w', b) W else W)\<rparr>)"
  proof (cases "currentRole w' = roleLeader \<and> (voteLastTerm w', b) \<notin> W")
    case True
    with assms(4) have "box_step M ?y (?y\<lparr>bx_elected := insert (voteLastTerm w', b) (bx_elected ?y)\<rparr>)"
      by (intro box_step.elect) (simp add: Un_commute)
    with True show ?thesis by auto
  qed (auto simp: insert_absorb)
  ultimately have "(box_step M)\<^sup>*\<^sup>* ?x (?y\<lparr>bx_elected := (if currentRole w' = roleLeader
      then insert (voteLastTerm w', b) W else W)\<rparr>)" by (rule rtranclp_trans)
  then show ?thesis by simp
qed

lemma leads_elected:
  assumes "leadsRightly M g w w'" "currentRole w' = roleLeader" "currentRole w = roleLeader \<Longrightarrow> (voteLastTerm w, self w') \<in> W"
  shows "(voteLastTerm w', self w') \<in> W
    \<or> quorumOf (card M) \<le> int (card (votersOf M (k_ballots g \<union> ownBallot (self w') w') (voteLastTerm w') (self w')))"
  using assms by (auto simp: leadsRightly_def sameVote_def elected_def votersFor_def)

text \<open>The node that moves keeps its invariant, and does only what the box allows.\<close>

lemma mover_ok:
  assumes inv: "nodeInv M (knowledgeOf s b c) (winners s) b c" and fin: "finite M"
    and mv: "do_move m c = Some c'" and adm: "admits s b c m s1"
    and terms: "currentTerm (shared c) \<noteq> - 1" "currentTerm (shared c) \<le> currentTerm (shared c')"
  shows "nodeInv M (knowledgeOf (observe b c' s1) b c') (winners (observe b c' s1)) b c'
    \<and> (box_step M)\<^sup>*\<^sup>* (boxOf s) (boxOf (observe b c' s1))"
proof -
  let ?g = "knowledgeOf s b c" and ?s' = "observe b c' s1"
  have step: "node_step c c'" using mv by (rule do_move_step)
  have v: "vote_le (shared c) (shared c')" using inv inv_step_vote [OF _ step terms] by (simp add: nodeInv_def)
  have s1: "ballots s1 = ballots s" "winners s1 = winners s" "callsTo b s \<subseteq>\<^sub>m callsTo b s1" using adm by (cases m; simp)+
  have i: "self (shared c) = b" "ballotsOk b ?g (shared c)"
      "currentRole (shared c) = roleLeader \<Longrightarrow> (voteLastTerm (shared c), b) \<in> winners s"
    using inv by (simp_all add: nodeInv_def)
  note box = box_moves [OF i(2) v, of "ballots s" "winners s" M]
  from inv mv adm fin show ?thesis
  proof (cases rule: move_stretch)
    case (main p)
    have st: "GStretch M (knowledgeOf s1 b c) (shared c) (world_of p)" by (rule okm_guarantee [OF main(2)])
    then have "self (world_of p) = b" using i(1) by (simp add: GStretch_def keepsNode_def)
    with leads_elected [of M "knowledgeOf s1 b c" "shared c" "world_of p" "winners s"] st i(3)
    have "(box_step M)\<^sup>*\<^sup>* (boxOf s) (boxOf ?s')"
      unfolding boxOf_def observe_simps s1
      by (intro box) (auto simp: knowledgeOf_def GStretch_def main(1) after_main_def s1)
    moreover have "nodeInv M (knowledgeOf ?s' b c') (winners ?s') b c'"
      by (rule main_move_inv [OF inv main(2) _ _ _ step main(1) terms]) (auto simp: knowledgeOf_def s1)
    ultimately show ?thesis by simp
  next
    case (kid i kd ch p)
    have same: "currentRole (shared c') = currentRole (shared c)" "voteLastTerm (shared c') = voteLastTerm (shared c)"
      using kid(1,5) by (simp_all add: after_kid_def GKid_def)
    have "nodeInv M (knowledgeOf ?s' b c') (winners ?s') b c'"
      by (rule kid_move_inv [OF inv kid(2-5) step kid(1) terms]) (auto simp: knowledgeOf_def kid(6))
    moreover have "(box_step M)\<^sup>*\<^sup>* (boxOf s) (boxOf ?s')"
      unfolding boxOf_def observe_simps s1 using i(3) same by (intro box) (auto simp: knowledgeOf_def)
    ultimately show ?thesis by simp
  qed
qed

lemma rising_step_ok:
  assumes inv: "clusterInv M s" and step: "rising_step s s'"
  shows "clusterInv M s' \<and> (box_step M)\<^sup>*\<^sup>* (boxOf s) (boxOf s')"
proof -
  from step inv have "node_moves s s'" by (auto simp: rising_step_def cluster_step_def dest: cluster_move_admits)
  then show ?thesis
  proof cases
    case (1 b c m c' s1)
    have c: "nodeInv M (knowledgeOf s b c) (winners s) b c" "finite M" "b \<in> fst ` set (cfgs s)"
      using inv 1(2) by (auto simp: clusterInv_def dest: map_of_SomeD intro: rev_image_eqI)
    have "currentTerm (shared c) \<noteq> - 1" "currentTerm (shared c) \<le> currentTerm (shared c')"
      using step 1 by (auto simp: rising_step_def termsRise_def list_all_iff dest!: map_of_SomeD)
    note ok = mover_ok [OF c(1,2) 1(3,4) this]
    have s1: "cfgs s1 = cfgs s" "ballots s1 = ballots s" "winners s1 = winners s"
      "b' \<noteq> b \<Longrightarrow> knowledgeOf s1 b' d = knowledgeOf s b' d" for b' d
      using 1(4) by (cases m; simp)+
    have "nodeInv M (knowledgeOf s' b' d) (winners s') b' d" if "cfgOf s' b' = Some d" for b' d
    proof (cases "b' = b")
      case True
      with that 1(1) ok show ?thesis by simp
    next
      case False
      with that 1(1) s1(1) inv have "nodeInv M (knowledgeOf s b' d) (winners s) b' d" by (simp add: clusterInv_def)
      then show ?thesis
        by (rule nodeInv_idle)
          (use False s1(2,3) s1(4) [OF False, of d] 1(1) in \<open>auto simp: knowledgeOf_def ownBallot_def split: if_splits\<close>)
    qed
    moreover have "map fst (cfgs s') = map fst (cfgs s)" using 1(1) s1(1) c(3) by (simp add: observe_def fst_update)
    ultimately show ?thesis using ok inv 1(1) unfolding clusterInv_def by (metis list.set_map)
  qed
qed

section \<open>Runs of a cluster\<close>

lemma fresh_init:
  assumes "fresh_node n"
  shows "self n \<noteq> []" "outputs (shared (initCfg n)) = []" "voteLastCandidate (shared (initCfg n)) = []"
    "currentRole (shared (initCfg n)) = roleFollower" "currentPeers (shared (initCfg n)) = currentPeers n"
    "kids (initCfg n) = Map.empty" "\<exists>w. main (initCfg n) = Done RunSwitch w"
  using assms
  by (auto simp: fresh_node_def NewNode_def applyDefaults_def initCfg_def runStart_def
      settle_def world_of_node_def node.defs world.defs Let_def split: if_splits)

lemma init_nodeInv:
  assumes "formed ns" "n \<in> set ns"
  shows "nodeInv (self ` set ns) (knowledgeOf (initCluster ns) (self n) (initCfg n)) {} (self n) (initCfg n)"
proof -
  have f: "fresh_node n" "distinct (map Address (currentPeers n))" "Address ` set (currentPeers n) = self ` set ns"
    using assms by (auto simp: formed_def)
  note i = fresh_init [OF f(1)] fresh_world [OF f(1)]
  have "nc.cfg_inv (initCfg n)" "vc.cfg_inv (initCfg n)" by (rule nc.init_inv vc.init_inv, simp)+
  moreover have "fits (self ` set ns) (shared (initCfg n))" using i f(2,3) assms(2) by (simp add: fits_def)
  ultimately show ?thesis
    using i by (auto simp: nodeInv_def mainOk_def answersOk_def answersIn_def ballotsOk_def ownBallot_def
        knowledgeOf_def initCluster_def)
qed

lemma init_clusterInv: "formed ns \<Longrightarrow> clusterInv (self ` set ns) (initCluster ns)"
  using init_nodeInv [of ns]
  by (auto simp: clusterInv_def initCluster_def formed_def comp_def image_image dest!: map_of_SomeD)

interpretation cb: refines rising_step "box_step M" boxOf "clusterInv M" for M
  by unfold_locales (use rising_step_ok in blast)+

lemma boxOf_init: "boxOf (initCluster ns) = emptyBox"
  by (simp add: boxOf_def initCluster_def emptyBox_def)

lemma rising_run:
  assumes "formed ns" "rising_step\<^sup>*\<^sup>* (initCluster ns) s"
  shows "clusterInv (self ` set ns) s" "(box_step (self ` set ns))\<^sup>*\<^sup>* emptyBox (boxOf s)"
  using cb.runs [OF assms(2) init_clusterInv [OF assms(1)]] by (simp_all add: boxOf_init)

end
