(* ===== verification/Cluster_Properties.thy ===== *)
theory Cluster_Properties
  imports Cluster_Safety
begin

text \<open>
  Election safety of a cluster, and runs of a cluster of three nodes that show where it ends:
  a late heartbeat answer that lowers the term of a node lets two nodes be elected for one
  term, and one that raises the term of a leader lets two leaders show the same term.
\<close>

section \<open>A cluster of three nodes\<close>

definition threeNodes :: "node list" where
  "threeNodes = map (\<lambda>b. sampleNode b [''a'', ''b'', ''c'']) [''a'', ''b'', ''c'']"

text \<open>Pieces of a run: a node enters the follower loop, gives up waiting for a leader at time 1000 or
  later, stands for election with the timers \<open>t\<close> and \<open>t + 1\<close>, starts its two coroutines, collects
  two votes of which one is enough, or both fail; a node reads the clock in a handler.\<close>

definition follow :: "string \<Rightarrow> timer_id \<Rightarrow> action list" where
  "follow x t = [Local x MainLoop, SetTimer x t, SetTimer x (t + 1), Local x MainLoop]"

definition giveUp :: "string \<Rightarrow> timer_id \<Rightarrow> gotime \<Rightarrow> action list" where
  "giveUp x t now = [Fire x t, Local x (MainIO (nowIs now)), Local x (MainIO (resp_of Cancel))]"

definition stand :: "string \<Rightarrow> timer_id \<Rightarrow> nat \<Rightarrow> action list" where
  "stand x t i = [Local x MainLoop, SetTimer x t, SetTimer x (t + 1), Local x MainLoop, Fire x t,
     Local x (KidStart i), Local x (KidStart (Suc i))]"

definition lose :: "string \<Rightarrow> timer_id \<Rightarrow> action list" where
  "lose x t = [Local x MainAwait, Local x MainAwait, Local x MainLoop, Fire x (t + 1), Local x (MainIO (resp_of Cancel))]"

definition win :: "string \<Rightarrow> timer_id \<Rightarrow> action list" where
  "win x t = [Local x MainAwait, Local x MainAwait, Local x (MainIO (resp_of Cancel)),
     Local x (MainIO (resp_of Cancel)), Local x MainLoop, SetTimer x t, SetTimer x (t + 1), Local x MainLoop]"

definition clock :: "string \<Rightarrow> action list" where
  "clock x = [Local x (MainIO (nowIs 1000)), Local x MainLoop]"

definition granting :: "u64 \<Rightarrow> rpcResponse" where
  "granting t = \<lparr>rp_RPC = VoteRPC, rp_Response = VoteResp \<lparr>vp_Term = t, vp_Granted = True\<rparr>, rp_Error = []\<rparr>"

definition beating :: "u64 \<Rightarrow> rpcResponse" where
  "beating t = \<lparr>rp_RPC = HeartBeatRPC, rp_Response = HeartBeatResp \<lparr>hp_Term = t, hp_Metadata = None\<rparr>, rp_Error = []\<rparr>"

text \<open>Node \<open>a\<close> is elected for term 1, with the vote of \<open>b\<close>. Node \<open>c\<close> stands in term 1, in vain, and
  in term 2, in which \<open>b\<close> votes for it.\<close>

definition firstLeader :: "action list" where
  "firstLeader = follow ''b'' 1 @ follow ''a'' 1 @ giveUp ''a'' 1 1000 @ stand ''a'' 3 0 @
     Deliver ''b'' ''a'' 0 100 # clock ''b'' @
     [Reply ''a'' 0 100 (granting 1), Fail ''a'' 1 ErrDropped] @ win ''a'' 5"

definition secondCandidate :: "action list" where
  "secondCandidate = follow ''c'' 1 @ giveUp ''c'' 1 1000 @ stand ''c'' 3 0 @
     [Fail ''c'' 0 ErrDropped, Fail ''c'' 1 ErrDropped] @ lose ''c'' 3 @ stand ''c'' 5 2 @
     Deliver ''b'' ''c'' 3 101 # clock ''b'' @ [Fail ''c'' 2 ErrDropped]"

text \<open>The leader sends a heartbeat to \<open>b\<close>, which is in term 2 by now; the answer stays on its way.\<close>

definition heartBeatSent :: "action list" where
  "heartBeatSent = [Fire ''a'' 5, SetTimer ''a'' 7, Local ''a'' MainLoop, Local ''a'' (KidStart 2),
     Deliver ''b'' ''a'' 2 102] @ clock ''b''"

definition answerArrives :: "action list" where
  "answerArrives = [Reply ''a'' 2 102 (beating 2), Local ''a'' (KidIO 2 (nowIs 1000))]"

text \<open>Node \<open>a\<close> resigns. Node \<open>c\<close>, which has not heard of the vote of \<open>b\<close>, stands in term 3 and is elected
  with the vote of \<open>a\<close>.\<close>

definition thirdTerm :: "action list" where
  "thirdTerm = [Local ''a'' (MainIO (eventResp (event_of EventResign))), Local ''a'' (MainIO (resp_of Cancel)),
      Local ''a'' (MainIO (resp_of Cancel))] @ follow ''a'' 8 @
     Fail ''c'' 3 ErrDropped # lose ''c'' 5 @ stand ''c'' 7 4 @
     Deliver ''a'' ''c'' 4 103 # clock ''a'' @
     [Reply ''c'' 4 103 (granting 3), Fail ''c'' 5 ErrDropped] @ win ''c'' 9"

text \<open>Only now the heartbeat answer arrives, and \<open>a\<close> stands.\<close>

definition thirdTermAgain :: "action list" where
  "thirdTermAgain = answerArrives @ giveUp ''a'' 8 2000 @ stand ''a'' 10 6 @
     Deliver ''b'' ''a'' 6 104 # clock ''b'' @
     [Reply ''a'' 6 104 (granting 3), Fail ''a'' 7 ErrDropped] @ win ''a'' 12"

definition showsLeader :: "string \<Rightarrow> u64 \<Rightarrow> cluster \<Rightarrow> bool" where
  "showsLeader b t s = (case cfgOf s b of
     None \<Rightarrow> False
   | Some c \<Rightarrow> currentRole (shared c) = roleLeader \<and> ns_IsLeader (GetState (shared c)) \<and> ns_Term (GetState (shared c)) = t)"

lemma threeNodes_formed: "formed threeNodes"
proof -
  have m: "map self threeNodes = [''a'', ''b'', ''c'']" by code_simp
  have p: "map Address (currentPeers n) = [''a'', ''b'', ''c'']" if "n \<in> set threeNodes" for n
  proof -
    have "list_all (\<lambda>n. map Address (currentPeers n) = [''a'', ''b'', ''c'']) threeNodes" by code_simp
    with that show ?thesis by (simp add: list_all_iff)
  qed
  have "Address ` set (currentPeers n) = self ` set threeNodes" if "n \<in> set threeNodes" for n
    using arg_cong [OF p [OF that], of set] arg_cong [OF m, of set] by simp
  moreover have "fresh_node n" if "n \<in> set threeNodes" for n
    using that by (auto simp: threeNodes_def intro: sampleNode_fresh)
  ultimately show ?thesis using p m by (simp add: formed_def)
qed

lemma computed_run:
  "map_option P (perform acts s) = Some True \<Longrightarrow> \<exists>s'. cluster_step\<^sup>*\<^sup>* s s' \<and> P s'"
  "map_option P (perform_rising acts s) = Some True \<Longrightarrow> \<exists>s'. rising_step\<^sup>*\<^sup>* s s' \<and> P s'"
  using perform_steps perform_rising_steps by fastforce+

section \<open>Safety\<close>

text \<open>C2. Every run of a cluster in which no node lowers its term is a run of the ballot box: each
  step of a node casts at most one ballot, for a term in which the node has voted for nobody
  else, and makes a node leader only if it has the ballots of a quorum of the members.\<close>

theorem cluster_refines_box:
  assumes "formed ns" and "rising_step\<^sup>*\<^sup>* (initCluster ns) s"
  shows "(box_step (self ` set ns))\<^sup>*\<^sup>* emptyBox \<lparr>bx_ballots = ballots s, bx_elected = winners s\<rparr>"
  using rising_run(2) [OF assms] by (simp add: boxOf_def)

theorem cluster_refines_box_witness:
  "\<exists>s. formed threeNodes \<and> rising_step\<^sup>*\<^sup>* (initCluster threeNodes) s
    \<and> (''b'', 1, ''a'') \<in> ballots s \<and> (1, ''a'') \<in> winners s
    \<and> (box_step (self ` set threeNodes))\<^sup>*\<^sup>* emptyBox \<lparr>bx_ballots = ballots s, bx_elected = winners s\<rparr>"
proof -
  have "map_option (\<lambda>s. (''b'', 1, ''a'') \<in> ballots s \<and> (1, ''a'') \<in> winners s)
      (perform_rising firstLeader (initCluster threeNodes)) = Some True"
    by code_simp
  from computed_run(2) [OF this] show ?thesis
    using threeNodes_formed cluster_refines_box [OF threeNodes_formed] by blast
qed

text \<open>C1. Election safety. In a cluster whose nodes start with the same peer list, whatever the order
  in which coroutines, timers, messages and answers come, lost, late or repeated: as long as
  no node lowers its term, at most one node is ever elected with votes of a given term. Every
  node in the leader role has been elected with the term of its own vote, so two leaders with
  votes of the same term are one node.\<close>

theorem election_safety:
  assumes "formed ns" and "rising_step\<^sup>*\<^sup>* (initCluster ns) s"
  shows "((t, a) \<in> winners s \<and> (t, b) \<in> winners s \<longrightarrow> a = b)
    \<and> (cfgOf s a = Some c \<and> currentRole (shared c) = roleLeader \<longrightarrow> (voteLastTerm (shared c), a) \<in> winners s)"
  using rising_run [OF assms] elected_unique [OF rising_run(2) [OF assms]]
  by (auto simp: boxOf_def clusterInv_def nodeInv_def)

theorem election_safety_witness:
  "\<exists>s. formed threeNodes \<and> rising_step\<^sup>*\<^sup>* (initCluster threeNodes) s
    \<and> (1, ''a'') \<in> winners s \<and> (3, ''c'') \<in> winners s \<and> (3, ''a'') \<notin> winners s"
proof -
  have "map_option (\<lambda>s. (1, ''a'') \<in> winners s \<and> (3, ''c'') \<in> winners s)
      (perform_rising (firstLeader @ secondCandidate @ heartBeatSent @ thirdTerm) (initCluster threeNodes)) = Some True"
    by code_simp
  from computed_run(2) [OF this] obtain s where s: "rising_step\<^sup>*\<^sup>* (initCluster threeNodes) s"
    "(1, ''a'') \<in> winners s" "(3, ''c'') \<in> winners s" by blast
  from election_safety [OF threeNodes_formed s(1), of 3 "''a''" "''c''"] s(3) have "(3, ''a'') \<notin> winners s" by auto
  with s threeNodes_formed show ?thesis by blast
qed

text \<open>C6. The limit of election safety. A heartbeat answer that comes late sets the term of the node
  that asked to the answered term, also when the node is in a higher term by then. A node that
  has voted in term 3 so falls back to term 2 and stands in term 3 itself: there is a run of a
  cluster of three in which two nodes are leaders at the same time, both elected for term 3.\<close>

theorem late_heartbeat_two_leaders:
  "\<exists>s. cluster_step\<^sup>*\<^sup>* (initCluster threeNodes) s
    \<and> (3, ''a'') \<in> winners s \<and> (3, ''c'') \<in> winners s \<and> showsLeader ''a'' 3 s \<and> showsLeader ''c'' 3 s"
  by (rule computed_run(1) [where acts = "firstLeader @ secondCandidate @ heartBeatSent @ thirdTerm @ thirdTermAgain"])
    code_simp

text \<open>C7. A leader whose heartbeat is answered with a higher term takes this term over and goes on as
  leader. So two nodes can show themselves as leaders of the same term, even though no node
  has lowered its term and they were elected for different ones.\<close>

theorem two_leaders_show_one_term:
  "\<exists>s. rising_step\<^sup>*\<^sup>* (initCluster threeNodes) s
    \<and> (1, ''a'') \<in> winners s \<and> (2, ''c'') \<in> winners s \<and> showsLeader ''a'' 2 s \<and> showsLeader ''c'' 2 s"
  by (rule computed_run(2) [where acts = "firstLeader @ secondCandidate @ Reply ''c'' 3 101 (granting 2) # win ''c'' 7 @
      heartBeatSent @ answerArrives"])
    code_simp

end
