(* ===== verification/Node_Scenarios.thy ===== *)
theory Node_Scenarios
  imports Node_Properties
begin

text \<open>
  Runs of a single node that show where the code departs from its documents, or from what a
  reader of the code expects. Each is a reachable configuration, computed from an explicit
  sequence of resumptions.
\<close>

text \<open>A candidate that entered the role with one peer, is then given five peers, and gets no
  vote but its own.\<close>

definition refused :: "nat \<Rightarrow> move list" where
  "refused i = [KidStart i, KidIO i (voteAnswer 1 False)]"

definition grownCluster :: "move list" where
  "grownCluster = toCandidate
     @ [MainIO (eventResp ((event_of EventSetPeers)\<lparr>ev_Peers := [''a'', ''b'', ''c'', ''d'', ''e'']\<rparr>)),
        MainLoop, MainIO (fired 3)]
     @ concat (map refused [0, 1, 2, 3])
     @ [MainAwait, MainAwait, MainAwait, MainAwait, MainIO (resp_of Cancel), MainIO (resp_of Cancel)]"

text \<open>C26. The vote count a candidate needs is fixed when it enters the role. A node that becomes
  candidate alone and is then given four more peers wins the election with its own vote
  only: all four peers refuse, and it is the leader of five peers whose quorum is three.\<close>

theorem stale_votes_needed:
  "\<exists>c. reachable (sampleNode ''a'' [''a'']) c \<and> currentRole (shared c) = roleLeader
     \<and> IsLeader (shared c) \<and> length (currentPeers (shared c)) = 5 \<and> quorumSize (shared c) = 3
     \<and> run_moves grownCluster (initCfg (sampleNode ''a'' [''a''])) = Some c
     \<and> (\<forall>i t. KidIO i (voteAnswer t True) \<notin> set grownCluster)"
proof -
  let ?n = "sampleNode ''a'' [''a'']"
  have b: "\<not> badTimeouts (shared (initCfg ?n))" by (simp add: sampleNode_timeouts)
  have "map_option (\<lambda>c. currentRole (shared c) = roleLeader \<and> IsLeader (shared c)
          \<and> length (currentPeers (shared c)) = 5 \<and> quorumSize (shared c) = 3)
      (run_moves grownCluster (initCfg ?n)) = Some True"
    by code_simp
  then obtain c where r: "run_moves grownCluster (initCfg ?n) = Some c"
    and "currentRole (shared c) = roleLeader \<and> IsLeader (shared c)
      \<and> length (currentPeers (shared c)) = 5 \<and> quorumSize (shared c) = 3" by auto
  moreover have "\<forall>i t. KidIO i (voteAnswer t True) \<notin> set grownCluster"
    by (auto simp: grownCluster_def toCandidate_def refused_def voteAnswer_def answered_def resp_of_def)
  ultimately show ?thesis using reachable_run_moves [OF b reachable.init r] by blast
qed

text \<open>A candidate shown as a follower: after the heartbeat timeout the node runs as a candidate
  in its candidate loop, and the published role is still follower.\<close>

theorem candidate_shown_as_follower:
  "\<exists>c. reachable (sampleNode ''a'' [''a'', ''b'', ''c'']) c
     \<and> currentRole (shared c) = roleCandidate \<and> ns_Role (GetState (shared c)) = role_code roleFollower"
proof (rule run_moves_reaches)
  show "map_option (\<lambda>c. currentRole (shared c) = roleCandidate
       \<and> ns_Role (GetState (shared c)) = role_code roleFollower)
     (run_moves toCandidate (initCfg (sampleNode ''a'' [''a'', ''b'', ''c'']))) = Some True"
    by code_simp
qed (simp add: sampleNode_timeouts)

text \<open>A stopped leader still claims to lead: after a shutdown the main coroutine has returned,
  and \<open>IsLeader\<close> is still true.\<close>

theorem stopped_leader_claims_leadership:
  "\<exists>c w. reachable (sampleNode ''a'' [''a'', ''b'', ''c'']) c
     \<and> main c = Done Returned w \<and> IsLeader (shared c)"
proof -
  have "\<exists>c. reachable (sampleNode ''a'' [''a'', ''b'', ''c'']) c
     \<and> ((case main c of Done Returned w \<Rightarrow> True | _ \<Rightarrow> False) \<and> IsLeader (shared c))"
  proof (rule run_moves_reaches)
    show "map_option (\<lambda>c. (case main c of Done Returned w \<Rightarrow> True | _ \<Rightarrow> False) \<and> IsLeader (shared c))
       (run_moves (toCandidate @ winThree @ [MainIO (eventResp (event_of EventShutdown)),
           MainIO (resp_of Cancel), MainIO (resp_of Cancel), MainLoop])
         (initCfg (sampleNode ''a'' [''a'', ''b'', ''c'']))) = Some True"
      by code_simp
  qed (simp add: sampleNode_timeouts)
  then obtain c where r: "reachable (sampleNode ''a'' [''a'', ''b'', ''c'']) c" "IsLeader (shared c)"
    and m: "case main c of Done Returned w \<Rightarrow> True | _ \<Rightarrow> False" by blast
  from m obtain w where "main c = Done Returned w" by (auto split: step.splits pc.splits)
  with r show ?thesis by blast
qed

text \<open>A stale heartbeat deposes the leader: the leader of term 1 receives a heartbeat of term 0,
  becomes a follower of its sender, and keeps term 1.\<close>

theorem stale_heartbeat_deposes_leader:
  "\<exists>c c' hb. reachable (sampleNode ''a'' [''a'', ''b'', ''c'']) c
     \<and> hq_Term hb < currentTerm (shared c)
     \<and> run_moves [MainIO (eventResp (rpcEvent HeartBeatRPC (HeartBeatReq hb) None)), MainIO (nowIs 2000)] c
         = Some c'
     \<and> currentRole (shared c) = roleLeader \<and> currentRole (shared c') = roleFollower
     \<and> currentLeader (shared c') = ''b'' \<and> currentTerm (shared c') = currentTerm (shared c)"
proof -
  let ?n = "sampleNode ''a'' [''a'', ''b'', ''c'']"
  define hb where "hb = \<lparr>hq_Term = 0, hq_Leader = ''b'', hq_Metadata = None\<rparr>"
  define ms where "ms = [MainIO (eventResp (rpcEvent HeartBeatRPC (HeartBeatReq hb) None)), MainIO (nowIs 2000)]"
  have b: "\<not> badTimeouts (shared (initCfg ?n))" by (simp add: sampleNode_timeouts)
  have "map_option (\<lambda>c. currentRole (shared c) = roleLeader \<and> hq_Term hb < currentTerm (shared c)
        \<and> map_option (\<lambda>c'. currentRole (shared c') = roleFollower \<and> currentLeader (shared c') = ''b''
             \<and> currentTerm (shared c') = currentTerm (shared c)) (run_moves ms c) = Some True)
      (run_moves (toCandidate @ winThree) (initCfg ?n)) = Some True"
    unfolding ms_def hb_def by code_simp
  from run_moves_reaches [OF b this] obtain c c' where "reachable ?n c" "currentRole (shared c) = roleLeader"
    "hq_Term hb < currentTerm (shared c)" "run_moves ms c = Some c'" "currentRole (shared c') = roleFollower"
    "currentLeader (shared c') = ''b''" "currentTerm (shared c') = currentTerm (shared c)" by auto
  then show ?thesis unfolding ms_def by blast
qed

end
