(* ===== verification/Role_Specs.thy ===== *)
theory Role_Specs
  imports Election_Specs
begin

text \<open>
  Construction of nodes, randomised timeouts, and what the role loops do with the events
  that come from the API: shutdown, resignation, new peers and new metadata.
\<close>

section \<open>Construction\<close>

lemma applyDefaults_sel:
  "ElectionTimeout (applyDefaults c) = (if ElectionTimeout c = 0 then 6 * second else ElectionTimeout c)"
  "HeartBeatTimeout (applyDefaults c) = (if HeartBeatTimeout c = 0 then 6 * second else HeartBeatTimeout c)"
  "LeaderQuorumTimeout (applyDefaults c) =
     (if LeaderQuorumTimeout c = 0 then 12 * second else LeaderQuorumTimeout c)"
  "NetworkTimeout (applyDefaults c) = (if NetworkTimeout c = 0 then 3 * second else NetworkTimeout c)"
  "UniqueID (applyDefaults c) = UniqueID c" "Peers (applyDefaults c) = Peers c"
  "confMetadata (applyDefaults c) = confMetadata c"
  by (simp_all add: applyDefaults_def Let_def)

lemma selfMetadata_find:
  assumes "find (\<lambda>p. Address p = a) (applySelfMetadata a md ps) = Some p"
  shows "Metadata p = md"
  using assms by (auto simp: applySelfMetadata_def setPeerMetadata_def find_map_first)

lemma selfMetadata_addresses:
  "map Address (applySelfMetadata a md (peersFromStrings as)) = as"
  by (simp add: applySelfMetadata_def setPeerMetadata_def map_map_first peersFromStrings_def comp_def)

text \<open>C16. A new node is built exactly if it has an id and a way to send requests. It is a
  follower in term 0 without leader or vote; unset timeouts get their defaults; the peers
  are the configured ones, in order, and the node's own entry carries its metadata.\<close>

theorem NewNode_result:
  assumes "NewNode c draws = Inr n"
  shows "UniqueID c \<noteq> [] \<and> hasSendRPC c
    \<and> ElectionTimeout (conf n) = (if ElectionTimeout c = 0 then 6 * second else ElectionTimeout c)
    \<and> HeartBeatTimeout (conf n) = (if HeartBeatTimeout c = 0 then 6 * second else HeartBeatTimeout c)
    \<and> LeaderQuorumTimeout (conf n) = (if LeaderQuorumTimeout c = 0 then 12 * second else LeaderQuorumTimeout c)
    \<and> NetworkTimeout (conf n) = (if NetworkTimeout c = 0 then 3 * second else NetworkTimeout c)
    \<and> map Address (currentPeers n) = Peers c
    \<and> (\<forall>p. find (\<lambda>p. Address p = self n) (currentPeers n) = Some p \<longrightarrow> Metadata p = confMetadata c)
    \<and> GetState n = \<lparr>ns_Leader = [], ns_IsLeader = False, ns_Term = 0, ns_Peers = currentPeers n,
        ns_Role = role_code (currentRole n)\<rparr>
    \<and> currentRole n = roleFollower \<and> currentTerm n = 0 \<and> voteLastCandidate n = []"
proof -
  from assms have c: "UniqueID c \<noteq> []" "hasSendRPC c" by (auto simp: NewNode_def split: if_splits)
  with assms have "conf n = applyDefaults c" "self n = UniqueID c"
    "currentPeers n = applySelfMetadata (UniqueID c) (confMetadata c) (peersFromStrings (Peers c))"
    "a_peers n = currentPeers n" "a_leader n = []" "\<not> a_isLeader n" "a_term n = 0" "a_role n = 0"
    "currentRole n = roleFollower" "currentTerm n = 0" "voteLastCandidate n = []"
    by (auto simp: NewNode_def Let_def applyDefaults_sel)
  with c show ?thesis
    by (auto simp: applyDefaults_sel selfMetadata_addresses GetState_def GetLeader_def dest: selfMetadata_find)
qed

theorem NewNode_result_witness:
  "\<exists>n. NewNode ((sampleConf ''a'' [''a'', ''b''])\<lparr>HeartBeatTimeout := 0\<rparr>) (\<lambda>_. 0) = Inr n
    \<and> HeartBeatTimeout (conf n) = 6 * second \<and> map Address (currentPeers n) = [''a'', ''b'']"
proof -
  define c where "c = (sampleConf ''a'' [''a'', ''b''])\<lparr>HeartBeatTimeout := 0\<rparr>"
  have c: "UniqueID c = ''a''" "hasSendRPC c" "HeartBeatTimeout c = 0" "Peers c = [''a'', ''b'']"
    by (simp_all add: c_def sampleConf_def)
  then obtain n where n: "NewNode c (\<lambda>_. 0) = Inr n" by (simp add: NewNode_def Let_def)
  from NewNode_result [OF n] n c show ?thesis by (auto simp: c_def)
qed

section \<open>Randomised timeouts\<close>

text \<open>C17. A randomised timeout lies between the configured duration and twice that, for every
  positive duration up to half the range of 64-bit integers: no overflow and no panic.\<close>

theorem randomDuration_range:
  assumes "0 < d" and "d \<le> 2 ^ 62"
  shows "\<exists>r. randomDuration d n = Some (r, n\<lparr>rngPos := Suc (rngPos n)\<rparr>) \<and> d \<le> r \<and> r < 2 * d"
proof -
  define x where "x = rng n (rngPos n) mod 2 ^ 63"
  have x: "0 \<le> x" by (simp add: x_def)
  with assms have m: "x smod d = x mod d" by (simp add: smod_nonneg_eq)
  have b: "0 \<le> x mod d" "x mod d < d" using assms(1) by simp_all
  define y where "y = x mod d"
  have "minDuration \<le> d + y" "d + y \<le> maxDuration"
    using assms b unfolding y_def [symmetric] by (simp_all add: minDuration_def maxDuration_def)
  then have "wrap64 (d + x mod d) = d + x mod d" unfolding y_def by (rule wrap64_id)
  with m b assms(1) show ?thesis
    by (simp add: randomDuration_def Int63_def x_def Let_def)
qed

theorem randomDuration_range_witness:
  "(0::int) < 100 \<and> (100::int) \<le> 2 ^ 62 \<and>
   (\<exists>r. randomDuration 100 sampleWorld = Some (r, sampleWorld\<lparr>rngPos := Suc (rngPos sampleWorld)\<rparr>)
      \<and> 100 \<le> r \<and> r < 2 * 100)"
  using randomDuration_range [of 100 sampleWorld] by simp

section \<open>Entering a role\<close>

text \<open>C18. Unless a timeout is too small to be randomised, the switch of \<open>run\<close> reaches a state
  in which the node waits for its next event: it enters the loop of its role, which
  registers its timers and leaves role, term and vote alone; in the shutdown role it
  returns.\<close>

theorem run_reaches_receive:
  assumes "\<not> badTimeouts n"
  shows "\<exists>pc' n'. run_with io votes (main_seg RunSwitch n) = Some (pc', n')
    \<and> currentRole n' = currentRole n \<and> currentTerm n' = currentTerm n
    \<and> voteLastTerm n' = voteLastTerm n \<and> voteLastCandidate n' = voteLastCandidate n
    \<and> (if currentRole n = roleShutdown then pc' = Returned
       else \<exists>k. main_seg pc' n' = Yield recvReq n' k)"
proof -
  from assms have "HeartBeatTimeout (conf n) \<noteq> 0" "HeartBeatTimeout (conf n) sdiv 10 \<noteq> 0"
    "HeartBeatTimeout (conf n) sdiv 3 \<noteq> 0" "ElectionTimeout (conf n) \<noteq> 0"
    by (auto simp: badTimeouts_def sdiv_zero_iff)
  then show ?thesis
    by (cases "currentRole n")
      (auto simp: runFollower_def runCandidate_def runLeader_def randomDuration_def Int63_def Let_def)
qed

theorem run_reaches_receive_witness:
  "\<not> badTimeouts sampleWorld \<and>
   (\<exists>pc' n'. run_with (\<lambda>_. timerResp 1) noVotes (main_seg RunSwitch sampleWorld) = Some (pc', n')
      \<and> (\<exists>k. main_seg pc' n' = Yield recvReq n' k))"
proof -
  have b: "\<not> badTimeouts sampleWorld" and "currentRole sampleWorld = roleFollower" by code_simp+
  with run_reaches_receive [OF b, of "\<lambda>_. timerResp 1" noVotes] show ?thesis by auto
qed

section \<open>Events from the API\<close>

definition loopRole :: "pc \<Rightarrow> nrole option" where
  "loopRole p = (case p of FollowerLoop _ \<Rightarrow> Some roleFollower | CandidateLoop _ \<Rightarrow> Some roleCandidate
     | LeaderLoop _ \<Rightarrow> Some roleLeader | _ \<Rightarrow> None)"

text \<open>C19. A shutdown event ends the main coroutine from the loop of every role: the node takes
  the shutdown role and the switch of \<open>run\<close> returns. Only a leader tells its peers, with
  one reset request to each other peer; term, vote and leader are kept.\<close>

theorem shutdown_returns:
  assumes "loopRole p = Some (currentRole n)" and "ev_Kind (r_Event (io recvReq)) = EventShutdown"
  shows "\<exists>n'. run_with io votes (main_seg p n) = Some (RunSwitch, n')
    \<and> main_seg RunSwitch n' = Done Returned n' \<and> currentRole n' = roleShutdown
    \<and> currentTerm n' = currentTerm n \<and> currentLeader n' = currentLeader n
    \<and> voteLastTerm n' = voteLastTerm n \<and> voteLastCandidate n' = voteLastCandidate n
    \<and> map snd (spawned n') = map snd (spawned n)
        @ (if currentRole n = roleLeader then map ResetChild (otherPeers n) else [])"
  using assms
  by (auto simp: loopRole_def followerEvent_def candidateEvent_def leaderEvent_def cancelBoth_def
      sendElectionResets_eq otherPeers_def Let_def split: pc.splits)

theorem shutdown_returns_witness:
  "let n = sampleWorld\<lparr>currentRole := roleLeader\<rparr>;
       p = LeaderLoop \<lparr>l_heartbeatDelay = 33, l_heartbeatTimerID = 5, l_quorumTimerID = 6\<rparr>;
       io = (\<lambda>_. eventResp (event_of EventShutdown)) in
   (loopRole p = Some (currentRole n) \<and> ev_Kind (r_Event (io recvReq)) = EventShutdown) \<and>
   (\<exists>n'. run_with io noVotes (main_seg p n) = Some (RunSwitch, n') \<and> currentRole n' = roleShutdown
      \<and> map snd (spawned n') = [ResetChild ''b'', ResetChild ''c''])"
proof -
  define n where "n = sampleWorld\<lparr>currentRole := roleLeader\<rparr>"
  define p where "p = LeaderLoop \<lparr>l_heartbeatDelay = 33, l_heartbeatTimerID = 5, l_quorumTimerID = 6\<rparr>"
  define io :: "req \<Rightarrow> resp" where "io = (\<lambda>_. eventResp (event_of EventShutdown))"
  have h: "loopRole p = Some (currentRole n)" "ev_Kind (r_Event (io recvReq)) = EventShutdown"
    by (simp_all add: p_def n_def io_def loopRole_def eventResp_def event_of_def)
  have "otherPeers n = [''b'', ''c'']" "spawned n = []" "currentRole n = roleLeader"
    unfolding n_def by code_simp+
  with shutdown_returns [of p n io noVotes] h show ?thesis
    unfolding n_def [symmetric] p_def [symmetric] io_def [symmetric] Let_def by auto
qed

text \<open>C20. Resigning. In the leader role the event makes the node a follower without leader,
  tells every other peer to start an election and reports success; in the other roles it
  changes nothing but reports \<open>ErrNotLeader\<close>. The report is the last thing that
  happens.\<close>

theorem resign_result:
  assumes "loopRole p = Some (currentRole n)" and "ev_Kind (r_Event (io recvReq)) = EventResign"
    and "ev_Done (r_Event (io recvReq)) = Some cb"
  shows "\<exists>p' n' xs. run_with io votes (main_seg p n) = Some (p', n')
    \<and> outputs n' = outputs n @ xs @ [DoneCalled cb (if currentRole n = roleLeader then None else Some ErrNotLeader)]
    \<and> (if currentRole n = roleLeader
       then p' = RunSwitch \<and> currentRole n' = roleFollower \<and> currentLeader n' = []
         \<and> map snd (spawned n') = map snd (spawned n) @ map ResetChild (otherPeers n)
       else p' = p \<and> xs = [] \<and> n' = n\<lparr>outputs := outputs n'\<rparr>)"
proof -
  have o: "\<exists>xs. outputs (setLeader [] w) = outputs w @ xs" for w
    by (simp add: setLeader_def fireOnChange_def)
  show ?thesis
    using assms o [of "n\<lparr>currentRole := roleFollower, a_role := 0\<rparr>"]
    by (auto simp: loopRole_def followerEvent_def candidateEvent_def leaderEvent_def cancelBoth_def
        handleResign_def callDone_def sendElectionResets_eq otherPeers_def Let_def split: pc.splits)
qed

theorem resign_result_witness:
  "let n = sampleWorld\<lparr>currentRole := roleLeader\<rparr>;
       p = LeaderLoop \<lparr>l_heartbeatDelay = 33, l_heartbeatTimerID = 5, l_quorumTimerID = 6\<rparr>;
       io = (\<lambda>_. eventResp ((event_of EventResign)\<lparr>ev_Done := Some 8\<rparr>)) in
   (loopRole p = Some (currentRole n) \<and> ev_Kind (r_Event (io recvReq)) = EventResign
     \<and> ev_Done (r_Event (io recvReq)) = Some 8) \<and>
   (\<exists>n'. run_with io noVotes (main_seg p n) = Some (RunSwitch, n') \<and> currentRole n' = roleFollower
      \<and> last (outputs n') = DoneCalled 8 None)"
proof -
  define n where "n = sampleWorld\<lparr>currentRole := roleLeader\<rparr>"
  define p where "p = LeaderLoop \<lparr>l_heartbeatDelay = 33, l_heartbeatTimerID = 5, l_quorumTimerID = 6\<rparr>"
  define io :: "req \<Rightarrow> resp" where "io = (\<lambda>_. eventResp ((event_of EventResign)\<lparr>ev_Done := Some 8\<rparr>))"
  have h: "loopRole p = Some (currentRole n)" "ev_Kind (r_Event (io recvReq)) = EventResign"
    "ev_Done (r_Event (io recvReq)) = Some 8" and "currentRole n = roleLeader"
    by (simp_all add: p_def n_def io_def loopRole_def eventResp_def event_of_def)
  with resign_result [of p n io 8 noVotes] show ?thesis
    unfolding n_def [symmetric] p_def [symmetric] io_def [symmetric] Let_def by auto
qed

text \<open>C21. New peers and new metadata are taken over in every role without leaving it: the
  published list is the node's own, the addresses are the given ones (or unchanged), the
  node's own entry carries its metadata, the caller is told, and a leader sends a heartbeat
  round at once.\<close>

theorem set_peers_metadata_result:
  assumes "loopRole p = Some (currentRole n)" and "r_Event (io recvReq) = ev"
    and "ev_Kind ev = EventSetPeers \<or> ev_Kind ev = EventSetMetadata" and "ev_Done ev = Some cb"
  shows "\<exists>n'. run_with io votes (main_seg p n) = Some (p, n')
    \<and> outputs n' = outputs n @ [DoneCalled cb None] \<and> currentRole n' = currentRole n
    \<and> map Address (currentPeers n') =
        (if ev_Kind ev = EventSetPeers then ev_Peers ev else map Address (currentPeers n))
    \<and> currentMetadata n' = (if ev_Kind ev = EventSetPeers then currentMetadata n else ev_Metadata ev)
    \<and> (\<forall>q. find (\<lambda>q. Address q = self n) (currentPeers n') = Some q \<longrightarrow> Metadata q = currentMetadata n')
    \<and> ns_Peers (GetState n') = currentPeers n'
    \<and> map snd (spawned n') = map snd (spawned n) @
        (if currentRole n = roleLeader
         then map (\<lambda>a. HeartBeatChild a (currentTerm n) (self n) (currentMetadata n')) (otherPeers n') else [])"
proof -
  have addr: "map Address (applySelfMetadata a md ps) = map Address ps" for a md ps
    by (simp add: applySelfMetadata_def setPeerMetadata_def map_map_first)
  from assms(3) show ?thesis
  proof
    assume "ev_Kind ev = EventSetPeers"
    with assms show ?thesis
      by (auto simp: loopRole_def followerEvent_def candidateEvent_def leaderEvent_def
          handleSetPeers_def callDone_def sendHeartBeats_eq selfMetadata_addresses GetState_def
          otherPeers_def Let_def dest: selfMetadata_find split: pc.splits)
  next
    assume "ev_Kind ev = EventSetMetadata"
    with assms show ?thesis
      by (auto simp: loopRole_def followerEvent_def candidateEvent_def leaderEvent_def
          handleSetMetadata_def callDone_def sendHeartBeats_eq addr GetState_def
          otherPeers_def Let_def dest: selfMetadata_find split: pc.splits)
  qed
qed

theorem set_peers_metadata_result_witness:
  "let p = FollowerLoop \<lparr>f_heartbeatDelay = 100, f_heartbeatTimerID = 1, f_noPeersDelay = 20, f_noPeersTimerID = 2\<rparr>;
       ev = (event_of EventSetPeers)\<lparr>ev_Done := Some 8, ev_Peers := [''a'', ''d'']\<rparr> in
   (loopRole p = Some (currentRole sampleWorld) \<and> ev_Kind ev = EventSetPeers \<and> ev_Done ev = Some 8) \<and>
   (\<exists>n'. run_with (\<lambda>_. eventResp ev) noVotes (main_seg p sampleWorld) = Some (p, n')
      \<and> map Address (currentPeers n') = [''a'', ''d''])"
proof -
  define p where "p = FollowerLoop \<lparr>f_heartbeatDelay = 100, f_heartbeatTimerID = 1, f_noPeersDelay = 20, f_noPeersTimerID = 2\<rparr>"
  define ev where "ev = (event_of EventSetPeers)\<lparr>ev_Done := Some 8, ev_Peers := [''a'', ''d'']\<rparr>"
  have "currentRole sampleWorld = roleFollower" by code_simp
  then have h: "loopRole p = Some (currentRole sampleWorld)" by (simp add: p_def loopRole_def)
  have e: "ev_Kind ev = EventSetPeers" "ev_Done ev = Some 8" "ev_Peers ev = [''a'', ''d'']"
    by (simp_all add: ev_def event_of_def)
  have r: "r_Event (eventResp ev) = ev" by (simp add: eventResp_def)
  from set_peers_metadata_result [of p sampleWorld "\<lambda>_. eventResp ev" ev 8 noVotes] h e r show ?thesis
    unfolding p_def [symmetric] ev_def [symmetric] Let_def by auto
qed

end
