(* ===== verification/Heap_Lists.thy ===== *)
theory Heap_Lists
  imports Election_Prelude "HOL-Library.Multiset"
begin

text \<open>
  The sift operations of Go's \<open>container/heap\<close> on plain lists, ordered by a key. This is
  the reference the simulation's timer heap is compared with: \<open>up\<close> and \<open>down\<close> are the
  loops of the package, \<open>heap_on k xs n\<close> says that the first \<open>n\<close> elements form a binary
  min-heap, and the lemmas show that sifting repairs a heap with one element out of place.
\<close>

section \<open>Swapping\<close>

definition swap :: "nat \<Rightarrow> nat \<Rightarrow> 'a list \<Rightarrow> 'a list" where
  "swap i j xs = xs[i := xs ! j, j := xs ! i]"

lemma length_swap [simp]: "length (swap i j xs) = length xs"
  by (simp add: swap_def)

lemma nth_swap:
  "i < length xs \<Longrightarrow> j < length xs \<Longrightarrow> swap i j xs ! c = (if c = j then xs ! i else if c = i then xs ! j else xs ! c)"
  by (auto simp: swap_def nth_list_update)

lemma mset_swap' [simp]: "i < length xs \<Longrightarrow> j < length xs \<Longrightarrow> mset (swap i j xs) = mset xs"
  by (simp add: swap_def mset_swap)

section \<open>The loops of container/heap\<close>

definition parent :: "nat \<Rightarrow> nat" where
  "parent c = (c - 1) div 2"

lemma parent_less: "0 < c \<Longrightarrow> parent c < c"
  by (auto simp: parent_def)

lemma parent_0 [simp]: "parent 0 = 0"
  by (simp add: parent_def)

lemma parent_eq_iff: "parent c = c \<longleftrightarrow> c = 0"
  using parent_less [of c] by (cases "c = 0") auto

lemma parent_child_cases: "0 < c \<Longrightarrow> parent c = i \<longleftrightarrow> c = 2 * i + 1 \<or> c = 2 * i + 2"
  unfolding parent_def by presburger

function up :: "('a \<Rightarrow> 'k::linorder) \<Rightarrow> 'a list \<Rightarrow> nat \<Rightarrow> 'a list" where
  "up k xs j =
    (if parent j = j \<or> \<not> k (xs ! j) < k (xs ! parent j) then xs
     else up k (swap (parent j) j xs) (parent j))"
  by pat_completeness auto
termination
  by (relation "measure (\<lambda>(k, xs, j). j)") (auto simp: parent_def)

text \<open>The child that \<open>down\<close> compares with.\<close>

definition childOf :: "('a \<Rightarrow> 'k::linorder) \<Rightarrow> 'a list \<Rightarrow> nat \<Rightarrow> nat \<Rightarrow> nat" where
  "childOf k xs i n =
    (let j1 = 2 * i + 1; j2 = j1 + 1
     in if j2 < n \<and> k (xs ! j2) < k (xs ! j1) then j2 else j1)"

lemma childOf_bounds: "i < childOf k xs i n"
  by (simp add: childOf_def Let_def)

function down :: "('a \<Rightarrow> 'k::linorder) \<Rightarrow> 'a list \<Rightarrow> nat \<Rightarrow> nat \<Rightarrow> 'a list \<times> nat" where
  "down k xs i n =
    (if n \<le> 2 * i + 1 \<or> \<not> k (xs ! childOf k xs i n) < k (xs ! i) then (xs, i)
     else down k (swap i (childOf k xs i n) xs) (childOf k xs i n) n)"
  by pat_completeness auto
termination
  by (relation "measure (\<lambda>(k, xs, i, n). n - i)") (auto simp: childOf_def Let_def)

declare up.simps [simp del] down.simps [simp del]

section \<open>Heaps\<close>

definition heap_on :: "('a \<Rightarrow> 'k::linorder) \<Rightarrow> 'a list \<Rightarrow> nat \<Rightarrow> bool" where
  "heap_on k xs n \<longleftrightarrow> (\<forall>c. 0 < c \<longrightarrow> c < n \<longrightarrow> k (xs ! parent c) \<le> k (xs ! c))"

text \<open>A heap but for the element at \<open>i\<close>, whose children are no smaller than its parent.\<close>

definition hole :: "('a \<Rightarrow> 'k::linorder) \<Rightarrow> 'a list \<Rightarrow> nat \<Rightarrow> nat \<Rightarrow> bool" where
  "hole k xs i n \<longleftrightarrow>
    (\<forall>c. 0 < c \<longrightarrow> c < n \<longrightarrow> c \<noteq> i \<longrightarrow> parent c \<noteq> i \<longrightarrow> k (xs ! parent c) \<le> k (xs ! c)) \<and>
    (0 < i \<longrightarrow> (\<forall>c. 0 < c \<longrightarrow> c < n \<longrightarrow> parent c = i \<longrightarrow> k (xs ! parent i) \<le> k (xs ! c)))"

definition above_ok :: "('a \<Rightarrow> 'k::linorder) \<Rightarrow> 'a list \<Rightarrow> nat \<Rightarrow> bool" where
  "above_ok k xs i \<longleftrightarrow> (0 < i \<longrightarrow> k (xs ! parent i) \<le> k (xs ! i))"

definition below_ok :: "('a \<Rightarrow> 'k::linorder) \<Rightarrow> 'a list \<Rightarrow> nat \<Rightarrow> nat \<Rightarrow> bool" where
  "below_ok k xs i n \<longleftrightarrow> (\<forall>c. 0 < c \<longrightarrow> c < n \<longrightarrow> parent c = i \<longrightarrow> k (xs ! i) \<le> k (xs ! c))"

lemma hole_heap: "hole k xs i n \<Longrightarrow> above_ok k xs i \<Longrightarrow> below_ok k xs i n \<Longrightarrow> heap_on k xs n"
  unfolding hole_def above_ok_def below_ok_def heap_on_def by metis

lemma childOf_parent: "2 * i + 1 < n \<Longrightarrow> parent (childOf k xs i n) = i \<and> childOf k xs i n < n"
  by (auto simp: childOf_def Let_def parent_def)

lemma childOf_least:
  "2 * i + 1 < n \<Longrightarrow> 0 < c \<Longrightarrow> c < n \<Longrightarrow> parent c = i \<Longrightarrow> k (xs ! childOf k xs i n) \<le> k (xs ! c)"
  by (elim parent_child_cases [THEN iffD1, THEN disjE, rotated])
    (auto simp: childOf_def Let_def not_less)

subsection \<open>Sifting up\<close>

lemma hole_swap_up:
  assumes "hole k xs j n" "below_ok k xs j n" "0 < j" "j < n" "n \<le> length xs"
    and less: "k (xs ! j) < k (xs ! parent j)"
  shows "hole k (swap (parent j) j xs) (parent j) n \<and> below_ok k (swap (parent j) j xs) (parent j) n"
proof -
  define i where "i = parent j"
  have i: "i < j" using assms(3) parent_less by (simp add: i_def)
  have nth: "swap i j xs ! c = (if c = j then xs ! i else if c = i then xs ! j else xs ! c)" for c
    using i assms(4,5) by (simp add: nth_swap)
  have sib: "k (xs ! i) \<le> k (xs ! c)" if "0 < c" "c < n" "parent c = i" "c \<noteq> j" for c
    using assms(1) that i by (auto simp: hole_def)
  have low: "k (xs ! i) \<le> k (xs ! c)" if "0 < c" "c < n" "parent c = j" for c
    using assms(1,3) that unfolding hole_def i_def by blast
  have up: "k (xs ! parent i) \<le> k (xs ! i)" if "0 < i"
    using assms(1) that i assms(4) parent_less [OF that] by (simp add: hole_def)
  have less': "k (xs ! j) < k (xs ! i)" using less by (simp add: i_def)
  have "below_ok k (swap i j xs) i n"
    unfolding below_ok_def nth
    using sib less' i by (auto dest: parent_less intro: less_imp_le order.trans)
  moreover have "hole k (swap i j xs) i n"
    unfolding hole_def nth
  proof (intro conjI allI impI)
    fix c assume "0 < c" "c < n" "c \<noteq> i" "parent c \<noteq> i"
    then show "k (if parent c = j then xs ! i else if parent c = i then xs ! j else xs ! parent c)
        \<le> k (if c = j then xs ! i else if c = i then xs ! j else xs ! c)"
      using assms(1) low unfolding hole_def by (auto simp: i_def)
  next
    fix c assume a: "0 < i" "0 < c" "c < n" "parent c = i"
    then have "k (xs ! parent i) \<le> k (xs ! c)" if "c \<noteq> j"
      using sib [OF a(2-4) that] up [OF a(1)] by order
    then show "k (if parent i = j then xs ! i else if parent i = i then xs ! j else xs ! parent i)
        \<le> k (if c = j then xs ! i else if c = i then xs ! j else xs ! c)"
      using a i up [OF a(1)] parent_less [OF a(1)] parent_less [OF a(2)] by auto
  qed
  ultimately show ?thesis by (simp add: i_def)
qed

lemma up_heap:
  assumes "hole k xs j n" "below_ok k xs j n" "j < n" "n \<le> length xs"
  shows "heap_on k (up k xs j) n"
  using assms
proof (induction k xs j rule: up.induct)
  case (1 k xs j)
  show ?case
  proof (cases "parent j = j \<or> \<not> k (xs ! j) < k (xs ! parent j)")
    case True
    then have "above_ok k xs j" by (auto simp: above_ok_def parent_eq_iff)
    with True 1(2,3) show ?thesis by (simp add: up.simps hole_heap)
  next
    case False
    then have "0 < j" by (auto simp: parent_eq_iff)
    with False 1 hole_swap_up [of k xs j n] parent_less [of j] show ?thesis
      by (subst up.simps) simp
  qed
qed

lemma up_mset: "j < length xs \<Longrightarrow> mset (up k xs j) = mset xs"
proof (induction k xs j rule: up.induct)
  case (1 k xs j)
  show ?case
  proof (cases "parent j = j \<or> \<not> k (xs ! j) < k (xs ! parent j)")
    case False
    with 1 parent_less [of j] show ?thesis by (subst up.simps) (auto simp: parent_eq_iff)
  qed (simp add: up.simps)
qed

lemma up_above: "j < length xs \<Longrightarrow> j < c \<Longrightarrow> up k xs j ! c = xs ! c"
proof (induction k xs j rule: up.induct)
  case (1 k xs j)
  show ?case
  proof (cases "parent j = j \<or> \<not> k (xs ! j) < k (xs ! parent j)")
    case False
    with 1 parent_less [of j] show ?thesis by (subst up.simps) (auto simp: parent_eq_iff nth_swap)
  qed (simp add: up.simps)
qed

subsection \<open>Sifting down\<close>

lemma hole_swap_down:
  assumes "hole k xs i n" "2 * i + 1 < n" "n \<le> length xs" "j = childOf k xs i n"
    and less: "k (xs ! j) < k (xs ! i)"
  shows "hole k (swap i j xs) j n \<and> above_ok k (swap i j xs) j"
proof -
  have j: "parent j = i" "j < n" "i < j"
    using childOf_parent [OF assms(2), of k xs] childOf_bounds [of i k xs n] assms(4) by auto
  have nth: "swap i j xs ! c = (if c = j then xs ! i else if c = i then xs ! j else xs ! c)" for c
    using j assms(3) by (simp add: nth_swap)
  have least: "k (xs ! j) \<le> k (xs ! c)" if "0 < c" "c < n" "parent c = i" for c
    using childOf_least [OF assms(2) that] assms(4) by simp
  have top: "k (xs ! parent i) \<le> k (xs ! j)" if "0 < i"
    using assms(1) that j unfolding hole_def by auto
  have "above_ok k (swap i j xs) j" using j less by (simp add: above_ok_def nth)
  moreover have "hole k (swap i j xs) j n"
    unfolding hole_def nth
  proof (intro conjI allI impI)
    fix c assume c: "0 < c" "c < n" "c \<noteq> j" "parent c \<noteq> j"
    consider "c = i" | "parent c = i" | "c \<noteq> i" "parent c \<noteq> i" by blast
    then show "k (if parent c = j then xs ! i else if parent c = i then xs ! j else xs ! parent c)
        \<le> k (if c = j then xs ! i else if c = i then xs ! j else xs ! c)"
    proof cases
      case 1
      with c top parent_less [of i] j show ?thesis by auto
    next
      case 2
      with c least [of c] parent_less [of c] j show ?thesis by auto
    next
      case 3
      with c assms(1) show ?thesis unfolding hole_def by simp
    qed
  next
    fix c assume c: "0 < j" "0 < c" "c < n" "parent c = j"
    have "k (xs ! parent c) \<le> k (xs ! c)"
      using assms(1) c j parent_less [of c] unfolding hole_def by auto
    with c j parent_less [of c] show "k (if parent j = j then xs ! i else if parent j = i then xs ! j else xs ! parent j)
        \<le> k (if c = j then xs ! i else if c = i then xs ! j else xs ! c)" by auto
  qed
  ultimately show ?thesis by blast
qed

text \<open>Where \<open>down\<close> stops at once, the element is no larger than its children.\<close>

lemma stop_below_ok:
  assumes "n \<le> 2 * i + 1 \<or> \<not> k (xs ! childOf k xs i n) < k (xs ! i)"
  shows "below_ok k xs i n"
  unfolding below_ok_def
proof (intro allI impI)
  fix c assume c: "0 < c" "c < n" "parent c = i"
  then have "2 * i + 1 < n \<or> c = 2 * i + 1 \<and> c < n" using parent_child_cases [of c i] by auto
  then have "2 * i + 1 < n" by auto
  with assms childOf_least [OF this c, of k xs] show "k (xs ! i) \<le> k (xs ! c)" by auto
qed

lemma down_heap:
  assumes "hole k xs i n" "above_ok k xs i" "n \<le> length xs"
  shows "heap_on k (fst (down k xs i n)) n"
  using assms
proof (induction k xs i n rule: down.induct)
  case (1 k xs i n)
  show ?case
  proof (cases "n \<le> 2 * i + 1 \<or> \<not> k (xs ! childOf k xs i n) < k (xs ! i)")
    case True
    with 1(2,3) show ?thesis by (subst down.simps) (simp add: hole_heap stop_below_ok)
  next
    case False
    with 1 hole_swap_down [of k xs i n] show ?thesis by (subst down.simps) auto
  qed
qed

lemma down_moves: "i \<le> snd (down k xs i n)"
proof (induction k xs i n rule: down.induct)
  case (1 k xs i n)
  show ?case
  proof (cases "n \<le> 2 * i + 1 \<or> \<not> k (xs ! childOf k xs i n) < k (xs ! i)")
    case False
    with 1 childOf_bounds [of i k xs n] show ?thesis by (subst down.simps) auto
  qed (subst down.simps, simp)
qed

lemma down_mset: "n \<le> length xs \<Longrightarrow> mset (fst (down k xs i n)) = mset xs"
proof (induction k xs i n rule: down.induct)
  case (1 k xs i n)
  show ?case
  proof (cases "n \<le> 2 * i + 1 \<or> \<not> k (xs ! childOf k xs i n) < k (xs ! i)")
    case False
    with 1 childOf_parent [of i n k xs] show ?thesis by (subst down.simps) auto
  qed (subst down.simps, simp)
qed

lemma down_above: "n \<le> length xs \<Longrightarrow> n \<le> c \<Longrightarrow> fst (down k xs i n) ! c = xs ! c"
proof (induction k xs i n rule: down.induct)
  case (1 k xs i n)
  show ?case
  proof (cases "n \<le> 2 * i + 1 \<or> \<not> k (xs ! childOf k xs i n) < k (xs ! i)")
    case False
    with 1 childOf_parent [of i n k xs] show ?thesis by (subst down.simps) (auto simp: nth_swap)
  qed (subst down.simps, simp)
qed

text \<open>Sifting down, and up if nothing moved, fills a hole anywhere.\<close>

definition fix_at :: "('a \<Rightarrow> 'k::linorder) \<Rightarrow> 'a list \<Rightarrow> nat \<Rightarrow> nat \<Rightarrow> 'a list" where
  "fix_at k xs i n =
    (let (ys, i') = down k xs i n in if i < i' then ys else up k ys i)"

lemma fix_at_heap:
  assumes "hole k xs i n" "i < n" "n \<le> length xs"
  shows "heap_on k (fix_at k xs i n) n"
proof (cases "n \<le> 2 * i + 1 \<or> \<not> k (xs ! childOf k xs i n) < k (xs ! i)")
  case True
  then have "down k xs i n = (xs, i)" by (subst down.simps) simp
  with True assms show ?thesis by (simp add: fix_at_def up_heap stop_below_ok)
next
  case False
  then have d: "down k xs i n = down k (swap i (childOf k xs i n) xs) (childOf k xs i n) n"
    by (subst down.simps) simp
  then have "i < snd (down k xs i n)"
    using down_moves [of "childOf k xs i n"] childOf_bounds [of i k xs n] by (metis order.strict_trans2)
  then have "fix_at k xs i n = fst (down k xs i n)" by (simp add: fix_at_def case_prod_unfold Let_def)
  with d down_heap [of k "swap i (childOf k xs i n) xs"] hole_swap_down [OF assms(1) _ assms(3) refl] False
  show ?thesis using assms(3) by auto
qed

lemma length_up [simp]: "j < length xs \<Longrightarrow> length (up k xs j) = length xs"
  using up_mset mset_eq_length by blast

lemma length_down [simp]: "n \<le> length xs \<Longrightarrow> length (fst (down k xs i n)) = length xs"
  using down_mset mset_eq_length by blast

lemma fix_at_mset: "i < n \<Longrightarrow> n \<le> length xs \<Longrightarrow> mset (fix_at k xs i n) = mset xs"
  using length_down [of n xs k i] down_mset [of n xs k i]
  by (auto simp: fix_at_def case_prod_unfold Let_def up_mset)

lemma fix_at_above: "i < n \<Longrightarrow> n \<le> length xs \<Longrightarrow> n \<le> c \<Longrightarrow> fix_at k xs i n ! c = xs ! c"
  using length_down [of n xs k i]
  by (auto simp: fix_at_def case_prod_unfold Let_def up_above down_above)

section \<open>Push, remove and the minimum\<close>

lemma heap_push:
  assumes "heap_on k xs (length xs)"
  shows "heap_on k (up k (xs @ [x]) (length xs)) (Suc (length xs))"
proof (rule up_heap)
  have lt: "parent c < length xs" if "0 < c" "c < Suc (length xs)" for c
    using parent_less [OF that(1)] that(2) by simp
  have "k ((xs @ [x]) ! parent c) \<le> k ((xs @ [x]) ! c)" if "0 < c" "c < Suc (length xs)" "c \<noteq> length xs" for c
    using assms lt [OF that(1,2)] that by (simp add: heap_on_def nth_append)
  then show "hole k (xs @ [x]) (length xs) (Suc (length xs))"
    unfolding hole_def using lt by (metis less_irrefl)
  show "below_ok k (xs @ [x]) (length xs) (Suc (length xs))"
    by (auto simp: below_ok_def dest: parent_less)
qed auto

lemma heap_swap_hole:
  assumes "heap_on k xs (Suc n)" "length xs = Suc n" "i < n"
  shows "hole k (swap i n xs) i n"
proof -
  have trans: "k (xs ! parent i) \<le> k (xs ! c)" if "0 < i" "0 < c" "c < n" "parent c = i" for c
    using assms(1,3) that unfolding heap_on_def by (meson less_SucI order_trans)
  have nth: "swap i n xs ! c = (if c = i then xs ! n else xs ! c)" if "c < n" for c
    using assms(2,3) that by (simp add: nth_swap)
  show ?thesis
    unfolding hole_def
  proof (intro conjI allI impI)
    fix c assume c: "0 < c" "c < n" "c \<noteq> i" "parent c \<noteq> i"
    then show "k (swap i n xs ! parent c) \<le> k (swap i n xs ! c)"
      using assms(1) nth [of c] nth [of "parent c"] parent_less [of c] by (simp add: heap_on_def)
  next
    fix c assume c: "0 < i" "0 < c" "c < n" "parent c = i"
    then show "k (swap i n xs ! parent i) \<le> k (swap i n xs ! c)"
      using trans [OF c] assms(3) nth [of c] nth [of "parent i"] parent_less [of c] parent_less [of i] by simp
  qed
qed

lemma heap_min: "heap_on k xs n \<Longrightarrow> c < n \<Longrightarrow> k (xs ! 0) \<le> k (xs ! c)"
proof (induction c rule: less_induct)
  case (less c)
  show ?case
  proof (cases "c = 0")
    case False
    then have "k (xs ! parent c) \<le> k (xs ! c)" using less.prems by (simp add: heap_on_def)
    with less.IH [of "parent c"] less.prems parent_less [of c] False show ?thesis by force
  qed simp
qed

end
