(* ===== verification/Timer_Heap.thy ===== *)
theory Timer_Heap
  imports Heap_Lists "HOL-Library.Product_Lexorder"
begin

text \<open>
  The simulation's timer heap (\<open>src/internal/sim/heap.go\<close>) and the operations of
  \<open>container/heap\<close> it uses. The heap holds pointers to timer objects, and an index maps
  timer ids to such pointers; both point to the same objects, whose \<open>index\<close> field is
  changed by \<open>Swap\<close>. The model keeps an explicit store of the objects: a pointer is a
  number, and \<open>Add\<close> allocates the next one for the object its caller has just built.

  \<open>Heap_Lists\<close> is the reference for the order of the pointers; the interface
  \<open>timer_queue\<close> states what a client of the heap may rely on.
\<close>

section \<open>Data\<close>

record pendingTimer =
  fireAt :: gotime
  timerID :: timer_id
  nodeID :: string
  index :: int

type_synonym ptr = nat

record timerHeap =
  store :: "ptr \<Rightarrow> pendingTimer"
  nextPtr :: ptr
  items :: "ptr list"
  byID :: "timer_id \<rightharpoonup> ptr"

definition newTimerHeap :: timerHeap where
  "newTimerHeap = \<lparr>store = (\<lambda>_. \<lparr>fireAt = 0, timerID = 0, nodeID = [], index = 0\<rparr>),
     nextPtr = 0, items = [], byID = Map.empty\<rparr>"

definition setIndex :: "ptr \<Rightarrow> int \<Rightarrow> timerHeap \<Rightarrow> timerHeap" where
  "setIndex p i h = h\<lparr>store := (store h)(p := (store h p)\<lparr>index := i\<rparr>)\<rparr>"

section \<open>The methods of heap.Interface\<close>

definition Len :: "timerHeap \<Rightarrow> nat" where
  "Len h = length (items h)"

definition Less :: "timerHeap \<Rightarrow> nat \<Rightarrow> nat \<Rightarrow> bool" where
  "Less h i j =
    (let a = store h (items h ! i); b = store h (items h ! j)
     in if fireAt a = fireAt b then timerID a < timerID b else fireAt a < fireAt b)"

definition Swap :: "nat \<Rightarrow> nat \<Rightarrow> timerHeap \<Rightarrow> timerHeap" where
  "Swap i j h =
    (let h = h\<lparr>items := (items h)[i := items h ! j, j := items h ! i]\<rparr>;
         h = setIndex (items h ! i) (int i) h
     in setIndex (items h ! j) (int j) h)"

definition Push :: "ptr \<Rightarrow> timerHeap \<Rightarrow> timerHeap" where
  "Push p h = (let h = setIndex p (int (length (items h))) h in h\<lparr>items := items h @ [p]\<rparr>)"

definition Pop :: "timerHeap \<Rightarrow> ptr \<times> timerHeap" where
  "Pop h = (let p = last (items h) in (p, setIndex p (- 1) (h\<lparr>items := butlast (items h)\<rparr>)))"

section \<open>container/heap\<close>

function heap_up :: "nat \<Rightarrow> timerHeap \<Rightarrow> timerHeap" where
  "heap_up j h =
    (let i = (j - 1) div 2
     in if i = j \<or> \<not> Less h j i then h else heap_up i (Swap i j h))"
  by pat_completeness auto
termination
  by (relation "measure fst") auto

function heap_down :: "nat \<Rightarrow> nat \<Rightarrow> timerHeap \<Rightarrow> timerHeap \<times> nat" where
  "heap_down i n h =
    (let j1 = 2 * i + 1 in
     if n \<le> j1 then (h, i)
     else
       let j2 = j1 + 1; j = (if j2 < n \<and> Less h j2 j1 then j2 else j1) in
       if \<not> Less h j i then (h, i) else heap_down j n (Swap i j h))"
  by pat_completeness auto
termination
  by (relation "measure (\<lambda>(i, n, h). n - i)") (auto split: if_splits)

definition heap_Push :: "ptr \<Rightarrow> timerHeap \<Rightarrow> timerHeap" where
  "heap_Push p h = (let h = Push p h in heap_up (Len h - 1) h)"

definition heap_Pop :: "timerHeap \<Rightarrow> ptr \<times> timerHeap" where
  "heap_Pop h = (let n = Len h - 1; h = Swap 0 n h; (h, _) = heap_down 0 n h in Pop h)"

definition heap_Remove :: "nat \<Rightarrow> timerHeap \<Rightarrow> ptr \<times> timerHeap" where
  "heap_Remove i h =
    (let n = Len h - 1 in
     Pop (if n \<noteq> i
          then let h = Swap i n h; (h, i') = heap_down i n h
               in if i < i' then h else heap_up i h
          else h))"

section \<open>TimerHeap\<close>

text \<open>\<open>Add\<close> receives a pointer to an object its callers have just allocated.\<close>

definition Add :: "pendingTimer \<Rightarrow> timerHeap \<Rightarrow> timerHeap" where
  "Add t h =
    (let p = nextPtr h;
         h = h\<lparr>store := (store h)(p := t), nextPtr := p + 1\<rparr>;
         h = h\<lparr>byID := (byID h)(timerID t \<mapsto> p)\<rparr>
     in heap_Push p h)"

definition Peek :: "timerHeap \<Rightarrow> pendingTimer option" where
  "Peek h = (if Len h = 0 then None else Some (store h (items h ! 0)))"

definition PopTimer :: "timerHeap \<Rightarrow> pendingTimer option \<times> timerHeap" where
  "PopTimer h =
    (if Len h = 0 then (None, h)
     else let (p, h) = heap_Pop h; t = store h p
          in (Some t, h\<lparr>byID := (byID h)(timerID t := None)\<rparr>))"

text \<open>\<open>None\<close> is the panic of an index out of range.\<close>

definition Remove :: "timer_id \<Rightarrow> timerHeap \<Rightarrow> (bool \<times> timerHeap) option" where
  "Remove i h =
    (case byID h i of
       None \<Rightarrow> Some (False, h)
     | Some p \<Rightarrow>
         let h = h\<lparr>byID := (byID h)(i := None)\<rparr>; k = index (store h p)
         in if k < 0 \<or> int (Len h) \<le> k then None
            else Some (True, snd (heap_Remove (nat k) h)))"


declare heap_up.simps [simp del] heap_down.simps [simp del]

section \<open>Pointers and order\<close>

text \<open>A timer without the bookkeeping of its position, and the key timers are ordered by.\<close>

definition timer :: "pendingTimer \<Rightarrow> pendingTimer" where
  "timer t = t\<lparr>index := 0\<rparr>"

definition due :: "pendingTimer \<Rightarrow> gotime \<times> timer_id" where
  "due t = (fireAt t, timerID t)"

abbreviation key :: "timerHeap \<Rightarrow> ptr \<Rightarrow> gotime \<times> timer_id" where
  "key h p \<equiv> due (store h p)"

lemma due_timer [simp]: "due (timer t) = due t" "timerID (timer t) = timerID t" "nodeID (timer t) = nodeID t"
  by (simp_all add: due_def timer_def)

lemma Less_key: "Less h i j \<longleftrightarrow> key h (items h ! i) < key h (items h ! j)"
  by (auto simp: Less_def due_def Let_def)

text \<open>Two heaps with the same objects, up to positions, and the same id table.\<close>

definition same :: "timerHeap \<Rightarrow> timerHeap \<Rightarrow> bool" where
  "same h h' \<longleftrightarrow> byID h' = byID h \<and> nextPtr h' = nextPtr h \<and> (\<forall>p. timer (store h' p) = timer (store h p))"

lemma same_refl [simp]: "same h h"
  by (simp add: same_def)

lemma same_trans: "same h h' \<Longrightarrow> same h' h'' \<Longrightarrow> same h h''"
  by (simp add: same_def)

lemma same_key: "same h h' \<Longrightarrow> key h' = key h"
  unfolding same_def by (metis due_timer(1))

lemma same_store: "same h h' \<Longrightarrow> timerID (store h' p) = timerID (store h p)"
  unfolding same_def by (metis due_timer(2))

lemma timer_setIndex [simp]: "timer (store (setIndex p i h) q) = timer (store h q)"
  by (simp add: setIndex_def timer_def)

lemma same_setIndex: "same h (setIndex p i h)"
  by (simp add: same_def) (simp add: setIndex_def)

lemma setIndex_sel [simp]:
  "items (setIndex p i h) = items h" "byID (setIndex p i h) = byID h" "nextPtr (setIndex p i h) = nextPtr h"
  "index (store (setIndex p i h) q) = (if q = p then i else index (store h q))"
  by (simp_all add: setIndex_def)

text \<open>Distinct, allocated pointers whose objects know their position.\<close>

definition linked :: "timerHeap \<Rightarrow> bool" where
  "linked h \<longleftrightarrow> distinct (items h) \<and> (\<forall>p \<in> set (items h). p < nextPtr h)
     \<and> (\<forall>i < length (items h). index (store h (items h ! i)) = int i)"

lemma items_Swap [simp]: "items (Swap i j h) = swap i j (items h)"
  by (simp add: Swap_def swap_def Let_def)

lemma same_Swap: "same h (Swap i j h)"
  by (simp add: Swap_def Let_def same_def)

lemma same_after_Swap: "same (Swap i j h) h' \<Longrightarrow> same h h'"
  by (rule same_trans [OF same_Swap])

lemma distinct_swap [simp]:
  "i < length xs \<Longrightarrow> j < length xs \<Longrightarrow> distinct (swap i j xs) = distinct xs"
  by (simp add: swap_def)

lemma set_swap' [simp]: "i < length xs \<Longrightarrow> j < length xs \<Longrightarrow> set (swap i j xs) = set xs"
  by (simp add: swap_def)

lemma linked_Swap:
  assumes "linked h" "i < length (items h)" "j < length (items h)"
  shows "linked (Swap i j h)"
proof -
  have d: "distinct (swap i j (items h))" using assms by (simp add: linked_def)
  have "index (store (Swap i j h) (swap i j (items h) ! c)) = int c" if c: "c < length (items h)" for c
    using assms c by (auto simp: Swap_def Let_def linked_def swap_def [symmetric] nth_swap nth_eq_iff_index_eq)
  then show ?thesis
    using assms same_Swap [of h i j] d by (simp add: linked_def same_def)
qed

section \<open>The loops agree with the reference\<close>

lemma heap_up_spec:
  assumes "linked h" "j < length (items h)"
  shows "items (heap_up j h) = up (key h) (items h) j \<and> same h (heap_up j h) \<and> linked (heap_up j h)"
  using assms
proof (induction j h rule: heap_up.induct)
  case (1 j h)
  let ?i = "(j - 1) div 2"
  show ?case
  proof (cases "?i = j \<or> \<not> Less h j ?i")
    case True
    then have "heap_up j h = h" by (subst heap_up.simps) simp
    with True 1(2) show ?thesis by (subst up.simps) (auto simp: Less_key parent_def)
  next
    case False
    then have r: "heap_up j h = heap_up ?i (Swap ?i j h)" by (subst heap_up.simps) (simp add: Let_def)
    from 1(3) have i: "?i < length (items h)" by simp
    have IH: "items (heap_up ?i (Swap ?i j h)) = up (key (Swap ?i j h)) (swap ?i j (items h)) ?i
        \<and> same (Swap ?i j h) (heap_up ?i (Swap ?i j h)) \<and> linked (heap_up ?i (Swap ?i j h))"
      using 1(1) [OF refl False] linked_Swap [OF 1(2) i 1(3)] i by simp
    have "up (key h) (items h) j = up (key h) (swap ?i j (items h)) ?i"
      using False by (subst up.simps) (auto simp: Less_key parent_def)
    with IH r same_key [OF same_Swap] show ?thesis by (auto intro: same_after_Swap)
  qed
qed

lemma childOf_Less:
  "childOf (key h) (items h) i n = (if 2 * i + 1 + 1 < n \<and> Less h (2 * i + 1 + 1) (2 * i + 1) then 2 * i + 1 + 1 else 2 * i + 1)"
  by (simp add: childOf_def Less_key Let_def)

lemma heap_down_childOf:
  "heap_down i n h =
    (if n \<le> 2 * i + 1 \<or> \<not> Less h (childOf (key h) (items h) i n) i then (h, i)
     else heap_down (childOf (key h) (items h) i n) n (Swap i (childOf (key h) (items h) i n) h))"
  by (subst heap_down.simps) (simp add: childOf_Less Let_def)

lemma heap_down_spec:
  assumes "linked h" "n \<le> length (items h)"
  shows "items (fst (heap_down i n h)) = fst (down (key h) (items h) i n)
    \<and> snd (heap_down i n h) = snd (down (key h) (items h) i n)
    \<and> same h (fst (heap_down i n h)) \<and> linked (fst (heap_down i n h))"
  using assms
proof (induction "n - i" arbitrary: i h rule: less_induct)
  case less
  let ?j = "childOf (key h) (items h) i n"
  show ?case
  proof (cases "n \<le> 2 * i + 1 \<or> \<not> Less h ?j i")
    case True
    then have "heap_down i n h = (h, i)" by (subst heap_down_childOf) simp
    with True less.prems(1) show ?thesis by (subst down.simps, subst (2) down.simps) (auto simp: Less_key)
  next
    case False
    then have r: "heap_down i n h = heap_down ?j n (Swap i ?j h)" by (subst heap_down_childOf) simp
    have j: "i < ?j" "?j < n" using False childOf_bounds [of i "key h" "items h" n] childOf_parent [of i n] by auto
    have d: "down (key h) (items h) i n = down (key h) (swap i ?j (items h)) ?j n"
      using False by (subst down.simps) (simp add: Less_key)
    have "linked (Swap i ?j h)" using linked_Swap [of h i ?j] less.prems j by simp
    with less.hyps [of ?j "Swap i ?j h"] j less.prems same_key [OF same_Swap [of h i ?j]]
      same_after_Swap [of i ?j h]
    show ?thesis by (simp add: r d)
  qed
qed


section \<open>The invariant\<close>

text \<open>Well-formed heaps: linked, ordered, and every entry of the id table points to a pending
  timer with that id.\<close>

definition heap_wf :: "timerHeap \<Rightarrow> bool" where
  "heap_wf h \<longleftrightarrow> linked h \<and> heap_on (key h) (items h) (length (items h))
     \<and> (\<forall>i p. byID h i = Some p \<longrightarrow> p \<in> set (items h) \<and> timerID (store h p) = i)"

text \<open>The pending timers.\<close>

definition pending :: "timerHeap \<Rightarrow> pendingTimer multiset" where
  "pending h = image_mset (\<lambda>p. timer (store h p)) (mset (items h))"

text \<open>Every pending timer can be cancelled by its id.\<close>

definition cancellable :: "timerHeap \<Rightarrow> bool" where
  "cancellable h \<longleftrightarrow> (\<forall>p \<in> set (items h). byID h (timerID (store h p)) = Some p)"

lemma same_pending:
  "same h h' \<Longrightarrow> mset (items h') = mset (items h) \<Longrightarrow> pending h' = pending h"
  by (simp add: pending_def same_def)

lemma newTimerHeap_ok: "heap_wf newTimerHeap" "pending newTimerHeap = {#}" "cancellable newTimerHeap"
  by (simp_all add: newTimerHeap_def heap_wf_def linked_def heap_on_def pending_def cancellable_def)

subsection \<open>Removing a position\<close>

lemma Pop_spec:
  assumes "linked h" "items h \<noteq> []" "heap_on (key h) (items h) (length (items h) - 1)" "Pop h = (p, h')"
  shows "p = last (items h)" and "items h' = butlast (items h)" and "same h h'" and "linked h'"
    and "heap_on (key h') (items h') (length (items h'))"
    and "mset (items h) = add_mset p (mset (items h'))"
proof -
  from assms(4) have eq: "p = last (items h)" "h' = setIndex p (- 1) (h\<lparr>items := butlast (items h)\<rparr>)"
    by (auto simp: Pop_def Let_def)
  then show p: "p = last (items h)" and it: "items h' = butlast (items h)" and sm: "same h h'"
    by (simp_all add: same_def)
  from assms(2) p it have sn: "items h = items h' @ [p]" by simp
  then show "mset (items h) = add_mset p (mset (items h'))" by simp
  from assms(1) sn have d: "distinct (items h' @ [p])" by (simp add: linked_def)
  have "index (store h' (items h' ! c)) = int c" if "c < length (items h')" for c
  proof -
    have "items h' ! c \<noteq> p" using d nth_mem [OF that] by auto
    moreover have "items h' ! c = items h ! c" using that sn by (simp add: nth_append)
    moreover have "c < length (items h)" using that sn by simp
    ultimately show ?thesis using assms(1) by (simp add: linked_def eq(2))
  qed
  then show "linked h'" using assms(1) sn d sm by (simp add: linked_def same_def)
  show "heap_on (key h') (items h') (length (items h'))"
    unfolding heap_on_def same_key [OF sm]
  proof (intro allI impI)
    fix c assume c: "0 < c" "c < length (items h')"
    then have "items h ! c = items h' ! c" "items h ! parent c = items h' ! parent c"
      using sn parent_less [of c] by (simp_all add: nth_append)
    with assms(3) c sn show "key h (items h' ! parent c) \<le> key h (items h' ! c)"
      unfolding heap_on_def by (metis butlast_snoc length_butlast)
  qed
qed

lemma sift_spec:
  assumes "linked h" "i < n" "n \<le> length (items h)"
  defines "h' \<equiv> (let (h', i') = heap_down i n h in if i < i' then h' else heap_up i h')"
  shows "items h' = fix_at (key h) (items h) i n" "same h h'" "linked h'"
proof -
  define h1 where "h1 = fst (heap_down i n h)"
  have d: "items h1 = fst (down (key h) (items h) i n)"
      "snd (heap_down i n h) = snd (down (key h) (items h) i n)" "same h h1" "linked h1"
    using heap_down_spec [OF assms(1,3), of i] by (simp_all add: h1_def)
  have l: "i < length (items h1)" using assms(2,3) d(1) by simp
  have h': "h' = (if i < snd (heap_down i n h) then h1 else heap_up i h1)"
    by (simp add: h'_def h1_def case_prod_unfold)
  note u = heap_up_spec [OF d(4) l]
  show "items h' = fix_at (key h) (items h) i n" "same h h'" "linked h'"
    using d u same_key [OF d(3)] same_trans [OF d(3)]
    by (auto simp: h' fix_at_def case_prod_unfold Let_def)
qed

lemma heap_Remove_spec:
  assumes "linked h" "heap_on (key h) (items h) (length (items h))" "i < length (items h)"
    and r: "heap_Remove i h = (p, h')"
  shows "p = items h ! i \<and> same h h' \<and> linked h' \<and> heap_on (key h') (items h') (length (items h'))
    \<and> mset (items h) = add_mset p (mset (items h'))"
proof -
  define n where "n = length (items h) - 1"
  have n: "length (items h) = Suc n" "i \<le> n" using assms(3) by (auto simp: n_def)
  show ?thesis
  proof (cases "i = n")
    case True
    then have P: "Pop h = (p, h')" using r n by (simp add: heap_Remove_def Len_def)
    have ne: "items h \<noteq> []" using n by auto
    have "heap_on (key h) (items h) (length (items h) - 1)" using assms(2) by (simp add: heap_on_def)
    from Pop_spec [OF assms(1) ne this P] True ne show ?thesis by (simp add: last_conv_nth n_def)
  next
    case False
    with n have i: "i < n" by simp
    define h1 where "h1 = Swap i n h"
    define h2 where "h2 = (let (h', i') = heap_down i n h1 in if i < i' then h' else heap_up i h')"
    have P: "Pop h2 = (p, h')"
      using r False n by (simp add: heap_Remove_def Len_def h2_def h1_def Let_def)
    have h1: "linked h1" "same h h1" "items h1 = swap i n (items h)"
      using linked_Swap [OF assms(1)] n i same_Swap by (simp_all add: h1_def)
    have le: "n \<le> length (items h1)" using h1 n by simp
    from sift_spec [OF h1(1) i le] h1 have
      h2: "items h2 = fix_at (key h) (swap i n (items h)) i n" "same h1 h2" "linked h2"
      by (simp_all add: h2_def same_key)
    have sm: "same h h2" by (rule same_trans [OF h1(2) h2(2)])
    have ms: "mset (items h2) = mset (items h)" using h2 n i by (simp add: fix_at_mset)
    from arg_cong [OF this, of size] have len: "length (items h2) = Suc n" using n by simp
    then have ne: "items h2 \<noteq> []" by auto
    have "heap_on (key h2) (items h2) (length (items h2) - 1)"
      using heap_swap_hole [of "key h" "items h" n i] assms(2) n i len same_key [OF sm] h2(1)
      by (simp add: fix_at_heap)
    note P' = Pop_spec [OF h2(3) ne this P]
    have "last (items h2) = items h ! i"
      using len ne h2(1) n i by (simp add: last_conv_nth fix_at_above nth_swap)
    with P' ms same_trans [OF sm P'(3)] show ?thesis by simp
  qed
qed

lemma heap_Pop_Remove:
  assumes "linked h" "items h \<noteq> []"
  shows "heap_Pop h = heap_Remove 0 h"
proof (cases "Len h - 1 = 0")
  case True
  with assms obtain p where p: "items h = [p]" by (cases "items h") (auto simp: Len_def)
  have "index (store h p) = 0" using assms(1) p by (simp add: linked_def)
  then have "setIndex p 0 h = h" by (simp add: setIndex_def fun_upd_idem)
  moreover have "Swap 0 0 h = setIndex p 0 (setIndex p 0 h)"
    using p by (cases h) (simp add: Swap_def Let_def)
  ultimately have "Swap 0 0 h = h" by simp
  with True show ?thesis by (simp add: heap_Pop_def heap_Remove_def heap_down.simps)
next
  case False
  then show ?thesis
    by (simp add: heap_Pop_def heap_Remove_def heap_up.simps [of 0] Let_def case_prod_unfold)
qed

subsection \<open>Add\<close>

lemma Push_spec:
  fixes t :: pendingTimer and b :: "timer_id \<rightharpoonup> ptr"
  assumes "linked h" "p = nextPtr h"
  defines "h' \<equiv> Push p (h\<lparr>store := (store h)(p := t), nextPtr := p + 1, byID := b\<rparr>)"
  shows "linked h'" and "items h' = items h @ [p]" and "nextPtr h' = p + 1" and "byID h' = b"
    and "timer (store h' q) = (if q = p then timer t else timer (store h q))"
proof -
  have fresh: "p \<notin> set (items h)" using assms(1,2) by (auto simp: linked_def)
  have idx: "index (store h' q) = (if q = p then int (length (items h)) else index (store h q))" for q
    by (simp add: h'_def Push_def Let_def)
  show it: "items h' = items h @ [p]" and np: "nextPtr h' = p + 1" and "byID h' = b"
    by (simp_all add: h'_def Push_def Let_def)
  show "timer (store h' q) = (if q = p then timer t else timer (store h q))"
    by (simp add: h'_def Push_def Let_def)
  have "index (store h' ((items h @ [p]) ! c)) = int c" if "c < Suc (length (items h))" for c
    using assms(1) fresh that nth_mem [of c "items h"]
    by (auto simp: idx nth_append linked_def less_Suc_eq)
  then show "linked h'"
    using assms(1,2) fresh by (auto simp: linked_def it np less_Suc_eq)
qed

lemma heap_on_cong:
  assumes "\<forall>x \<in> set xs. k x = k' x" "n \<le> length xs"
  shows "heap_on k xs n = heap_on k' xs n"
proof -
  have "k (xs ! c) = k' (xs ! c)" if "c < n" for c using assms that by simp
  then show ?thesis unfolding heap_on_def by (metis less_trans parent_less)
qed

lemma Add_spec:
  assumes "heap_wf h"
  shows "heap_wf (Add t h)" and "pending (Add t h) = add_mset (timer t) (pending h)"
    and "cancellable h \<Longrightarrow> timerID t \<notin> timerID ` set_mset (pending h) \<Longrightarrow> cancellable (Add t h)"
proof -
  define p where "p = nextPtr h"
  define b where "b = (byID h)(timerID t \<mapsto> p)"
  define h1 where "h1 = Push p (h\<lparr>store := (store h)(p := t), nextPtr := p + 1, byID := b\<rparr>)"
  have l: "linked h" and hp: "heap_on (key h) (items h) (length (items h))"
    and ids: "\<And>i q. byID h i = Some q \<Longrightarrow> q \<in> set (items h) \<and> timerID (store h q) = i"
    using assms by (auto simp: heap_wf_def)
  note h1 = Push_spec [where t = t and b = b, OF l p_def, folded h1_def]
  have st: "timerID (store h1 q) = (if q = p then timerID t else timerID (store h q))"
      "key h1 q = (if q = p then due t else key h q)" for q
    using arg_cong [OF h1(5), of timerID q] arg_cong [OF h1(5), of due q] by (simp_all split: if_splits)
  have fresh: "p \<notin> set (items h)" using l by (auto simp: linked_def p_def)
  have Add: "Add t h = heap_up (length (items h)) h1"
    using h1(2) by (simp add: Add_def heap_Push_def Len_def h1_def b_def p_def Let_def)
  have len: "length (items h) < length (items h1)" using h1(2) by simp
  have u: "items (Add t h) = up (key h1) (items h1) (length (items h))" "same h1 (Add t h)" "linked (Add t h)"
    using heap_up_spec [OF h1(1) len] by (simp_all add: Add)
  have ms: "mset (items (Add t h)) = add_mset p (mset (items h))"
    using up_mset [OF len, of "key h1"] u(1) h1(2) by simp
  have len': "length (items (Add t h)) = Suc (length (items h))"
    using arg_cong [OF ms, of size] by simp
  from ms have set: "set (items (Add t h)) = insert p (set (items h))"
    by (metis set_mset_add_mset_insert set_mset_mset)
  have "\<forall>q \<in> set (items h). key h1 q = key h q" unfolding st(2) using fresh by auto
  from heap_on_cong [OF this order_refl] have "heap_on (key h1) (items h) (length (items h))"
    using hp by simp
  from heap_push [OF this, of p] have ho: "heap_on (key h1) (items (Add t h)) (Suc (length (items h)))"
    using u(1) h1(2) by simp
  have bi: "byID (Add t h) = b" "\<And>q. timerID (store (Add t h) q) = timerID (store h1 q)"
    using u(2) h1(4) same_store [OF u(2)] unfolding same_def by simp_all
  have ids': "q \<in> set (items (Add t h)) \<and> timerID (store (Add t h) q) = i"
    if "byID (Add t h) i = Some q" for i q
    using that ids [of i q] fresh unfolding bi set st(1) by (auto simp: b_def split: if_splits)
  show "heap_wf (Add t h)"
    using u(3) ho len' ids' same_key [OF u(2)] by (simp add: heap_wf_def)
  have "pending (Add t h) = add_mset (timer t) (image_mset (\<lambda>q. timer (store h1 q)) (mset (items h)))"
    using u(2) h1(5) [of p] by (simp add: pending_def ms same_def)
  also have "image_mset (\<lambda>q. timer (store h1 q)) (mset (items h)) = pending h"
    unfolding pending_def using fresh h1(5) by (intro image_mset_cong) auto
  finally show "pending (Add t h) = add_mset (timer t) (pending h)" .
  assume c: "cancellable h" "timerID t \<notin> timerID ` set_mset (pending h)"
  have "timerID (store h q) \<noteq> timerID t" if "q \<in> set (items h)" for q
    using c(2) that by (simp add: pending_def image_image) (metis imageI)
  then show "cancellable (Add t h)"
    using c(1) fresh unfolding cancellable_def bi set st(1) by (auto simp: b_def)
qed

subsection \<open>Taking a timer out\<close>

lemma heap_wf_without:
  assumes "heap_wf h" "linked h'" "heap_on (key h') (items h') (length (items h'))"
    and "mset (items h) = add_mset p (mset (items h'))"
    and "\<And>q. timer (store h' q) = timer (store h q)"
    and b: "byID h' = (byID h)(timerID (store h p) := None)"
  shows "heap_wf h'" and "pending h = add_mset (timer (store h p)) (pending h')"
    and "cancellable h \<Longrightarrow> cancellable h'"
proof -
  have set: "set (items h) = insert p (set (items h'))"
    using assms(4) by (metis set_mset_add_mset_insert set_mset_mset)
  have "distinct (items h)" using assms(1) by (simp add: heap_wf_def linked_def)
  then have p: "p \<notin> set (items h')"
    using assms(4) mset_eq_imp_distinct_iff [of "items h" "p # items h'"] by simp
  have id: "timerID (store h' q) = timerID (store h q)" for q using assms(5) due_timer(2) by metis
  show "heap_wf h'"
    using assms(1-3) set unfolding heap_wf_def b id by (auto split: if_splits)
  show "pending h = add_mset (timer (store h p)) (pending h')"
    by (simp add: pending_def assms(4,5))
  assume "cancellable h"
  then show "cancellable h'"
    using set p unfolding cancellable_def b id by (metis fun_upd_other insertCI option.inject)
qed

lemma PopTimer_spec:
  assumes "heap_wf h" "items h \<noteq> []"
  obtains t h' where "PopTimer h = (Some t, h')" and "heap_wf h'"
    and "pending h = add_mset (timer t) (pending h')" and "\<forall>u \<in># pending h'. due t \<le> due u"
    and "cancellable h \<longrightarrow> cancellable h'" and "Peek h = Some (t\<lparr>index := 0\<rparr>)"
proof -
  obtain p h1 where r: "heap_Pop h = (p, h1)" by fastforce
  have l: "linked h" and ho: "heap_on (key h) (items h) (length (items h))" and len: "0 < length (items h)"
    using assms by (auto simp: heap_wf_def)
  from r have "heap_Remove 0 h = (p, h1)" by (simp add: heap_Pop_Remove [OF l assms(2)])
  note s = heap_Remove_spec [OF l ho len this]
  define h' where "h' = h1\<lparr>byID := (byID h1)(timerID (store h1 p) := None)\<rparr>"
  have P: "PopTimer h = (Some (store h1 p), h')"
    using assms(2) r by (simp add: PopTimer_def Len_def h'_def Let_def)
  have ts: "timer (store h1 q) = timer (store h q)" for q using s by (simp add: same_def)
  have id: "timerID (store h1 p) = timerID (store h p)" using ts [of p] by (metis due_timer(2))
  have l': "linked h'" using s by (simp add: h'_def linked_def)
  have w: "heap_wf h'" "pending h = add_mset (timer (store h p)) (pending h')" "cancellable h \<Longrightarrow> cancellable h'"
    using heap_wf_without [OF assms(1) l', of p] s ts id by (simp_all add: h'_def same_def)
  have "due (store h1 p) \<le> due u" if "u \<in># pending h" for u
  proof -
    from that obtain c where c: "c < length (items h)" "u = timer (store h (items h ! c))"
      by (auto simp: pending_def in_set_conv_nth)
    with heap_min [OF ho c(1)] s ts [of p] show ?thesis by (metis due_timer(1))
  qed
  with w(2) have "\<forall>u \<in># pending h'. due (store h1 p) \<le> due u" by simp
  moreover have "Peek h = Some ((store h1 p)\<lparr>index := 0\<rparr>)"
    using ts [of p] s l len by (simp add: Peek_def Len_def timer_def linked_def)
  ultimately show thesis using that [OF P w(1)] w(2,3) ts [of p] by simp
qed

lemma Remove_absent: "byID h i = None \<Longrightarrow> Remove i h = Some (False, h)"
  by (simp add: Remove_def)

lemma Remove_present:
  assumes "heap_wf h" "byID h i = Some p"
  obtains h' where "Remove i h = Some (True, h')" and "heap_wf h'"
    and "pending h = add_mset (timer (store h p)) (pending h')" and "cancellable h \<longrightarrow> cancellable h'"
proof -
  define h0 where "h0 = h\<lparr>byID := (byID h)(i := None)\<rparr>"
  have p: "p \<in> set (items h)" and id: "timerID (store h p) = i" using assms by (auto simp: heap_wf_def)
  then obtain c where c: "c < length (items h)" "items h ! c = p" by (auto simp: in_set_conv_nth)
  have l: "linked h" and ho: "heap_on (key h) (items h) (length (items h))"
    using assms(1) by (simp_all add: heap_wf_def)
  with c have k: "index (store h p) = int c" by (auto simp: linked_def)
  have l0: "linked h0" "heap_on (key h0) (items h0) (length (items h0))" "c < length (items h0)"
    using l ho c by (simp_all add: h0_def linked_def)
  obtain q h' where r: "heap_Remove c h0 = (q, h')" by fastforce
  note s = heap_Remove_spec [OF l0 r]
  have R: "Remove i h = Some (True, h')"
    using assms(2) k c(1) r by (simp add: Remove_def Let_def Len_def h0_def)
  have "heap_wf h'" "pending h = add_mset (timer (store h p)) (pending h')" "cancellable h \<Longrightarrow> cancellable h'"
    using heap_wf_without [OF assms(1), of h' p] s c id by (simp_all add: h0_def same_def)
  with that [OF R] show thesis by blast
qed

end
