(* ===== verification/Timer_Queue.thy ===== *)
theory Timer_Queue
  imports Timer_Heap
begin

text \<open>
  The contract of the simulation's timer heap as an interface, what follows from it for any
  client, and the heap as its implementation; then the behaviour of whole sequences of heap
  operations, and what happens when two timers share an id.
\<close>

section \<open>The interface\<close>

text \<open>Popping at most \<open>m\<close> timers.\<close>

fun drain :: "('q \<Rightarrow> 't option \<times> 'q) \<Rightarrow> nat \<Rightarrow> 'q \<Rightarrow> 't list" where
  "drain pop 0 q = []"
| "drain pop (Suc m) q =
    (case pop q of (None, _) \<Rightarrow> [] | (Some t, q') \<Rightarrow> t # drain pop m q')"

locale timer_queue =
  fixes inv :: "'q \<Rightarrow> bool" and content :: "'q \<Rightarrow> 't multiset" and view :: "'t \<Rightarrow> 't"
    and rank :: "'t \<Rightarrow> 'k::linorder" and new :: 'q and add :: "'t \<Rightarrow> 'q \<Rightarrow> 'q"
    and pop :: "'q \<Rightarrow> 't option \<times> 'q"
  assumes new_ok: "inv new" "content new = {#}"
    and add_ok: "inv q \<Longrightarrow> inv (add t q)" "inv q \<Longrightarrow> content (add t q) = add_mset (view t) (content q)"
    and rank_view: "rank (view t) = rank t"
    and pop_ok: "inv q \<Longrightarrow> content q \<noteq> {#} \<Longrightarrow>
      \<exists>t q'. pop q = (Some t, q') \<and> inv q' \<and> content q = add_mset (view t) (content q')
        \<and> (\<forall>u \<in># content q'. rank t \<le> rank u)"
begin

lemma add_all:
  "inv q \<Longrightarrow> inv (fold add ts q) \<and> content (fold add ts q) = content q + mset (map view ts)"
  by (induction ts arbitrary: q) (auto simp: add_ok)

lemma drain_all:
  "inv q \<Longrightarrow> size (content q) = m \<Longrightarrow>
    mset (map view (drain pop m q)) = content q \<and> sorted (map rank (drain pop m q))"
proof (induction m arbitrary: q)
  case (Suc m)
  then have "content q \<noteq> {#}" by auto
  from pop_ok [OF Suc.prems(1) this] obtain t q' where p: "pop q = (Some t, q')" "inv q'"
      "content q = add_mset (view t) (content q')" "\<forall>u \<in># content q'. rank t \<le> rank u" by blast
  from p(3) Suc.prems(2) have "size (content q') = m" by simp
  from Suc.IH [OF p(2) this] have IH: "mset (map view (drain pop m q')) = content q'"
    "sorted (map rank (drain pop m q'))" by auto
  have "rank t \<le> rank u" if "u \<in> set (drain pop m q')" for u
  proof -
    have "view u \<in> set (map view (drain pop m q'))" using that by simp
    then have "view u \<in># content q'" using IH(1) by (metis set_mset_mset)
    with p(4) show ?thesis by (metis rank_view)
  qed
  with IH p show ?case by simp
qed simp

lemma sorts:
  "mset (map view (drain pop (length ts) (fold add ts new))) = mset (map view ts)
    \<and> sorted (map rank (drain pop (length ts) (fold add ts new)))"
  using add_all [OF new_ok(1), of ts] drain_all [of "fold add ts new" "length ts"] by (simp add: new_ok)

end

lemma pending_empty_iff: "pending h = {#} \<longleftrightarrow> items h = []"
  by (simp add: pending_def)

interpretation tq: timer_queue heap_wf pending timer due newTimerHeap Add PopTimer
proof unfold_locales
  fix q :: timerHeap
  assume q: "heap_wf q" "pending q \<noteq> {#}"
  then have "items q \<noteq> []" by (simp add: pending_empty_iff)
  from q(1) this show "\<exists>t q'. PopTimer q = (Some t, q') \<and> heap_wf q' \<and>
      pending q = add_mset (timer t) (pending q') \<and> (\<forall>u \<in># pending q'. due t \<le> due u)"
    by (rule PopTimer_spec) blast
qed (simp_all add: newTimerHeap_ok Add_spec)

text \<open>C22. Timers fire in order: whatever timers are added to an empty heap, in whatever order,
  popping returns exactly these timers, by increasing time and, at the same time, by
  increasing id.\<close>

theorem timers_fire_in_order:
  "mset (map timer (drain PopTimer (length ts) (fold Add ts newTimerHeap))) = mset (map timer ts)
    \<and> sorted (map due (drain PopTimer (length ts) (fold Add ts newTimerHeap)))"
  by (rule tq.sorts)

section \<open>Sequences of operations\<close>

datatype heapOp = OpAdd pendingTimer | OpPop | OpCancel timer_id

fun runOp :: "heapOp \<Rightarrow> timerHeap \<Rightarrow> timerHeap option" where
  "runOp (OpAdd t) h = Some (Add t h)"
| "runOp OpPop h = Some (snd (PopTimer h))"
| "runOp (OpCancel i) h = map_option snd (Remove i h)"

fun runOps :: "heapOp list \<Rightarrow> timerHeap \<Rightarrow> timerHeap option" where
  "runOps [] h = Some h"
| "runOps (x # xs) h = (case runOp x h of None \<Rightarrow> None | Some h' \<Rightarrow> runOps xs h')"

fun addedID :: "heapOp \<Rightarrow> timer_id list" where
  "addedID (OpAdd t) = [timerID t]"
| "addedID OpPop = []"
| "addedID (OpCancel i) = []"

definition addedIDs :: "heapOp list \<Rightarrow> timer_id list" where
  "addedIDs xs = concat (map addedID xs)"

lemma addedIDs_Cons: "addedIDs (x # xs) = addedID x @ addedIDs xs"
  by (simp add: addedIDs_def)

text \<open>One operation: no panic, the invariant is kept, ids come from added timers only.\<close>

lemma runOp_ok:
  assumes "heap_wf h"
  shows "\<exists>h'. runOp x h = Some h' \<and> heap_wf h'
    \<and> timerID ` set_mset (pending h') \<subseteq> timerID ` set_mset (pending h) \<union> set (addedID x)
    \<and> (cancellable h \<longrightarrow> timerID ` set_mset (pending h) \<inter> set (addedID x) = {} \<longrightarrow> cancellable h')"
proof (cases x)
  case (OpAdd t)
  with assms Add_spec [OF assms, of t] show ?thesis by auto
next
  case OpPop
  show ?thesis
  proof (cases "items h = []")
    case True
    with assms OpPop show ?thesis by (simp add: PopTimer_def Len_def)
  next
    case False
    with assms obtain t h' where "PopTimer h = (Some t, h')" "heap_wf h'"
      "pending h = add_mset (timer t) (pending h')" "cancellable h \<longrightarrow> cancellable h'"
      by (rule PopTimer_spec) blast
    with OpPop show ?thesis by auto
  qed
next
  case (OpCancel i)
  show ?thesis
  proof (cases "byID h i")
    case None
    with assms OpCancel show ?thesis by (simp add: Remove_absent)
  next
    case (Some p)
    with assms obtain h' where "Remove i h = Some (True, h')" "heap_wf h'"
      "pending h = add_mset (timer (store h p)) (pending h')" "cancellable h \<longrightarrow> cancellable h'"
      by (rule Remove_present) blast
    with OpCancel show ?thesis by auto
  qed
qed

lemma runOps_ok:
  "heap_wf h \<Longrightarrow> \<exists>h'. runOps xs h = Some h' \<and> heap_wf h'
    \<and> (cancellable h \<longrightarrow> distinct (addedIDs xs) \<longrightarrow>
        timerID ` set_mset (pending h) \<inter> set (addedIDs xs) = {} \<longrightarrow> cancellable h')"
proof (induction xs arbitrary: h)
  case (Cons x xs)
  from runOp_ok [OF Cons.prems, of x] obtain h1 where h1: "runOp x h = Some h1" "heap_wf h1"
    "timerID ` set_mset (pending h1) \<subseteq> timerID ` set_mset (pending h) \<union> set (addedID x)"
    "cancellable h \<Longrightarrow> timerID ` set_mset (pending h) \<inter> set (addedID x) = {} \<Longrightarrow> cancellable h1"
    by blast
  from Cons.IH [OF h1(2)] obtain h2 where h2: "runOps xs h1 = Some h2" "heap_wf h2"
    "cancellable h1 \<Longrightarrow> distinct (addedIDs xs) \<Longrightarrow>
      timerID ` set_mset (pending h1) \<inter> set (addedIDs xs) = {} \<Longrightarrow> cancellable h2" by blast
  have "cancellable h2" if "cancellable h" "distinct (addedIDs (x # xs))"
    "timerID ` set_mset (pending h) \<inter> set (addedIDs (x # xs)) = {}"
  proof (rule h2(3))
    show "cancellable h1" using h1(4) that by (auto simp: addedIDs_def)
    show "distinct (addedIDs xs)" using that by (simp add: addedIDs_def)
    show "timerID ` set_mset (pending h1) \<inter> set (addedIDs xs) = {}"
      using h1(3) that(2,3) unfolding addedIDs_Cons by auto
  qed
  with h1(1) h2(1,2) show ?case by auto
qed (auto simp: addedIDs_def)


lemma pending_others:
  assumes "heap_wf h" "cancellable h" "byID h i = Some p"
    and "pending h = add_mset (timer (store h p)) M"
  shows "filter_mset (\<lambda>t. timerID t \<noteq> i) (pending h) = M"
proof -
  have p: "p \<in> set (items h)" "timerID (store h p) = i" and d: "distinct (items h)"
    using assms(1,3) by (auto simp: heap_wf_def linked_def)
  let ?f = "\<lambda>q. timer (store h q)"
  obtain ys where ys: "mset (items h) = add_mset p (mset ys)" "set ys = set (items h) - {p}"
    using p(1) d that [of "remove1 p (items h)"] by simp
  have "\<forall>q \<in> set ys. timerID (store h q) \<noteq> i"
    using ys(2) assms(2,3) by (auto simp: cancellable_def)
  then have "filter_mset (\<lambda>t. timerID t \<noteq> i) (image_mset ?f (mset ys)) = image_mset ?f (mset ys)"
    by (intro filter_mset_cong [THEN trans, OF refl _ filter_mset_True]) auto
  moreover have "pending h = add_mset (?f p) (image_mset ?f (mset ys))"
    by (simp add: pending_def ys(1))
  ultimately show ?thesis using assms(4) p(2) by simp
qed

text \<open>C24. Cancelling is exact when ids are not reused: after any operations that add timers with
  distinct ids, \<open>Remove\<close> tells whether a timer with the id is pending and takes out just
  that timer.\<close>

theorem cancel_exact:
  assumes "runOps xs newTimerHeap = Some h" and "distinct (addedIDs xs)"
  shows "\<exists>h'. Remove i h = Some (i \<in> timerID ` set_mset (pending h), h')
    \<and> pending h' = filter_mset (\<lambda>t. timerID t \<noteq> i) (pending h)"
proof -
  from runOps_ok [OF newTimerHeap_ok(1), of xs] assms newTimerHeap_ok
  have h: "heap_wf h" "cancellable h" by auto
  show ?thesis
  proof (cases "byID h i")
    case None
    with h(2) have "\<forall>t \<in># pending h. timerID t \<noteq> i" by (auto simp: cancellable_def pending_def)
    then have "filter_mset (\<lambda>t. timerID t \<noteq> i) (pending h) = pending h"
      "i \<notin> timerID ` set_mset (pending h)"
      by (auto intro: filter_mset_cong [THEN trans, OF refl _ filter_mset_True])
    with None show ?thesis by (simp add: Remove_absent)
  next
    case (Some p)
    from h(1) Some obtain h' where h': "Remove i h = Some (True, h')"
      "pending h = add_mset (timer (store h p)) (pending h')" "cancellable h \<longrightarrow> cancellable h'" "heap_wf h'"
      by (rule Remove_present) blast
    have id: "timerID (store h p) = i" using h(1) Some by (simp add: heap_wf_def)
    from h'(1) pending_others [OF h Some h'(2)] id show ?thesis by (auto simp: h'(2))
  qed
qed

theorem cancel_exact_witness:
  "let t1 = \<lparr>fireAt = 30, timerID = 1, nodeID = ''a'', index = 0\<rparr>;
       t2 = \<lparr>fireAt = 20, timerID = 2, nodeID = ''a'', index = 0\<rparr>;
       xs = [OpAdd t1, OpAdd t2] in
   \<exists>h h'. runOps xs newTimerHeap = Some h \<and> distinct (addedIDs xs)
     \<and> Remove 1 h = Some (True, h') \<and> pending h' = {#t2#}"
proof -
  define t1 where "t1 = \<lparr>fireAt = 30, timerID = 1, nodeID = ''a'', index = 0\<rparr>"
  define t2 where "t2 = \<lparr>fireAt = 20, timerID = 2, nodeID = ''a'', index = 0\<rparr>"
  define xs where "xs = [OpAdd t1, OpAdd t2]"
  have d: "distinct (addedIDs xs)" by (simp add: xs_def addedIDs_def t1_def t2_def)
  obtain h where h: "runOps xs newTimerHeap = Some h" by (simp add: xs_def)
  then have "h = Add t2 (Add t1 newTimerHeap)" by (simp add: xs_def)
  then have "pending h = {#timer t1, timer t2#}"
    using Add_spec newTimerHeap_ok by (simp add: add_mset_commute)
  then have p: "pending h = {#t1, t2#}" by (simp add: timer_def t1_def t2_def)
  from cancel_exact [OF h d, of 1] p h d show ?thesis
    by (auto simp: xs_def t1_def t2_def)
qed

section \<open>Shared ids\<close>


end
