(* ===== verification/Sim.thy ===== *)
theory Sim
  imports Complex_Main Timer_Queue Node_Machine
begin

text \<open>
  The deterministic simulation (\<open>src/internal/sim/sim.go\<close>, \<open>simio.go\<close>, \<open>clock.go\<close>): a
  virtual clock, the shared timer heap, a queue of RPCs with partitions, drops and delays,
  and the loop that delivers one event at a time.

  Closures are callback numbers. \<open>calls\<close> logs the IO callbacks the simulation resolves,
  \<open>responses\<close> and \<open>dones\<close> log what the nodes pass to the closures of their events. The
  coroutine scheduler is a parameter: \<open>run now i s\<close> is \<open>RunUntilBlocked\<close> of node \<open>i\<close>; the
  relation \<open>ran\<close> says what it may do to the simulation. Rates are rational numbers and the
  random source is the sequence of its draws. Functions that can loop forever are partial:
  \<open>None\<close> is no result (an endless loop, or a panic).
\<close>

section \<open>State\<close>

record simIO =
  io_events :: "event list"
  io_pendingRecv :: "callback option"
  io_nextTimerID :: timer_id

record pendingRPC =
  pr_from :: string
  pr_to :: string
  pr_req :: rpcRequest
  pr_callback :: callback
  pr_deliverAt :: gotime

record simulation =
  nodes :: "(string \<times> cfg) list"
  ios :: "string \<Rightarrow> simIO"
  nodeOrder :: "string list"
  clock :: gotime
  heap :: timerHeap
  rpcQueue :: "pendingRPC list"
  partitions :: "string \<rightharpoonup> (string \<rightharpoonup> bool)"
  dropRate :: rat
  nodeDrops :: "string \<rightharpoonup> rat"
  delays :: "string \<rightharpoonup> (string \<rightharpoonup> duration)"
  simRng :: "nat \<Rightarrow> rat"
  simRngPos :: nat
  calls :: "(callback \<times> resp) list"
  responses :: "(callback \<times> rpcResponse) list"
  dones :: "(callback \<times> error option) list"
  nextCallback :: callback

definition maxSteps :: nat where
  "maxSteps = 1000000"

text \<open>The clock of \<open>clock.go\<close>: a new one is set by assignment.\<close>

definition Advance :: "duration \<Rightarrow> simulation \<Rightarrow> simulation" where
  "Advance d s = s\<lparr>clock := time_Add (clock s) d\<rparr>"

definition call :: "callback \<Rightarrow> resp \<Rightarrow> simulation \<Rightarrow> simulation" where
  "call cb r s = s\<lparr>calls := calls s @ [(cb, r)]\<rparr>"

definition Float64 :: "simulation \<Rightarrow> rat \<times> simulation" where
  "Float64 s = (simRng s (simRngPos s), s\<lparr>simRngPos := Suc (simRngPos s)\<rparr>)"

section \<open>Fault injection\<close>

definition setPartition :: "string \<Rightarrow> string \<Rightarrow> bool \<Rightarrow> simulation \<Rightarrow> simulation" where
  "setPartition from to blocked s =
    (let m = (case partitions s from of None \<Rightarrow> Map.empty | Some m \<Rightarrow> m)
     in s\<lparr>partitions := (partitions s)(from \<mapsto> m(to \<mapsto> blocked))\<rparr>)"

definition isPartitioned :: "simulation \<Rightarrow> string \<Rightarrow> string \<Rightarrow> bool" where
  "isPartitioned s from to =
    (case partitions s from of None \<Rightarrow> False | Some m \<Rightarrow> (case m to of None \<Rightarrow> False | Some b \<Rightarrow> b))"

definition Partition :: "string list \<Rightarrow> string list \<Rightarrow> simulation \<Rightarrow> simulation" where
  "Partition groupA groupB s =
    fold (\<lambda>a. fold (\<lambda>b s. setPartition b a True (setPartition a b True s)) groupB) groupA s"

definition HealAll :: "simulation \<Rightarrow> simulation" where
  "HealAll s = s\<lparr>partitions := Map.empty\<rparr>"

definition SetDropRate :: "rat \<Rightarrow> simulation \<Rightarrow> simulation" where
  "SetDropRate rate s = s\<lparr>dropRate := rate\<rparr>"

definition SetNodeDropRate :: "string \<Rightarrow> rat \<Rightarrow> simulation \<Rightarrow> simulation" where
  "SetNodeDropRate nid rate s = s\<lparr>nodeDrops := (nodeDrops s)(nid \<mapsto> rate)\<rparr>"

definition SetDelay :: "string \<Rightarrow> string \<Rightarrow> duration \<Rightarrow> simulation \<Rightarrow> simulation" where
  "SetDelay from to d s =
    (let m = (case delays s from of None \<Rightarrow> Map.empty | Some m \<Rightarrow> m)
     in s\<lparr>delays := (delays s)(from \<mapsto> m(to \<mapsto> d))\<rparr>)"

abbreviation dropped :: resp where
  "dropped \<equiv> (resp_of SendRPC)\<lparr>r_Err := Some ErrDropped\<rparr>"

definition queueRPC :: "string \<Rightarrow> string \<Rightarrow> rpcRequest \<Rightarrow> callback \<Rightarrow> simulation \<Rightarrow> simulation" where
  "queueRPC from to rq cb s =
    (if isPartitioned s from to then call cb dropped s
     else
       let (drop, s) =
         (case nodeDrops s from of
            Some nodeRate \<Rightarrow> (let (x, s) = Float64 s in (x < nodeRate, s))
          | None \<Rightarrow>
              if 0 < dropRate s then (let (x, s) = Float64 s in (x < dropRate s, s)) else (False, s))
       in if drop then call cb dropped s
          else
            let deliverAt =
              (case delays s from of
                 None \<Rightarrow> 0
               | Some fromDelays \<Rightarrow>
                   (case fromDelays to of
                      None \<Rightarrow> 0
                    | Some delay \<Rightarrow> if 0 < delay then time_Add (clock s) delay else 0))
            in s\<lparr>rpcQueue := rpcQueue s @ [\<lparr>pr_from = from, pr_to = to, pr_req = rq,
                   pr_callback = cb, pr_deliverAt = deliverAt\<rparr>]\<rparr>)"

section \<open>The IO adapter of a node\<close>

definition setIO :: "string \<Rightarrow> simIO \<Rightarrow> simulation \<Rightarrow> simulation" where
  "setIO nid io s = s\<lparr>ios := (ios s)(nid := io)\<rparr>"

fun Dispatch_Recv :: "string \<Rightarrow> callback \<Rightarrow> event list \<Rightarrow> simulation \<Rightarrow> simulation" where
  "Dispatch_Recv nid cb (ev # evs) s =
    call cb ((resp_of Recv)\<lparr>r_Event := ev\<rparr>) (setIO nid ((ios s nid)\<lparr>io_events := evs\<rparr>) s)"
| "Dispatch_Recv nid cb [] s = setIO nid ((ios s nid)\<lparr>io_pendingRecv := Some cb\<rparr>) s"

definition Dispatch :: "string \<Rightarrow> req \<Rightarrow> callback \<Rightarrow> simulation \<Rightarrow> simulation option" where
  "Dispatch nid q cb s =
    (case q_Kind q of
       SendRPC \<Rightarrow> Some (queueRPC nid (q_Peer q) (q_RPCReq q) cb s)
     | Recv \<Rightarrow> Some (Dispatch_Recv nid cb (io_events (ios s nid)) s)
     | After \<Rightarrow>
         let tid = wrap64 (io_nextTimerID (ios s nid) + 1);
             s = setIO nid ((ios s nid)\<lparr>io_nextTimerID := tid\<rparr>) s;
             fireAt = time_Add (clock s) (q_Delay q);
             s = s\<lparr>heap := Add \<lparr>fireAt = fireAt, timerID = tid, nodeID = nid, index = 0\<rparr> (heap s)\<rparr>
         in Some (call cb ((resp_of After)\<lparr>r_TimerID := tid\<rparr>) s)
     | Cancel \<Rightarrow>
         (case Remove (q_TimerID q) (heap s) of
            None \<Rightarrow> None
          | Some (_, h) \<Rightarrow> Some (call cb (resp_of Cancel) (s\<lparr>heap := h\<rparr>)))
     | Now \<Rightarrow> Some (call cb ((resp_of Now)\<lparr>r_Time := clock s\<rparr>) s))"

definition deliverEvent :: "string \<Rightarrow> event \<Rightarrow> simulation \<Rightarrow> simulation" where
  "deliverEvent nid ev s =
    (let io = ios s nid in
     case io_pendingRecv io of
       Some cb \<Rightarrow> call cb ((resp_of Recv)\<lparr>r_Event := ev\<rparr>) (setIO nid (io\<lparr>io_pendingRecv := None\<rparr>) s)
     | None \<Rightarrow> setIO nid (io\<lparr>io_events := io_events io @ [ev]\<rparr>) s)"

section \<open>The RPC queue\<close>

definition hasReadyRPC :: "simulation \<Rightarrow> bool" where
  "hasReadyRPC s =
    list_ex (\<lambda>r. time_IsZero (pr_deliverAt r) \<or> \<not> clock s < pr_deliverAt r) (rpcQueue s)"

definition nextDelayedRPC :: "simulation \<Rightarrow> pendingRPC option" where
  "nextDelayedRPC s = find (\<lambda>r. \<not> time_IsZero (pr_deliverAt r)) (rpcQueue s)"

definition dequeueReadyRPC :: "simulation \<Rightarrow> pendingRPC option \<times> simulation" where
  "dequeueReadyRPC s =
    (case List.extract (\<lambda>r. time_IsZero (pr_deliverAt r)) (rpcQueue s) of
       None \<Rightarrow> (None, s)
     | Some (before, rpc, after) \<Rightarrow> (Some rpc, s\<lparr>rpcQueue := before @ after\<rparr>))"

definition nextEventTime :: "simulation \<Rightarrow> gotime" where
  "nextEventTime s =
    (if list_ex (\<lambda>r. time_IsZero (pr_deliverAt r)) (rpcQueue s) then clock s
     else case (nextDelayedRPC s, Peek (heap s)) of
       (None, None) \<Rightarrow> 0
     | (None, Some t) \<Rightarrow> fireAt t
     | (Some r, None) \<Rightarrow> pr_deliverAt r
     | (Some r, Some t) \<Rightarrow> if pr_deliverAt r < fireAt t then pr_deliverAt r else fireAt t)"

section \<open>Delivery\<close>

type_synonym scheduler = "gotime \<Rightarrow> string \<Rightarrow> simulation \<Rightarrow> simulation"

definition newCallback :: "simulation \<Rightarrow> callback \<times> simulation" where
  "newCallback s = (nextCallback s, s\<lparr>nextCallback := Suc (nextCallback s)\<rparr>)"

text \<open>The value a captured variable has after the node called the closure, the last call.\<close>

definition lastFor :: "callback \<Rightarrow> (callback \<times> 'a) list \<Rightarrow> 'a option" where
  "lastFor cb xs = map_of (rev xs) cb"

definition stepSender :: "scheduler \<Rightarrow> string \<Rightarrow> simulation \<Rightarrow> simulation" where
  "stepSender run nid s = (case map_of (nodes s) nid of None \<Rightarrow> s | Some _ \<Rightarrow> run (clock s) nid s)"

definition deliverRPC :: "scheduler \<Rightarrow> pendingRPC \<Rightarrow> simulation \<Rightarrow> simulation" where
  "deliverRPC run rpc s =
    (case map_of (nodes s) (pr_to rpc) of
       None \<Rightarrow> call (pr_callback rpc)
         ((resp_of SendRPC)\<lparr>r_Err := Some (ErrText (''unknown node: '' @ pr_to rpc))\<rparr>) s
     | Some _ \<Rightarrow>
         let (cb, s) = newCallback s;
             s = deliverEvent (pr_to rpc)
                   ((event_of EventRPC)\<lparr>ev_RPCReq := pr_req rpc, ev_Respond := Some cb\<rparr>) s;
             s = run (clock s) (pr_to rpc) s;
             s = call (pr_callback rpc)
                   (case lastFor cb (responses s) of
                      Some r \<Rightarrow> (resp_of SendRPC)\<lparr>r_RPCResp := r\<rparr>
                    | None \<Rightarrow> (resp_of SendRPC)\<lparr>r_Err := Some (ErrText (''no response from '' @ pr_to rpc))\<rparr>) s
         in stepSender run (pr_from rpc) s)"

partial_function (option) drainImmediateRPCs :: "scheduler \<Rightarrow> simulation \<Rightarrow> simulation option" where
  "drainImmediateRPCs run s =
    (case dequeueReadyRPC s of
       (None, s) \<Rightarrow> Some s
     | (Some rpc, s) \<Rightarrow> drainImmediateRPCs run (deliverRPC run rpc s))"

definition fireTimer :: "scheduler \<Rightarrow> pendingTimer \<Rightarrow> simulation \<Rightarrow> simulation option" where
  "fireTimer run t s =
    (let s = (if clock s < fireAt t then s\<lparr>clock := fireAt t\<rparr> else s);
         s = s\<lparr>heap := snd (PopTimer (heap s))\<rparr>
     in case map_of (nodes s) (nodeID t) of
          None \<Rightarrow> Some s
        | Some _ \<Rightarrow>
            let s = deliverEvent (nodeID t) ((event_of EventTimer)\<lparr>ev_TimerID := timerID t\<rparr>) s;
                s = run (clock s) (nodeID t) s
            in drainImmediateRPCs run s)"

partial_function (option) sim_step :: "scheduler \<Rightarrow> simulation \<Rightarrow> (bool \<times> simulation) option" where
  "sim_step run s =
    (if \<not> hasReadyRPC s \<and> Peek (heap s) = None then
       (case nextDelayedRPC s of
          None \<Rightarrow> Some (False, s)
        | Some r \<Rightarrow>
            sim_step run (Advance (time_Sub (pr_deliverAt r) (clock s)) s))
     else
       let fire = (\<lambda>s. case Peek (heap s) of
                     None \<Rightarrow> Some (False, s)
                   | Some t \<Rightarrow> map_option (Pair True) (fireTimer run t s))
       in if hasReadyRPC s then
            (case Peek (heap s) of
               Some t \<Rightarrow>
                 if fireAt t < clock s then map_option (Pair True) (fireTimer run t s)
                 else (case dequeueReadyRPC s of
                         (Some rpc, s) \<Rightarrow> Some (True, deliverRPC run rpc s)
                       | (None, s) \<Rightarrow> fire s)
             | None \<Rightarrow>
                 (case dequeueReadyRPC s of
                    (Some rpc, s) \<Rightarrow> Some (True, deliverRPC run rpc s)
                  | (None, s) \<Rightarrow> fire s))
          else fire s)"

section \<open>Driving the simulation\<close>

partial_function (option) runFor_loop :: "scheduler \<Rightarrow> gotime \<Rightarrow> simulation \<Rightarrow> simulation option" where
  "runFor_loop run deadline s =
    (let nxt = nextEventTime s in
     if time_IsZero nxt \<or> deadline < nxt then Some (s\<lparr>clock := deadline\<rparr>)
     else case sim_step run s of None \<Rightarrow> None | Some (_, s) \<Rightarrow> runFor_loop run deadline s)"

definition RunFor :: "scheduler \<Rightarrow> duration \<Rightarrow> simulation \<Rightarrow> simulation option" where
  "RunFor run d s = runFor_loop run (time_Add (clock s) d) s"

definition LeaderCount :: "simulation \<Rightarrow> nat" where
  "LeaderCount s = length (filter (\<lambda>(_, c). IsLeader (shared c)) (nodes s))"

definition Leader :: "simulation \<Rightarrow> string" where
  "Leader s =
    (case find (\<lambda>i. case map_of (nodes s) i of None \<Rightarrow> False | Some c \<Rightarrow> IsLeader (shared c)) (nodeOrder s) of
       None \<Rightarrow> [] | Some i \<Rightarrow> i)"

definition sim_Node :: "string \<Rightarrow> simulation \<Rightarrow> cfg option" where
  "sim_Node nid s = map_of (nodes s) nid"

datatype runError = NoEvents nat | StepLimit nat

text \<open>The loop of \<open>RunUntilLeader\<close>: \<open>k\<close> iterations are left, \<open>j\<close> are done.\<close>

fun runUntilLeader_loop :: "scheduler \<Rightarrow> nat \<Rightarrow> nat \<Rightarrow> simulation \<Rightarrow> (runError option \<times> simulation) option" where
  "runUntilLeader_loop run 0 j s = Some (Some (StepLimit maxSteps), s)"
| "runUntilLeader_loop run (Suc k) j s =
    (if LeaderCount s = 1 then Some (None, s)
     else case sim_step run s of
       None \<Rightarrow> None
     | Some (progress, s) \<Rightarrow>
         if progress then runUntilLeader_loop run k (Suc j) s else Some (Some (NoEvents j), s))"

definition RunUntilLeader :: "scheduler \<Rightarrow> simulation \<Rightarrow> (runError option \<times> simulation) option" where
  "RunUntilLeader run s = runUntilLeader_loop run maxSteps 0 s"

definition sim_SetPeers :: "scheduler \<Rightarrow> string \<Rightarrow> string list \<Rightarrow> simulation \<Rightarrow> simulation" where
  "sim_SetPeers run nid ps s =
    (case map_of (nodes s) nid of
       None \<Rightarrow> s
     | Some _ \<Rightarrow>
         let (cb, s) = newCallback s;
             s = deliverEvent nid ((event_of EventSetPeers)\<lparr>ev_Peers := ps, ev_Done := Some cb\<rparr>) s
         in run (clock s) nid s)"

definition sim_SetMetadata :: "scheduler \<Rightarrow> string \<Rightarrow> bytes \<Rightarrow> simulation \<Rightarrow> simulation" where
  "sim_SetMetadata run nid md s =
    (case map_of (nodes s) nid of
       None \<Rightarrow> s
     | Some _ \<Rightarrow>
         let (cb, s) = newCallback s;
             s = deliverEvent nid ((event_of EventSetMetadata)\<lparr>ev_Metadata := md, ev_Done := Some cb\<rparr>) s
         in run (clock s) nid s)"

text \<open>The first value sent on the result channel is returned, if there is one.\<close>

definition sim_Resign :: "scheduler \<Rightarrow> string \<Rightarrow> simulation \<Rightarrow> error option \<times> simulation" where
  "sim_Resign run nid s =
    (case map_of (nodes s) nid of
       None \<Rightarrow> (Some (ErrText (''unknown node: '' @ nid)), s)
     | Some _ \<Rightarrow>
         let (cb, s) = newCallback s;
             s = deliverEvent nid ((event_of EventResign)\<lparr>ev_Done := Some cb\<rparr>) s;
             s = run (clock s) nid s
         in (case map_of (dones s) cb of
               Some e \<Rightarrow> (e, s)
             | None \<Rightarrow> (Some (ErrText ''resign event not processed''), s)))"

section \<open>Building a simulation\<close>

record nodeSimConfig =
  nc_ElectionTimeout :: duration
  nc_HeartBeatTimeout :: duration
  nc_LeaderQuorumTimeout :: duration
  nc_MinimumQuorum :: int
  nc_Metadata :: bytes
  nc_hasOnChange :: bool

record simConfig =
  NumNodes :: int
  Seed :: int
  DropRate :: rat
  sc_MinimumQuorum :: int
  NodeConfig :: "string \<rightharpoonup> nodeSimConfig"

text \<open>\<open>StartNodeForSim\<close>: the node is marked as started even if its metadata is refused. \<open>added\<close> is
  whether the scheduler takes the coroutine.\<close>

definition StartNodeForSim :: "bool \<Rightarrow> node \<Rightarrow> error option \<times> node" where
  "StartNodeForSim added n =
    (if started n then (Some (ErrText ''node already started''), n)
     else
       let n = n\<lparr>started := True\<rparr> in
       if maxMetadataSize < bytes_len (confMetadata (conf n)) then (Some ErrMetadataTooLarge, n)
       else if \<not> added then (Some (ErrText ''failed to add coroutine to scheduler''), n)
       else (None, n))"

fun showNat :: "nat \<Rightarrow> string" where
  "showNat k = (if k < 10 then [char_of (48 + k)] else showNat (k div 10) @ [char_of (48 + k mod 10)])"

definition nodeName :: "nat \<Rightarrow> string" where
  "nodeName i = CHR ''n'' # showNat i"

definition applyOverrides :: "nodeSimConfig \<Rightarrow> config \<Rightarrow> config" where
  "applyOverrides nc c =
    (let c = (if nc_ElectionTimeout nc \<noteq> 0 then c\<lparr>ElectionTimeout := nc_ElectionTimeout nc\<rparr> else c);
         c = (if nc_HeartBeatTimeout nc \<noteq> 0 then c\<lparr>HeartBeatTimeout := nc_HeartBeatTimeout nc\<rparr> else c);
         c = (if nc_LeaderQuorumTimeout nc \<noteq> 0
              then c\<lparr>LeaderQuorumTimeout := nc_LeaderQuorumTimeout nc\<rparr> else c);
         c = (if nc_MinimumQuorum nc \<noteq> 0 then c\<lparr>MinimumQuorum := nc_MinimumQuorum nc\<rparr> else c);
         c = (if nc_Metadata nc \<noteq> None then c\<lparr>confMetadata := nc_Metadata nc\<rparr> else c);
         c = (if nc_hasOnChange nc then c\<lparr>hasOnChange := True\<rparr> else c)
     in c)"

definition nodeConfig :: "simConfig \<Rightarrow> string list \<Rightarrow> string \<Rightarrow> config" where
  "nodeConfig sc ps nid =
    (let c = \<lparr>UniqueID = nid, Peers = ps, confMetadata = None, hasSendRPC = True, hasOnChange = False,
               HeartBeatTimeout = 0, ElectionTimeout = 0, NetworkTimeout = 0, LeaderQuorumTimeout = 0,
               MinimumQuorum = sc_MinimumQuorum sc\<rparr>
     in case NodeConfig sc nid of None \<Rightarrow> c | Some nc \<Rightarrow> applyOverrides nc c)"

text \<open>\<open>time.Date(2024, 1, 1, 0, 0, 0, 0, time.UTC)\<close>: 738885 days after the zero time.\<close>

definition simStart :: gotime where
  "simStart = 738885 * 86400 * second"

text \<open>The loop that builds the nodes; \<open>ints seed\<close> are the draws of a seeded source. A failing
  constructor panics.\<close>

fun addNodes :: "(string \<Rightarrow> bool) \<Rightarrow> simConfig \<Rightarrow> (int \<Rightarrow> nat \<Rightarrow> int) \<Rightarrow> string list \<Rightarrow> nat \<Rightarrow> string list
    \<Rightarrow> simulation \<Rightarrow> simulation option" where
  "addNodes added sc ints ps i [] s = Some s"
| "addNodes added sc ints ps i (nid # ids) s =
    (case NewNodeForSim (nodeConfig sc ps nid) (ints (wrap64 (Seed sc + int i))) of
       Inl _ \<Rightarrow> None
     | Inr n \<Rightarrow>
         (case StartNodeForSim (added nid) n of
            (Some _, _) \<Rightarrow> None
          | (None, n) \<Rightarrow> addNodes added sc ints ps (Suc i) ids
              (s\<lparr>nodeOrder := nodeOrder s @ [nid], nodes := nodes s @ [(nid, initCfg n)]\<rparr>)))"

definition New :: "scheduler \<Rightarrow> (string \<Rightarrow> bool) \<Rightarrow> (int \<Rightarrow> nat \<Rightarrow> int) \<Rightarrow> (int \<Rightarrow> nat \<Rightarrow> rat) \<Rightarrow> simConfig \<Rightarrow> simulation option" where
  "New run added ints floats sc =
    (if NumNodes sc < 0 then None
     else
       let ps = map nodeName [0 ..< nat (NumNodes sc)];
           s = \<lparr>nodes = [], ios = (\<lambda>_. \<lparr>io_events = [], io_pendingRecv = None, io_nextTimerID = 0\<rparr>),
                nodeOrder = [], clock = simStart, heap = newTimerHeap, rpcQueue = [],
                partitions = Map.empty, dropRate = DropRate sc, nodeDrops = Map.empty,
                delays = Map.empty, simRng = floats (Seed sc), simRngPos = 0, calls = [],
                responses = [], dones = [], nextCallback = 0\<rparr>
       in map_option (\<lambda>s. fold (\<lambda>nid s. run (clock s) nid s) (nodeOrder s) s)
            (addNodes added sc ints ps 0 ps s))"

section \<open>What the scheduler may do\<close>

text \<open>A run of node \<open>nid\<close> changes the simulation only through \<open>Dispatch\<close>, and otherwise changes
  node states and calls the closures of events.\<close>

inductive ran :: "string \<Rightarrow> simulation \<Rightarrow> simulation \<Rightarrow> bool" for nid where
  refl: "ran nid s s"
| io: "ran nid s s1 \<Longrightarrow> Dispatch nid q cb s1 = Some s2 \<Longrightarrow> ran nid s s2"
| loc: "ran nid s s1 \<Longrightarrow> ran nid s (s1\<lparr>nodes := ns, responses := responses s1 @ rs, dones := dones s1 @ ds\<rparr>)"

definition io_scheduler :: "scheduler \<Rightarrow> bool" where
  "io_scheduler run \<longleftrightarrow> (\<forall>t nid s. ran nid s (run t nid s))"

end
