(* ===== verification/Sim_Specs.thy ===== *)
theory Sim_Specs
  imports Sim
begin

text \<open>
  What the simulation's queue, clock and loops do, for every scheduler that acts on the
  simulation through \<open>Dispatch\<close> only.
\<close>

section \<open>What every operation keeps\<close>

definition delayed :: "pendingRPC \<Rightarrow> bool" where
  "delayed r \<longleftrightarrow> pr_deliverAt r \<noteq> 0"

text \<open>The delayed RPCs stay in the queue, in order, and the clock does not go back.\<close>

definition onward :: "simulation \<Rightarrow> simulation \<Rightarrow> bool" where
  "onward s s' \<longleftrightarrow> prefix (filter delayed (rpcQueue s)) (filter delayed (rpcQueue s')) \<and> clock s \<le> clock s'"

lemma onward_refl [simp]: "onward s s"
  by (simp add: onward_def)

lemma onward_trans: "onward s s' \<Longrightarrow> onward s' s'' \<Longrightarrow> onward s s''"
  by (auto simp: onward_def intro: prefix_order.trans)

lemma onward_call [simp]: "onward s (call cb r s') = onward s s'" "onward (call cb r s) s' = onward s s'"
  by (simp_all add: onward_def call_def)

lemma onward_setIO [simp]: "onward s (setIO i io s') = onward s s'"
  by (simp add: onward_def setIO_def)

lemma onward_queueRPC: "onward s (queueRPC a b rq cb s)"
  by (auto simp: queueRPC_def Float64_def onward_def call_def Let_def split: option.splits prod.splits)

lemma onward_Recv: "onward s (Dispatch_Recv i cb evs s)"
  by (cases evs) simp_all

lemma onward_Dispatch: "Dispatch i q cb s = Some s' \<Longrightarrow> onward s s'"
  by (auto simp: Dispatch_def onward_queueRPC onward_Recv Let_def split: kind.splits option.splits)
    (simp_all add: onward_def setIO_def)

lemma onward_ran: "ran i s s' \<Longrightarrow> onward s s'"
proof (induction rule: ran.induct)
  case (io s1 q cb s2)
  then show ?case using onward_Dispatch onward_trans by blast
qed (simp_all add: onward_def)

lemma onward_run: "io_scheduler run \<Longrightarrow> onward s (run t i s)"
  by (auto simp: io_scheduler_def intro: onward_ran)

lemma onward_deliverEvent: "onward s (deliverEvent i ev s)"
  by (simp add: deliverEvent_def Let_def split: option.split)

lemma extract_delayed:
  assumes "List.extract (\<lambda>r. time_IsZero (pr_deliverAt r)) xs = Some (ys, r, zs)"
  shows "xs = ys @ r # zs \<and> \<not> delayed r \<and> (\<forall>x \<in> set ys. delayed x)"
  using assms by (auto simp: extract_Some_iff delayed_def time_IsZero_def)

lemma onward_dequeue: "dequeueReadyRPC s = (x, s') \<Longrightarrow> onward s s'"
  by (auto simp: dequeueReadyRPC_def onward_def split: option.splits prod.splits dest!: extract_delayed)

lemma onward_deliverRPC:
  assumes "io_scheduler run"
  shows "onward s (deliverRPC run r s)"
proof -
  have n: "onward s (s\<lparr>nextCallback := k\<rparr>)" for k by (simp add: onward_def)
  have st: "onward s (stepSender run a s)" for s a
    by (simp add: stepSender_def onward_run [OF assms] split: option.split)
  show ?thesis
    unfolding deliverRPC_def newCallback_def Let_def
    by (auto split: option.split
        intro!: onward_trans [OF _ st] onward_trans [OF _ onward_run [OF assms]]
          onward_trans [OF _ onward_deliverEvent] n)
qed

lemma onward_drain:
  assumes "drainImmediateRPCs run s = Some s'"
  shows "io_scheduler run \<longrightarrow> onward s s' \<and> (\<forall>r \<in> set (rpcQueue s'). delayed r)"
  using assms
proof (rule drainImmediateRPCs.raw_induct [rotated])
  fix drain run s s'
  assume IH: "\<And>run s s'. drain run s = Some s' \<Longrightarrow>
      io_scheduler run \<longrightarrow> onward s s' \<and> (\<forall>r \<in> set (rpcQueue s'). delayed r)"
    and body: "(case dequeueReadyRPC s of (None, s) \<Rightarrow> Some s
       | (Some rpc, s) \<Rightarrow> drain run (deliverRPC run rpc s)) = Some s'"
  obtain x s1 where d: "dequeueReadyRPC s = (x, s1)" by fastforce
  show "io_scheduler run \<longrightarrow> onward s s' \<and> (\<forall>r \<in> set (rpcQueue s'). delayed r)"
  proof (cases x)
    case None
    with d body have "s' = s" "List.extract (\<lambda>r. time_IsZero (pr_deliverAt r)) (rpcQueue s) = None"
      by (auto simp: dequeueReadyRPC_def split: option.splits)
    then show ?thesis by (auto simp: extract_None_iff delayed_def time_IsZero_def)
  next
    case (Some r)
    with d body have "drain run (deliverRPC run r s1) = Some s'" by simp
    with IH [OF this] onward_dequeue [OF d] onward_deliverRPC [of run s1 r] show ?thesis
      by (blast intro: onward_trans)
  qed
qed

lemma onward_fireTimer:
  assumes "io_scheduler run" and "fireTimer run t s = Some s'"
  shows "onward s s' \<and> fireAt t \<le> clock s'"
proof -
  define s1 where "s1 = (if clock s < fireAt t then s\<lparr>clock := fireAt t\<rparr> else s)\<lparr>heap := snd (PopTimer (heap s))\<rparr>"
  have s1: "onward s s1" "fireAt t \<le> clock s1" by (auto simp: s1_def onward_def)
  have "onward s1 s'"
  proof (cases "map_of (nodes s1) (nodeID t)")
    case None
    with assms(2) show ?thesis by (auto simp: fireTimer_def Let_def s1_def split: if_splits)
  next
    case (Some c)
    then have "drainImmediateRPCs run (run (clock (deliverEvent (nodeID t)
        ((event_of EventTimer)\<lparr>ev_TimerID := timerID t\<rparr>) s1)) (nodeID t)
        (deliverEvent (nodeID t) ((event_of EventTimer)\<lparr>ev_TimerID := timerID t\<rparr>) s1)) = Some s'"
      using assms(2) by (auto simp: fireTimer_def Let_def s1_def split: if_splits)
    from onward_drain [OF this] assms(1) onward_deliverEvent onward_run [OF assms(1)] show ?thesis
      by (blast intro: onward_trans)
  qed
  with s1 show ?thesis by (auto intro: onward_trans) (auto simp: onward_def)
qed

lemma nextDelayed_later:
  assumes "\<not> hasReadyRPC s" "nextDelayedRPC s = Some r"
  shows "clock s < pr_deliverAt r"
  using assms by (auto simp: hasReadyRPC_def nextDelayedRPC_def list_ex_iff find_Some_iff)

definition fireNext :: "scheduler \<Rightarrow> simulation \<Rightarrow> (bool \<times> simulation) option" where
  "fireNext run s = (case Peek (heap s) of None \<Rightarrow> Some (False, s)
     | Some t \<Rightarrow> map_option (Pair True) (fireTimer run t s))"

lemma onward_fireNext:
  "io_scheduler run \<Longrightarrow> fireNext run s = Some y \<Longrightarrow> onward s (snd y)"
  by (auto simp: fireNext_def split: option.splits dest: onward_fireTimer)

text \<open>The part of \<open>step\<close> after the branch that advances the clock.\<close>

definition stepNow :: "scheduler \<Rightarrow> simulation \<Rightarrow> (bool \<times> simulation) option" where
  "stepNow run s =
    (if hasReadyRPC s \<and> \<not> (\<exists>t. Peek (heap s) = Some t \<and> fireAt t < clock s) then
       (case dequeueReadyRPC s of
          (Some rpc, s) \<Rightarrow> Some (True, deliverRPC run rpc s)
        | (None, s) \<Rightarrow> fireNext run s)
     else fireNext run s)"

lemma onward_stepNow:
  assumes "io_scheduler run" "stepNow run s = Some y"
  shows "onward s (snd y)"
proof (cases "hasReadyRPC s \<and> \<not> (\<exists>t. Peek (heap s) = Some t \<and> fireAt t < clock s)")
  case True
  obtain x s1 where d: "dequeueReadyRPC s = (x, s1)" by fastforce
  have "onward s1 (snd y)"
  proof (cases x)
    case None
    with True d assms(2) have "fireNext run s1 = Some y" by (simp add: stepNow_def)
    then show ?thesis by (rule onward_fireNext [OF assms(1)])
  next
    case (Some r)
    with True d assms(2) have "y = (True, deliverRPC run r s1)" by (simp add: stepNow_def)
    then show ?thesis by (simp add: onward_deliverRPC [OF assms(1)])
  qed
  with onward_dequeue [OF d] show ?thesis by (rule onward_trans)
next
  case False
  with assms(2) have "fireNext run s = Some y" by (auto simp: stepNow_def)
  then show ?thesis by (rule onward_fireNext [OF assms(1)])
qed

lemma sim_step_eq:
  "sim_step run s =
    (if \<not> hasReadyRPC s \<and> Peek (heap s) = None then
       (case nextDelayedRPC s of
          None \<Rightarrow> Some (False, s)
        | Some r \<Rightarrow>
            sim_step run (s\<lparr>clock := time_Add (clock s) (time_Sub (pr_deliverAt r) (clock s))\<rparr>))
     else stepNow run s)"
  by (subst sim_step.simps)
    (auto simp: stepNow_def fireNext_def Let_def Advance_def split: option.split prod.split)

lemma onward_sim_step:
  assumes "sim_step run s = Some y"
  shows "io_scheduler run \<longrightarrow> onward s (snd y)"
  using assms
proof (rule sim_step.raw_induct [rotated], goal_cases)
  case (1 stp run s y)
  let ?adv = "\<lambda>r. s\<lparr>clock := time_Add (clock s) (time_Sub (pr_deliverAt r) (clock s))\<rparr>"
  show ?case
  proof (cases "\<not> hasReadyRPC s \<and> Peek (heap s) = None")
    case True
    show ?thesis
    proof (cases "nextDelayedRPC s")
      case None
      with True 1(2) show ?thesis by auto
    next
      case (Some r)
      with True 1(2) have "stp run (?adv r) = Some y" by (simp add: Advance_def)
      from 1(1) [OF this] have "io_scheduler run \<longrightarrow> onward (?adv r) (snd y)" .
      moreover have "onward s (?adv r)"
        using nextDelayed_later [OF _ Some] True by (simp add: onward_def time_Add_def time_Sub_def minDuration_def maxDuration_def)
      ultimately show ?thesis by (blast intro: onward_trans)
    qed
  next
    case False
    with 1(2) have "stepNow run s = Some y"
      by (auto simp: stepNow_def fireNext_def Let_def split: option.splits prod.splits if_splits)
    then show ?thesis by (blast intro: onward_stepNow)
  qed
qed

lemma onward_delayed:
  assumes "onward s s'" "r \<in> set (rpcQueue s)" "pr_deliverAt r \<noteq> 0"
  shows "r \<in> set (rpcQueue s')"
proof -
  from assms have "r \<in> set (filter delayed (rpcQueue s))" by (simp add: delayed_def)
  moreover from assms(1) have "prefix (filter delayed (rpcQueue s)) (filter delayed (rpcQueue s'))"
    by (simp add: onward_def)
  ultimately have "r \<in> set (filter delayed (rpcQueue s'))" using set_mono_prefix by blast
  then show ?thesis by simp
qed

section \<open>Properties\<close>

text \<open>A simulation of one unstarted node, for the instances.\<close>

definition sampleSim :: simulation where
  "sampleSim = \<lparr>nodes = [], ios = (\<lambda>_. \<lparr>io_events = [], io_pendingRecv = None, io_nextTimerID = 0\<rparr>),
     nodeOrder = [], clock = 100, heap = newTimerHeap, rpcQueue = [], partitions = Map.empty,
     dropRate = 0, nodeDrops = Map.empty, delays = Map.empty, simRng = (\<lambda>_. 0), simRngPos = 0,
     calls = [], responses = [], dones = [], nextCallback = 0\<rparr>"

definition delayedRPC :: pendingRPC where
  "delayedRPC = \<lparr>pr_from = ''a'', pr_to = ''b'', pr_req = rpcRequest0, pr_callback = 7, pr_deliverAt = 150\<rparr>"

lemma idle_scheduler: "io_scheduler (\<lambda>_ _ s. s)"
  by (simp add: io_scheduler_def ran.refl)

text \<open>C27. Steps never turn the virtual clock back, whatever the nodes do.\<close>

theorem sim_clock_monotone:
  assumes "io_scheduler run" and "sim_step run s = Some (progress, s')"
  shows "clock s \<le> clock s'"
  using onward_sim_step [OF assms(2)] assms(1) by (simp add: onward_def)

theorem sim_clock_monotone_witness:
  "let s = sampleSim\<lparr>heap := Add \<lparr>fireAt = 130, timerID = 1, nodeID = ''a'', index = 0\<rparr> newTimerHeap\<rparr>;
       run = (\<lambda>_ _ s. s) in
   io_scheduler run \<and> (\<exists>s'. sim_step run s = Some (True, s') \<and> clock s \<le> clock s')"
proof -
  define s where "s = sampleSim\<lparr>heap := Add \<lparr>fireAt = 130, timerID = 1, nodeID = ''a'', index = 0\<rparr> newTimerHeap\<rparr>"
  have "hasReadyRPC s = False" "map_option fireAt (Peek (heap s)) = Some 130" "nodes s = []"
    unfolding s_def by code_simp+
  then have "\<exists>s'. sim_step (\<lambda>_ _ s. s) s = Some (True, s')"
    by (subst sim_step_eq) (auto simp: stepNow_def fireNext_def fireTimer_def Let_def)
  then obtain s' where "sim_step (\<lambda>_ _ s. s) s = Some (True, s')" by blast
  with sim_clock_monotone [OF idle_scheduler this] show ?thesis
    unfolding s_def Let_def using idle_scheduler by blast
qed

text \<open>C28. A delayed RPC is never delivered: \<open>hasReadyRPC\<close> counts an RPC as ready once its time
  has come, but \<open>dequeueReadyRPC\<close> takes only RPCs without a delay, so an RPC that was queued
  with a delay stays in the queue through every sequence of steps.\<close>

theorem delayed_rpc_stays_queued:
  assumes "io_scheduler run" and "(\<lambda>s s'. \<exists>p. sim_step run s = Some (p, s'))\<^sup>*\<^sup>* s s'"
    and "r \<in> set (rpcQueue s)" and "pr_deliverAt r \<noteq> 0"
  shows "r \<in> set (rpcQueue s')"
  using assms(2,3)
proof (induction rule: rtranclp_induct)
  case (step s1 s2)
  then obtain p where "sim_step run s1 = Some (p, s2)" by blast
  from onward_sim_step [OF this] assms(1) have "onward s1 s2" by simp
  from onward_delayed [OF this] step assms(4) show ?case by blast
qed

text \<open>A queue of delayed RPCs only, with no timer pending: a step at most moves the clock, and
  reports that there was nothing to do.\<close>

lemma stepNow_delayed:
  assumes "Peek (heap s) = None" "\<forall>r \<in> set (rpcQueue s). delayed r"
  shows "stepNow run s = Some (False, s)"
proof -
  have "dequeueReadyRPC s = (None, s)"
  proof -
    have "List.extract (\<lambda>r. time_IsZero (pr_deliverAt r)) (rpcQueue s) = None"
      using assms(2) by (auto simp: extract_None_iff delayed_def time_IsZero_def)
    then show ?thesis by (simp add: dequeueReadyRPC_def)
  qed
  with assms(1) show ?thesis by (simp add: stepNow_def fireNext_def)
qed

lemma step_delayed:
  assumes "Peek (heap s) = None" "\<forall>r \<in> set (rpcQueue s). delayed r"
  shows "\<exists>t. sim_step run s = Some (False, s\<lparr>clock := t\<rparr>)"
  using assms
proof (induction "nat (case nextDelayedRPC s of None \<Rightarrow> 0 | Some r \<Rightarrow> pr_deliverAt r - clock s)"
    arbitrary: s rule: less_induct)
  case less
  show ?case
  proof (cases "hasReadyRPC s \<or> nextDelayedRPC s = None")
    case True
    have "s = s\<lparr>clock := clock s\<rparr>" by simp
    with True less.prems stepNow_delayed [OF less.prems, of run] show ?thesis
      by (subst sim_step_eq) (auto split: option.split intro: exI [of _ "clock s"])
  next
    case False
    then obtain r where r: "\<not> hasReadyRPC s" "nextDelayedRPC s = Some r" by auto
    let ?s = "s\<lparr>clock := time_Add (clock s) (time_Sub (pr_deliverAt r) (clock s))\<rparr>"
    have nxt: "nextDelayedRPC ?s = Some r" using r(2) by (simp add: nextDelayedRPC_def)
    have "clock s < pr_deliverAt r" using nextDelayed_later [OF r] .
    then have "nat (pr_deliverAt r - clock ?s) < nat (pr_deliverAt r - clock s)"
      by (simp add: time_Add_def time_Sub_def minDuration_def maxDuration_def)
    with nxt r(2) less.hyps [of ?s] less.prems have "\<exists>t. sim_step run ?s = Some (False, ?s\<lparr>clock := t\<rparr>)"
      by simp
    with r less.prems(1) show ?thesis by (subst sim_step_eq) simp
  qed
qed

theorem delayed_rpc_stays_queued_witness:
  "let s = sampleSim\<lparr>rpcQueue := [delayedRPC], clock := 200\<rparr>; run = (\<lambda>_ _ s. s) in
   io_scheduler run \<and> pr_deliverAt delayedRPC \<noteq> 0 \<and> pr_deliverAt delayedRPC \<le> clock s \<and>
   (\<exists>p s'. sim_step run s = Some (p, s') \<and> delayedRPC \<in> set (rpcQueue s'))"
proof -
  define s where "s = sampleSim\<lparr>rpcQueue := [delayedRPC], clock := 200\<rparr>"
  have h: "Peek (heap s) = None" "rpcQueue s = [delayedRPC]" "pr_deliverAt delayedRPC \<noteq> 0"
    "pr_deliverAt delayedRPC \<le> clock s"
    by (simp_all add: s_def sampleSim_def Peek_def Len_def newTimerHeap_def delayedRPC_def)
  then obtain t where st: "sim_step (\<lambda>_ _ s. s) s = Some (False, s\<lparr>clock := t\<rparr>)"
    using step_delayed [of s] by (auto simp: delayed_def)
  then have "(\<lambda>s s'. \<exists>p. sim_step (\<lambda>_ _ s. s) s = Some (p, s'))\<^sup>*\<^sup>* s (s\<lparr>clock := t\<rparr>)" by blast
  from delayed_rpc_stays_queued [OF idle_scheduler this, of delayedRPC] h st show ?thesis
    unfolding s_def Let_def using idle_scheduler by auto
qed

lemma nextEventTime_delayed:
  assumes "Peek (heap s) = None" "\<forall>r \<in> set (rpcQueue s). delayed r"
  shows "nextEventTime s = (case rpcQueue s of [] \<Rightarrow> 0 | r # _ \<Rightarrow> pr_deliverAt r)"
proof -
  have "\<not> list_ex (\<lambda>r. time_IsZero (pr_deliverAt r)) (rpcQueue s)"
    using assms(2) by (auto simp: list_ex_iff time_IsZero_def delayed_def)
  moreover have "nextDelayedRPC s = (case rpcQueue s of [] \<Rightarrow> None | r # _ \<Rightarrow> Some r)"
    using assms(2) by (auto simp: nextDelayedRPC_def time_IsZero_def delayed_def split: list.split)
  ultimately show ?thesis using assms(1) by (simp add: nextEventTime_def split: list.split)
qed

lemma runFor_stuck:
  assumes "runFor_loop run deadline s = Some y"
  shows "\<not> (Peek (heap s) = None \<and> (\<forall>r \<in> set (rpcQueue s). delayed r) \<and> rpcQueue s \<noteq> []
     \<and> pr_deliverAt (hd (rpcQueue s)) \<le> deadline)"
  using assms
proof (rule runFor_loop.raw_induct [rotated], goal_cases)
  case (1 loop run deadline s y)
  show ?case
  proof
    assume h: "Peek (heap s) = None \<and> (\<forall>r \<in> set (rpcQueue s). delayed r) \<and> rpcQueue s \<noteq> []
      \<and> pr_deliverAt (hd (rpcQueue s)) \<le> deadline"
    then obtain r rs where q: "rpcQueue s = r # rs" by (cases "rpcQueue s") auto
    with h have nxt: "nextEventTime s = pr_deliverAt r" "pr_deliverAt r \<noteq> 0"
      using nextEventTime_delayed [of s] by (auto simp: delayed_def)
    from h step_delayed [of s run] obtain t where "sim_step run s = Some (False, s\<lparr>clock := t\<rparr>)" by blast
    with nxt h q 1(2) have "loop run deadline (s\<lparr>clock := t\<rparr>) = Some y" by (simp add: time_IsZero_def)
    from 1(1) [OF this] h show False by simp
  qed
qed



text \<open>C30. RPCs are delivered first in, first out, before the timers of the same moment: if the
  queue holds an RPC without delay and no timer is overdue, a step delivers the first such
  RPC and takes it, and nothing else, out of the queue.\<close>

theorem step_delivers_first:
  assumes "rpcQueue s = before @ rpc # after" and "\<forall>r \<in> set before. pr_deliverAt r \<noteq> 0"
    and "pr_deliverAt rpc = 0" and "\<forall>t. Peek (heap s) = Some t \<longrightarrow> clock s \<le> fireAt t"
  shows "sim_step run s = Some (True, deliverRPC run rpc (s\<lparr>rpcQueue := before @ after\<rparr>))"
proof -
  have r: "hasReadyRPC s" using assms(1,3) by (simp add: hasReadyRPC_def time_IsZero_def)
  have "List.extract (\<lambda>r. time_IsZero (pr_deliverAt r)) (rpcQueue s) = Some (before, rpc, after)"
    using assms(1-3) by (auto simp: extract_Some_iff time_IsZero_def)
  then have "dequeueReadyRPC s = (Some rpc, s\<lparr>rpcQueue := before @ after\<rparr>)"
    by (simp add: dequeueReadyRPC_def)
  moreover have "\<not> (\<exists>t. Peek (heap s) = Some t \<and> fireAt t < clock s)" using assms(4) by force
  ultimately show ?thesis using r by (subst sim_step_eq) (simp add: stepNow_def)
qed

theorem step_delivers_first_witness:
  "let rpc = delayedRPC\<lparr>pr_deliverAt := 0\<rparr>; s = sampleSim\<lparr>rpcQueue := [delayedRPC, rpc]\<rparr> in
   rpcQueue s = [delayedRPC] @ rpc # [] \<and> pr_deliverAt rpc = 0 \<and> pr_deliverAt delayedRPC \<noteq> 0 \<and>
   Peek (heap s) = None \<and>
   sim_step (\<lambda>_ _ s. s) s = Some (True, deliverRPC (\<lambda>_ _ s. s) rpc (s\<lparr>rpcQueue := [delayedRPC]\<rparr>))"
proof -
  define rpc where "rpc = delayedRPC\<lparr>pr_deliverAt := 0\<rparr>"
  define s where "s = sampleSim\<lparr>rpcQueue := [delayedRPC, rpc]\<rparr>"
  have h: "rpcQueue s = [delayedRPC] @ rpc # []" "\<forall>r \<in> set [delayedRPC]. pr_deliverAt r \<noteq> 0"
    "pr_deliverAt rpc = 0" "Peek (heap s) = None"
    by (simp_all add: s_def rpc_def delayedRPC_def sampleSim_def Peek_def Len_def newTimerHeap_def)
  have "\<forall>t. Peek (heap s) = Some t \<longrightarrow> clock s \<le> fireAt t" using h(4) by simp
  from step_delivers_first [OF h(1-3) this, of "\<lambda>_ _ s. s"] h show ?thesis
    unfolding Let_def rpc_def [symmetric] s_def [symmetric] by simp
qed

section \<open>Partitions\<close>

lemma isPartitioned_setPartition:
  "isPartitioned (setPartition a b v s) x y = (if x = a \<and> y = b then v else isPartitioned s x y)"
  by (auto simp: isPartitioned_def setPartition_def Let_def split: option.splits)

lemma isPartitioned_inner:
  "isPartitioned (fold (\<lambda>b s. setPartition b a True (setPartition a b True s)) bs s) x y =
    (isPartitioned s x y \<or> x = a \<and> y \<in> set bs \<or> y = a \<and> x \<in> set bs)"
  by (induction bs arbitrary: s) (auto simp: isPartitioned_setPartition)

lemma isPartitioned_Partition:
  "isPartitioned (Partition as bs s) x y =
    (isPartitioned s x y \<or> x \<in> set as \<and> y \<in> set bs \<or> y \<in> set as \<and> x \<in> set bs)"
  unfolding Partition_def
  by (induction as arbitrary: s) (auto simp: isPartitioned_inner)

text \<open>C31. A partition blocks both directions and nothing else: after \<open>Partition\<close>, an RPC between
  the groups is answered at once with the error and not queued; between other nodes the
  network is as before, and \<open>HealAll\<close> lifts every partition.\<close>

theorem partition_blocks:
  assumes "a \<in> set as" and "b \<in> set bs"
    and s'_def: "s' = Partition as bs s"
  shows "queueRPC a b rq cb s' = call cb dropped s' \<and> queueRPC b a rq cb s' = call cb dropped s'
    \<and> (\<forall>x y. isPartitioned s' x y =
         (isPartitioned s x y \<or> x \<in> set as \<and> y \<in> set bs \<or> y \<in> set as \<and> x \<in> set bs))
    \<and> (\<forall>x y. \<not> isPartitioned (HealAll s') x y)"
proof -
  have "isPartitioned s' a b" "isPartitioned s' b a"
    using assms(1,2) by (simp_all add: s'_def isPartitioned_Partition)
  moreover have "\<not> isPartitioned (HealAll s') x y" for x y
    by (simp add: isPartitioned_def HealAll_def)
  ultimately show ?thesis by (simp add: queueRPC_def) (simp add: s'_def isPartitioned_Partition)
qed

theorem partition_blocks_witness:
  "''a'' \<in> set [''a''] \<and> ''b'' \<in> set [''b'', ''c''] \<and>
   (let s' = Partition [''a''] [''b'', ''c''] sampleSim in
    queueRPC ''a'' ''b'' rpcRequest0 7 s' = call 7 dropped s'
    \<and> isPartitioned s' ''c'' ''a'' \<and> \<not> isPartitioned s' ''b'' ''c'')"
proof -
  have "isPartitioned sampleSim x y = False" for x y by (simp add: isPartitioned_def sampleSim_def)
  with partition_blocks [of "''a''" "[''a'']" "''b''" "[''b'', ''c'']" "Partition [''a''] [''b'', ''c''] sampleSim" sampleSim rpcRequest0 7]
  show ?thesis by (simp add: Let_def)
qed

end
