(* ===== verification/Production.thy ===== *)
theory Production
  imports Node
begin

text \<open>
  A started node in production: the public methods of \<open>src/election.go\<close> (\<open>Start\<close>,
  \<open>Stop\<close>, \<open>forceShutdown\<close>, \<open>ReceiveRPC\<close>, \<open>SetPeers\<close>, \<open>SetMetadata\<close>, \<open>Resign\<close>), the IO
  adapter and the main loop of \<open>src/internal/prod\<close>, as goroutines that share channels.

  A method call is a \<open>caller\<close>: it runs to its next blocking select, and a step of the system
  resolves the select. Events and replies carry the number of their call. The coroutine
  scheduler is left open: while the main loop runs, it may dispatch any request, and the
  coroutine may call the closures of any event it has received. A panic of any goroutine
  crashes the process.
\<close>

section \<open>Channels\<close>

record 'a chan =
  ch_buf :: "'a list"
  ch_cap :: nat
  ch_closed :: bool

definition makeChan :: "nat \<Rightarrow> 'a chan" where
  "makeChan k = \<lparr>ch_buf = [], ch_cap = k, ch_closed = False\<rparr>"

datatype 'a sent = Sent "'a chan" | Blocked | SendPanic

definition chanSend :: "'a \<Rightarrow> 'a chan \<Rightarrow> 'a sent" where
  "chanSend x c =
    (if ch_closed c then SendPanic
     else if length (ch_buf c) < ch_cap c then Sent (c\<lparr>ch_buf := ch_buf c @ [x]\<rparr>)
     else Blocked)"

section \<open>State\<close>

record completion =
  cp_callback :: callback
  cp_resp :: resp

datatype goroutine =
    GoSendRPC string rpcRequest callback
  | GoRecv callback
  | GoPush completion
  | GoTimer timer_id
  | GoTimerSend timer_id

datatype reply = ReplyResp rpcResponse | ReplyDone "error option"

datatype apiResult = RespResult rpcResponse "error option" | ErrResult "error option"

datatype caller =
    StartRest
  | Sending event
  | Waiting event
  | StopJoin
  | StopSend
  | StopWait
  | CallReturned apiResult

record system =
  nd :: node
  ioSet :: bool
  eventCh :: "event chan"
  completeCh :: "completion chan"
  doneClosed :: bool
  shutdownOnce :: bool
  ioStopped :: bool
  timers :: "timer_id list"
  armed :: "timer_id list"
  nextTimer :: timer_id
  gos :: "goroutine list"
  loopRunning :: bool
  resolved :: "(callback \<times> resp) list"
  callers :: "nat \<rightharpoonup> caller"
  replies :: "nat \<Rightarrow> reply list"
  nextCall :: nat
  crashed :: bool

text \<open>A node as \<open>NewNode\<close> returns it, with its channels.\<close>

definition initSystem :: "node \<Rightarrow> system" where
  "initSystem n = \<lparr>nd = n, ioSet = False, eventCh = makeChan 1000, completeCh = makeChan 1000,
     doneClosed = False, shutdownOnce = False, ioStopped = False, timers = [], armed = [],
     nextTimer = 0, gos = [], loopRunning = False, resolved = [], callers = Map.empty,
     replies = (\<lambda>_. []), nextCall = 0, crashed = False\<rparr>"

definition setCaller :: "nat \<Rightarrow> caller \<Rightarrow> system \<Rightarrow> system" where
  "setCaller i c s = s\<lparr>callers := (callers s)(i \<mapsto> c)\<rparr>"

text \<open>A new call that runs to its first select or returns.\<close>

definition newCall :: "caller \<Rightarrow> system \<Rightarrow> system" where
  "newCall c s = setCaller (nextCall s) c (s\<lparr>nextCall := Suc (nextCall s)\<rparr>)"

section \<open>The IO adapter (prod/io.go)\<close>

definition NewProdIO :: "system \<Rightarrow> system" where
  "NewProdIO s = s\<lparr>ioSet := True, timers := [], nextTimer := 0, ioStopped := False\<rparr>"

text \<open>A nil adapter panics.\<close>

definition SetStopped :: "system \<Rightarrow> system" where
  "SetStopped s = (if ioSet s then s\<lparr>ioStopped := True\<rparr> else s\<lparr>crashed := True\<rparr>)"

definition prod_Dispatch :: "gotime \<Rightarrow> req \<Rightarrow> callback \<Rightarrow> system \<Rightarrow> system" where
  "prod_Dispatch now q cb s =
    (case q_Kind q of
       SendRPC \<Rightarrow> s\<lparr>gos := gos s @ [GoSendRPC (q_Peer q) (q_RPCReq q) cb]\<rparr>
     | Recv \<Rightarrow> s\<lparr>gos := gos s @ [GoRecv cb]\<rparr>
     | After \<Rightarrow>
         let tid = wrap64 (nextTimer s + 1)
         in s\<lparr>nextTimer := tid, timers := tid # timers s, armed := tid # armed s,
              resolved := resolved s @ [(cb, (resp_of After)\<lparr>r_TimerID := tid\<rparr>)]\<rparr>
     | Cancel \<Rightarrow>
         let s = (if q_TimerID q \<in> set (timers s)
                  then s\<lparr>armed := removeAll (q_TimerID q) (armed s),
                         timers := removeAll (q_TimerID q) (timers s)\<rparr>
                  else s)
         in s\<lparr>resolved := resolved s @ [(cb, resp_of Cancel)]\<rparr>
     | Now \<Rightarrow> s\<lparr>resolved := resolved s @ [(cb, (resp_of Now)\<lparr>r_Time := now\<rparr>)]\<rparr>)"

text \<open>The goroutines. \<open>res\<close> is what the configured \<open>SendRPC\<close> returns.\<close>

definition sendRPC_done :: "error + rpcResponse \<Rightarrow> callback \<Rightarrow> goroutine" where
  "sendRPC_done res cb = GoPush \<lparr>cp_callback = cb, cp_resp =
     (case res of Inl e \<Rightarrow> (resp_of SendRPC)\<lparr>r_Err := Some e\<rparr>
      | Inr r \<Rightarrow> (resp_of SendRPC)\<lparr>r_RPCResp := r\<rparr>)\<rparr>"

definition recv_done :: "event \<Rightarrow> callback \<Rightarrow> goroutine" where
  "recv_done ev cb = GoPush \<lparr>cp_callback = cb, cp_resp = (resp_of Recv)\<lparr>r_Event := ev\<rparr>\<rparr>"

definition timerEvent :: "timer_id \<Rightarrow> event" where
  "timerEvent t = (event_of EventTimer)\<lparr>ev_TimerID := t\<rparr>"

section \<open>Lifecycle\<close>

text \<open>\<open>Start\<close> up to the point where it has taken the \<open>started\<close> flag and checked the metadata:
  from there on it is concurrent with the other methods, which read that flag.\<close>

definition Start :: "system \<Rightarrow> system" where
  "Start s =
    (if started (nd s) then newCall (CallReturned (ErrResult (Some (ErrText ''node already started'')))) s
     else
       let s = s\<lparr>nd := (nd s)\<lparr>started := True\<rparr>\<rparr> in
       if maxMetadataSize < bytes_len (confMetadata (conf (nd s)))
       then newCall (CallReturned (ErrResult (Some ErrMetadataTooLarge))) s
       else newCall StartRest s)"

text \<open>The rest: the adapter, the scheduler and the main loop. \<open>added\<close> is whether the scheduler
  takes the coroutine.\<close>

definition StartIO :: "bool \<Rightarrow> nat \<Rightarrow> system \<Rightarrow> system" where
  "StartIO added i s =
    (let s = NewProdIO s in
     if \<not> added
     then setCaller i (CallReturned (ErrResult (Some (ErrText ''failed to add coroutine to scheduler'')))) s
     else setCaller i (CallReturned (ErrResult None)) (s\<lparr>loopRunning := True\<rparr>))"

definition forceShutdown :: "system \<Rightarrow> system" where
  "forceShutdown s =
    (if shutdownOnce s then s
     else s\<lparr>shutdownOnce := True, nd := (nd s)\<lparr>stopped := True\<rparr>,
            eventCh := (eventCh s)\<lparr>ch_closed := True\<rparr>\<rparr>)"

text \<open>\<open>Stop\<close> up to its first blocking select: the guards, the adapter's flag, and the attempt to
  send the shutdown event without blocking.\<close>

definition Stop :: "system \<Rightarrow> system" where
  "Stop s =
    (if \<not> started (nd s) then newCall (CallReturned (ErrResult None)) s
     else if stopped (nd s) then newCall StopJoin s
     else
       let s = SetStopped s in
       if crashed s then s
       else (case chanSend (event_of EventShutdown) (eventCh s) of
               Sent c \<Rightarrow> newCall StopWait (s\<lparr>eventCh := c\<rparr>)
             | Blocked \<Rightarrow> newCall StopSend s
             | SendPanic \<Rightarrow> s\<lparr>crashed := True\<rparr>))"

definition ReceiveRPC :: "rpcRequest \<Rightarrow> system \<Rightarrow> system" where
  "ReceiveRPC rq s =
    (if \<not> started (nd s) then
       newCall (CallReturned (RespResult (rpcResponse0\<lparr>rp_Error := ''node not started''\<rparr>) None)) s
     else if rq_RPC rq \<noteq> HeartBeatRPC \<and> rq_RPC rq \<noteq> VoteRPC \<and> rq_RPC rq \<noteq> ResetElectionRPC then
       newCall (CallReturned (RespResult (rpcResponse0\<lparr>rp_Error := ''unknown RPC''\<rparr>) None)) s
     else newCall (Sending ((event_of EventRPC)\<lparr>ev_RPCReq := rq, ev_Respond := Some (nextCall s)\<rparr>)) s)"

definition SetPeers :: "string list \<Rightarrow> system \<Rightarrow> system" where
  "SetPeers ps s =
    (if \<not> started (nd s) then
       let converted = applySelfMetadata (self (nd s)) (currentMetadata (nd s)) (peersFromStrings ps)
       in newCall (CallReturned (ErrResult None))
            (s\<lparr>nd := (nd s)\<lparr>currentPeers := converted, a_peers := converted\<rparr>\<rparr>)
     else newCall (Sending ((event_of EventSetPeers)\<lparr>ev_Peers := ps, ev_Done := Some (nextCall s)\<rparr>)) s)"

definition SetMetadata :: "bytes \<Rightarrow> system \<Rightarrow> system" where
  "SetMetadata md s =
    (if maxMetadataSize < bytes_len md then newCall (CallReturned (ErrResult (Some ErrMetadataTooLarge))) s
     else if \<not> started (nd s) then
       let ps = applySelfMetadata (self (nd s)) md (currentPeers (nd s))
       in newCall (CallReturned (ErrResult None))
            (s\<lparr>nd := (nd s)\<lparr>currentMetadata := md, currentPeers := ps, a_peers := ps\<rparr>\<rparr>)
     else newCall (Sending ((event_of EventSetMetadata)\<lparr>ev_Metadata := md, ev_Done := Some (nextCall s)\<rparr>)) s)"

definition Resign :: "system \<Rightarrow> system" where
  "Resign s =
    (if \<not> started (nd s) then newCall (CallReturned (ErrResult (Some ErrNotLeader))) s
     else newCall (Sending ((event_of EventResign)\<lparr>ev_Done := Some (nextCall s)\<rparr>)) s)"

text \<open>What a call returns when its context ends, and for a reply.\<close>

definition ctxResult :: "event \<Rightarrow> apiResult" where
  "ctxResult ev = (if ev_Respond ev \<noteq> None then RespResult rpcResponse0 (Some CtxErr) else ErrResult (Some CtxErr))"

fun replyResult :: "reply \<Rightarrow> apiResult" where
  "replyResult (ReplyResp r) = RespResult r None"
| "replyResult (ReplyDone e) = ErrResult e"

section \<open>Steps\<close>

datatype apiOp = OpStart | OpStop | OpReceiveRPC rpcRequest | OpSetPeers "string list"
  | OpSetMetadata bytes | OpResign

fun begin_op :: "apiOp \<Rightarrow> system \<Rightarrow> system" where
  "begin_op OpStart s = Start s"
| "begin_op OpStop s = Stop s"
| "begin_op (OpReceiveRPC rq) s = ReceiveRPC rq s"
| "begin_op (OpSetPeers ps) s = SetPeers ps s"
| "begin_op (OpSetMetadata md) s = SetMetadata md s"
| "begin_op OpResign s = Resign s"

text \<open>The number of the call that waits for the event's closure.\<close>

definition callOf :: "event \<Rightarrow> nat option" where
  "callOf ev = (case ev_Respond ev of Some i \<Rightarrow> Some i | None \<Rightarrow> ev_Done ev)"

definition removeGo :: "nat \<Rightarrow> system \<Rightarrow> system" where
  "removeGo g s = s\<lparr>gos := take g (gos s) @ drop (Suc g) (gos s)\<rparr>"

definition setGo :: "nat \<Rightarrow> goroutine \<Rightarrow> system \<Rightarrow> system" where
  "setGo g x s = s\<lparr>gos := (gos s)[g := x]\<rparr>"

inductive sys_step :: "system \<Rightarrow> system \<Rightarrow> bool" where
  call: "\<not> crashed s \<Longrightarrow> sys_step s (begin_op x s)"
| start_rest: "\<not> crashed s \<Longrightarrow> callers s i = Some StartRest \<Longrightarrow> sys_step s (StartIO added i s)"
| send: "\<not> crashed s \<Longrightarrow> callers s i = Some (Sending ev) \<Longrightarrow> chanSend ev (eventCh s) = Sent c \<Longrightarrow>
    sys_step s (setCaller i (Waiting ev) (s\<lparr>eventCh := c\<rparr>))"
| send_panic: "\<not> crashed s \<Longrightarrow> callers s i = Some (Sending ev) \<Longrightarrow> chanSend ev (eventCh s) = SendPanic \<Longrightarrow>
    sys_step s (s\<lparr>crashed := True\<rparr>)"
| send_ctx: "\<not> crashed s \<Longrightarrow> callers s i = Some (Sending ev) \<Longrightarrow>
    sys_step s (setCaller i (CallReturned (ctxResult ev)) s)"
| reply: "\<not> crashed s \<Longrightarrow> callers s i = Some (Waiting ev) \<Longrightarrow> replies s i = r # rs \<Longrightarrow>
    sys_step s (setCaller i (CallReturned (replyResult r)) (s\<lparr>replies := (replies s)(i := rs)\<rparr>))"
| wait_ctx: "\<not> crashed s \<Longrightarrow> callers s i = Some (Waiting ev) \<Longrightarrow>
    sys_step s (setCaller i (CallReturned (ctxResult ev)) s)"
| stop_join: "\<not> crashed s \<Longrightarrow> callers s i = Some StopJoin \<Longrightarrow> doneClosed s \<Longrightarrow>
    sys_step s (setCaller i (CallReturned (ErrResult None)) s)"
| stop_join_ctx: "\<not> crashed s \<Longrightarrow> callers s i = Some StopJoin \<Longrightarrow>
    sys_step s (setCaller i (CallReturned (ErrResult (Some CtxErr))) s)"
| stop_send: "\<not> crashed s \<Longrightarrow> callers s i = Some StopSend \<Longrightarrow>
    chanSend (event_of EventShutdown) (eventCh s) = Sent c \<Longrightarrow>
    sys_step s (setCaller i StopWait (s\<lparr>eventCh := c\<rparr>))"
| stop_send_panic: "\<not> crashed s \<Longrightarrow> callers s i = Some StopSend \<Longrightarrow>
    chanSend (event_of EventShutdown) (eventCh s) = SendPanic \<Longrightarrow> sys_step s (s\<lparr>crashed := True\<rparr>)"
| stop_wait: "\<not> crashed s \<Longrightarrow> callers s i = Some StopWait \<Longrightarrow> doneClosed s \<Longrightarrow>
    sys_step s (setCaller i (CallReturned (ErrResult None)) s)"
| stop_ctx: "\<not> crashed s \<Longrightarrow> callers s i = Some StopSend \<or> callers s i = Some StopWait \<Longrightarrow>
    sys_step s (setCaller i (CallReturned (ErrResult (Some CtxErr))) (forceShutdown s))"
| go_send: "\<not> crashed s \<Longrightarrow> g < length (gos s) \<Longrightarrow> gos s ! g = GoSendRPC p rq cb \<Longrightarrow>
    sys_step s (setGo g (sendRPC_done res cb) s)"
| go_recv: "\<not> crashed s \<Longrightarrow> g < length (gos s) \<Longrightarrow> gos s ! g = GoRecv cb \<Longrightarrow> ch_buf (eventCh s) = ev # evs \<Longrightarrow>
    sys_step s (setGo g (recv_done ev cb) (s\<lparr>eventCh := (eventCh s)\<lparr>ch_buf := evs\<rparr>\<rparr>))"
| go_recv_closed: "\<not> crashed s \<Longrightarrow> g < length (gos s) \<Longrightarrow> gos s ! g = GoRecv cb \<Longrightarrow> ch_buf (eventCh s) = [] \<Longrightarrow>
    ch_closed (eventCh s) \<Longrightarrow> sys_step s (setGo g (recv_done (event_of EventShutdown) cb) s)"
| go_push: "\<not> crashed s \<Longrightarrow> g < length (gos s) \<Longrightarrow> gos s ! g = GoPush x \<Longrightarrow> chanSend x (completeCh s) = Sent c \<Longrightarrow>
    sys_step s (removeGo g (s\<lparr>completeCh := c\<rparr>))"
| timer_fires: "\<not> crashed s \<Longrightarrow> t \<in> set (armed s) \<Longrightarrow>
    sys_step s (s\<lparr>armed := removeAll t (armed s), gos := gos s @ [GoTimer t]\<rparr>)"
| timer_stopped: "\<not> crashed s \<Longrightarrow> g < length (gos s) \<Longrightarrow> gos s ! g = GoTimer t \<Longrightarrow> ioStopped s \<Longrightarrow>
    sys_step s (removeGo g s)"
| timer_goes_on: "\<not> crashed s \<Longrightarrow> g < length (gos s) \<Longrightarrow> gos s ! g = GoTimer t \<Longrightarrow> \<not> ioStopped s \<Longrightarrow>
    sys_step s (setGo g (GoTimerSend t) s)"
| timer_send: "\<not> crashed s \<Longrightarrow> g < length (gos s) \<Longrightarrow> gos s ! g = GoTimerSend t \<Longrightarrow>
    chanSend (timerEvent t) (eventCh s) = Sent c \<Longrightarrow> sys_step s (removeGo g (s\<lparr>eventCh := c\<rparr>))"
| timer_panic: "\<not> crashed s \<Longrightarrow> g < length (gos s) \<Longrightarrow> gos s ! g = GoTimerSend t \<Longrightarrow>
    chanSend (timerEvent t) (eventCh s) = SendPanic \<Longrightarrow> sys_step s (s\<lparr>crashed := True\<rparr>)"
| loop_dispatch: "\<not> crashed s \<Longrightarrow> loopRunning s \<Longrightarrow> sys_step s (prod_Dispatch now q cb s)"
| loop_complete: "\<not> crashed s \<Longrightarrow> loopRunning s \<Longrightarrow> ch_buf (completeCh s) = x # xs \<Longrightarrow>
    sys_step s (s\<lparr>completeCh := (completeCh s)\<lparr>ch_buf := xs\<rparr>,
      resolved := resolved s @ [(cp_callback x, cp_resp x)]\<rparr>)"
| loop_answer: "\<not> crashed s \<Longrightarrow> loopRunning s \<Longrightarrow> (cb, r) \<in> set (resolved s) \<Longrightarrow> r_Kind r = Recv \<Longrightarrow>
    (case x of ReplyResp _ \<Rightarrow> ev_Respond (r_Event r) | ReplyDone _ \<Rightarrow> ev_Done (r_Event r)) = Some i \<Longrightarrow>
    replies s i = [] \<Longrightarrow> sys_step s (s\<lparr>replies := (replies s)(i := [x])\<rparr>)"
| loop_exit: "\<not> crashed s \<Longrightarrow> loopRunning s \<Longrightarrow> sys_step s (s\<lparr>loopRunning := False, doneClosed := True\<rparr>)"

end
