(* ===== verification/Production_Specs.thy ===== *)
theory Production_Specs
  imports "HOL-Library.Multiset" Production Samples
begin

text \<open>
  Properties of all interleavings of a production node: how often an event of the API
  reaches the coroutine, which panics are possible, and when; and runs that show the
  possible ones.
\<close>

inductive_cases sys_step_cases: "sys_step s s'"

inductive sys_reach :: "node \<Rightarrow> system \<Rightarrow> bool" for n :: node where
  init: "sys_reach n (initSystem n)"
| step: "sys_reach n s \<Longrightarrow> sys_step s s' \<Longrightarrow> sys_reach n s'"

section \<open>Panics\<close>

definition panic_inv :: "system \<Rightarrow> bool" where
  "panic_inv s \<longleftrightarrow> (ch_closed (eventCh s) \<longrightarrow> shutdownOnce s)
     \<and> (crashed s \<longrightarrow> shutdownOnce s \<or> started (nd s) \<and> \<not> ioSet s)
     \<and> (shutdownOnce s \<longrightarrow> stopped (nd s))"

lemma chanSend_cases:
  "chanSend x c = Sent c' \<Longrightarrow> ch_closed c = False \<and> c' = c\<lparr>ch_buf := ch_buf c @ [x]\<rparr>"
  "chanSend x c = SendPanic \<Longrightarrow> ch_closed c"
  by (auto simp: chanSend_def split: if_splits)

lemma begin_panic_inv: "panic_inv s \<Longrightarrow> \<not> crashed s \<Longrightarrow> panic_inv (begin_op x s)"
  by (cases x)
    (auto simp: panic_inv_def Start_def Stop_def SetStopped_def ReceiveRPC_def SetPeers_def
      SetMetadata_def Resign_def newCall_def setCaller_def Let_def split: sent.splits dest: chanSend_cases)

lemma Dispatch_frame [simp]:
  "eventCh (prod_Dispatch now q cb s) = eventCh s" "crashed (prod_Dispatch now q cb s) = crashed s"
  "shutdownOnce (prod_Dispatch now q cb s) = shutdownOnce s" "nd (prod_Dispatch now q cb s) = nd s"
  "ioSet (prod_Dispatch now q cb s) = ioSet s" "callers (prod_Dispatch now q cb s) = callers s"
  "replies (prod_Dispatch now q cb s) = replies s" "nextCall (prod_Dispatch now q cb s) = nextCall s"
  "completeCh (prod_Dispatch now q cb s) = completeCh s"
  by (auto simp: prod_Dispatch_def Let_def split: kind.split)

lemma step_panic_inv: "sys_step s s' \<Longrightarrow> panic_inv s \<Longrightarrow> panic_inv s'"
proof (induction rule: sys_step.induct)
  case (call s x)
  then show ?case by (simp add: begin_panic_inv)
qed (auto simp: panic_inv_def StartIO_def NewProdIO_def Let_def setCaller_def setGo_def removeGo_def forceShutdown_def dest: chanSend_cases)

lemma reach_panic_inv: "sys_reach n s \<Longrightarrow> panic_inv s"
  by (induction rule: sys_reach.induct)
    (auto simp: panic_inv_def initSystem_def makeChan_def dest: step_panic_inv)

text \<open>A node whose \<open>Start\<close> has returned, and the same after a forced shutdown.\<close>

definition startable :: "node \<Rightarrow> bool" where
  "startable n \<longleftrightarrow> \<not> started n \<and> \<not> stopped n \<and> bytes_len (confMetadata (conf n)) \<le> maxMetadataSize"

definition runningSystem :: "node \<Rightarrow> system" where
  "runningSystem n = StartIO True 0 (Start (initSystem n))"

lemma reach_call: "sys_reach n s \<Longrightarrow> \<not> crashed s \<Longrightarrow> sys_reach n (begin_op x s)"
  by (blast intro: sys_reach.step sys_step.call)

lemma running_sel:
  assumes "startable n"
  shows "nd (runningSystem n) = n\<lparr>started := True\<rparr>" "ioSet (runningSystem n)" "\<not> crashed (runningSystem n)"
    "loopRunning (runningSystem n)" "eventCh (runningSystem n) = makeChan 1000" "gos (runningSystem n) = []"
    "\<not> shutdownOnce (runningSystem n)" "\<not> ioStopped (runningSystem n)" "armed (runningSystem n) = []"
    "nextTimer (runningSystem n) = 0" "nextCall (runningSystem n) = 1"
  using assms by (auto simp: startable_def runningSystem_def Start_def StartIO_def NewProdIO_def initSystem_def
      Let_def newCall_def setCaller_def)

lemma reach_running:
  assumes "startable n" shows "sys_reach n (runningSystem n)"
proof -
  have "\<not> crashed (Start (initSystem n))" and "callers (Start (initSystem n)) 0 = Some StartRest"
    using assms by (auto simp: startable_def Start_def initSystem_def Let_def newCall_def setCaller_def)
  moreover have "sys_reach n (Start (initSystem n))"
    using reach_call [OF sys_reach.init, of n OpStart] by (simp add: initSystem_def)
  ultimately show ?thesis
    unfolding runningSystem_def by (blast intro: sys_reach.step sys_step.start_rest)
qed

text \<open>A \<open>Stop\<close> whose context ends: the shutdown event is sent, then the shutdown is forced.\<close>

definition forced :: "system \<Rightarrow> system" where
  "forced s = setCaller (nextCall s) (CallReturned (ErrResult (Some CtxErr))) (forceShutdown (Stop s))"

lemma reach_forced:
  assumes "sys_reach n s" "\<not> crashed s" "started (nd s)" "\<not> stopped (nd s)" "ioSet s"
    and "eventCh s = makeChan 1000" "\<not> shutdownOnce s"
  shows "sys_reach n (forced s)" and "ch_closed (eventCh (forced s))" and "\<not> crashed (forced s)"
    and "started (nd (forced s))" and "gos (forced s) = gos s" and "ioStopped (forced s)"
    and "callers (forced s) (nextCall s) = Some (CallReturned (ErrResult (Some CtxErr)))"
proof -
  have st: "callers (Stop s) (nextCall s) = Some StopWait" "\<not> crashed (Stop s)" "\<not> shutdownOnce (Stop s)"
      "started (nd (Stop s))" "gos (Stop s) = gos s" "ioStopped (Stop s)"
    using assms by (simp_all add: Stop_def SetStopped_def chanSend_def makeChan_def newCall_def setCaller_def Let_def)
  have "sys_reach n (Stop s)" using reach_call [OF assms(1,2), of OpStop] by simp
  from sys_reach.step [OF this sys_step.stop_ctx [OF st(2), of "nextCall s"]] st(1)
  show "sys_reach n (forced s)" by (simp add: forced_def)
  show "ch_closed (eventCh (forced s))" "\<not> crashed (forced s)" "started (nd (forced s))" "gos (forced s) = gos s"
    "callers (forced s) (nextCall s) = Some (CallReturned (ErrResult (Some CtxErr)))" "ioStopped (forced s)"
    using st by (simp_all add: forced_def forceShutdown_def setCaller_def)
qed

lemma stop_without_io:
  "\<not> started n \<Longrightarrow> \<not> stopped n \<Longrightarrow> crashed (Stop (Start (initSystem n)))"
  by (simp add: Start_def Stop_def SetStopped_def newCall_def setCaller_def Let_def initSystem_def)

lemma ReceiveRPC_vote:
  "started (nd s) \<Longrightarrow> ReceiveRPC \<lparr>rq_RPC = VoteRPC, rq_Request = b\<rparr> s = newCall (Sending ((event_of EventRPC)
     \<lparr>ev_RPCReq := \<lparr>rq_RPC = VoteRPC, rq_Request = b\<rparr>, ev_Respond := Some (nextCall s)\<rparr>)) s"
  by (simp add: ReceiveRPC_def)

lemma fresh_sample:
  "\<not> started (sampleNode ''a'' [''a''])" "\<not> stopped (sampleNode ''a'' [''a''])" "startable (sampleNode ''a'' [''a''])"
  by (simp_all add: startable_def sampleNode_def sampleConf_def NewNode_def Let_def applyDefaults_def
      maxMetadataSize_def bytes_len_def bytes_val_def)



text \<open>A node without an adapter: after a \<open>Start\<close> refused for its metadata, the node counts as
  started, so that \<open>Start\<close> cannot be repeated, and \<open>Stop\<close> panics; and a \<open>Stop\<close> that
  overtakes a \<open>Start\<close> which will succeed panics as well.\<close>

theorem stop_panics_without_io:
  assumes "\<not> started n" and "\<not> stopped n" and "s = Start (initSystem n)"
  shows "crashed (Stop s) \<and>
    (maxMetadataSize < bytes_len (confMetadata (conf n)) \<longrightarrow>
       callers s 0 = Some (CallReturned (ErrResult (Some ErrMetadataTooLarge)))
     \<and> callers (Start s) 1 = Some (CallReturned (ErrResult (Some (ErrText ''node already started'')))))"
  using assms by (auto simp: Start_def Stop_def SetStopped_def newCall_def setCaller_def Let_def initSystem_def)

definition bigNode :: node where
  "bigNode = (sampleNode ''a'' [''a''])\<lparr>conf := (sampleConf ''a'' [''a''])\<lparr>confMetadata := Some (replicate 1025 0)\<rparr>\<rparr>"

theorem stop_panics_without_io_witness:
  "crashed (Stop (Start (initSystem bigNode)))
   \<and> callers (Start (initSystem bigNode)) 0 = Some (CallReturned (ErrResult (Some ErrMetadataTooLarge)))
   \<and> callers (Start (Start (initSystem bigNode))) 1
       = Some (CallReturned (ErrResult (Some (ErrText ''node already started''))))"
  using stop_panics_without_io [OF _ _ refl, of bigNode] fresh_sample
  by (simp add: bigNode_def maxMetadataSize_def bytes_len_def bytes_val_def sampleConf_def)

text \<open>A timer that has fired and whose callback has passed its check of the stop flag.\<close>

definition timerPassed :: "node \<Rightarrow> system" where
  "timerPassed n = (let s = prod_Dispatch 0 (req_of After) 0 (runningSystem n);
                        s = s\<lparr>armed := removeAll 1 (armed s), gos := gos s @ [GoTimer 1]\<rparr>
                    in setGo 0 (GoTimerSend 1) s)"

lemma timerPassed_sel:
  assumes "startable n"
  shows "nd (timerPassed n) = n\<lparr>started := True\<rparr>" "ioSet (timerPassed n)" "\<not> crashed (timerPassed n)"
    "eventCh (timerPassed n) = makeChan 1000" "gos (timerPassed n) = [GoTimerSend 1]" "\<not> shutdownOnce (timerPassed n)"
    "nextCall (timerPassed n) = 1"
  by (simp_all add: timerPassed_def Let_def setGo_def running_sel [OF assms] prod_Dispatch_def req_of_def wrap64_def)

lemma reach_timerPassed:
  assumes "startable n" shows "sys_reach n (timerPassed n)"
proof -
  let ?r = "runningSystem n"
  let ?a = "prod_Dispatch 0 (req_of After) 0 ?r"
  let ?f = "?a\<lparr>armed := removeAll 1 (armed ?a), gos := gos ?a @ [GoTimer 1]\<rparr>"
  note sel = running_sel [OF assms]
  have a: "\<not> crashed ?a" "1 \<in> set (armed ?a)" "gos ?a = []" "\<not> ioStopped ?a"
    using sel by (auto simp: prod_Dispatch_def Let_def req_of_def wrap64_def)
  have "sys_reach n ?a"
    by (rule sys_reach.step [OF reach_running [OF assms] sys_step.loop_dispatch [OF sel(3,4)]])
  then have "sys_reach n ?f"
    by (rule sys_reach.step) (rule sys_step.timer_fires [OF a(1,2)])
  then have "sys_reach n (setGo 0 (GoTimerSend 1) ?f)"
    by (rule sys_reach.step) (rule sys_step.timer_goes_on, use a in simp_all)
  then show ?thesis by (simp add: timerPassed_def Let_def)
qed

text \<open>C35. The closed channel: there are runs in which a \<open>Stop\<close> has forced the shutdown and returned
  to its caller, and then (1) a peer's vote request that comes in makes \<open>ReceiveRPC\<close>
  panic, or (2) the callback of a timer panics although \<open>SetStopped\<close> was called, having
  checked the flag before.\<close>

theorem forced_shutdown_panics:
  assumes "startable n"
  shows "(\<exists>s s'. sys_reach n s \<and> callers s 1 = Some (CallReturned (ErrResult (Some CtxErr))) \<and> \<not> crashed s
            \<and> sys_step (ReceiveRPC \<lparr>rq_RPC = VoteRPC, rq_Request = VoteReq v\<rparr> s) s' \<and> crashed s')
       \<and> (\<exists>s s' t. sys_reach n s \<and> callers s 1 = Some (CallReturned (ErrResult (Some CtxErr))) \<and> \<not> crashed s
            \<and> gos s = [GoTimerSend t] \<and> ioStopped s \<and> sys_step s s' \<and> crashed s')"
proof
  have ns: "\<not> stopped n" using assms by (simp add: startable_def)
  let ?s = "forced (runningSystem n)"
  let ?q = "\<lparr>rq_RPC = VoteRPC, rq_Request = VoteReq v\<rparr>"
  note f = reach_forced [OF reach_running [OF assms], simplified running_sel [OF assms], simplified, OF ns]
  have "sys_step (ReceiveRPC ?q ?s) ((ReceiveRPC ?q ?s)\<lparr>crashed := True\<rparr>)"
    by (rule sys_step.send_panic [of _ "nextCall ?s"])
      (use f in \<open>simp_all add: ReceiveRPC_vote newCall_def setCaller_def chanSend_def\<close>)
  then show "\<exists>s s'. sys_reach n s \<and> callers s 1 = Some (CallReturned (ErrResult (Some CtxErr))) \<and> \<not> crashed s
            \<and> sys_step (ReceiveRPC ?q s) s' \<and> crashed s'"
    using f by (intro exI [of _ ?s] exI [of _ "(ReceiveRPC ?q ?s)\<lparr>crashed := True\<rparr>"]) simp
next
  have ns: "\<not> stopped n" using assms by (simp add: startable_def)
  let ?s = "forced (timerPassed n)"
  note f = reach_forced [OF reach_timerPassed [OF assms], simplified timerPassed_sel [OF assms], simplified, OF ns]
  have "sys_step ?s (?s\<lparr>crashed := True\<rparr>)"
    by (rule sys_step.timer_panic [of _ 0 1]) (use f in \<open>simp_all add: chanSend_def\<close>)
  then show "\<exists>s s' t. sys_reach n s \<and> callers s 1 = Some (CallReturned (ErrResult (Some CtxErr))) \<and> \<not> crashed s
            \<and> gos s = [GoTimerSend t] \<and> ioStopped s \<and> sys_step s s' \<and> crashed s'"
    using f by (intro exI [of _ ?s] exI [of _ "?s\<lparr>crashed := True\<rparr>"]) simp
qed

theorem forced_shutdown_panics_witness:
  "startable (sampleNode ''a'' [''a'']) \<and> (\<exists>s s'. sys_reach (sampleNode ''a'' [''a'']) s
     \<and> \<not> crashed s \<and> ioStopped s \<and> sys_step s s' \<and> crashed s')"
  using forced_shutdown_panics [OF fresh_sample(3)] fresh_sample(3) by blast

section \<open>Delivery\<close>

text \<open>The events of a system, wherever they are: in the event channel, with a goroutine that has
  received one, in the completion channel, or handed to the coroutine.\<close>

fun goEvents :: "goroutine \<Rightarrow> event list" where
  "goEvents (GoPush x) = [r_Event (cp_resp x)]"
| "goEvents _ = []"

definition received :: "system \<Rightarrow> event list" where
  "received s = map (r_Event \<circ> snd) (resolved s)"

definition allEvents :: "system \<Rightarrow> event multiset" where
  "allEvents s = mset (ch_buf (eventCh s)) + mset (concat (map goEvents (gos s)))
     + mset (map (r_Event \<circ> cp_resp) (ch_buf (completeCh s))) + mset (received s)"

text \<open>The events of call \<open>i\<close> among them.\<close>

definition ofCall :: "nat \<Rightarrow> event multiset \<Rightarrow> event multiset" where
  "ofCall i es = filter_mset (\<lambda>ev. callOf ev = Some i) es"

definition oneClosure :: "event \<Rightarrow> bool" where
  "oneClosure ev \<longleftrightarrow> ev_Respond ev = None \<or> ev_Done ev = None"

definition call_ok :: "nat \<Rightarrow> caller option \<Rightarrow> event multiset \<Rightarrow> bool" where
  "call_ok i c es \<longleftrightarrow> size es \<le> 1 \<and> (c = None \<longrightarrow> es = {#})
     \<and> (\<forall>ev. c = Some (Sending ev) \<longrightarrow> es = {#} \<and> callOf ev = Some i \<and> oneClosure ev)
     \<and> (\<forall>ev. c = Some (Waiting ev) \<longrightarrow> es = {#ev#})"

definition delivery_inv :: "system \<Rightarrow> bool" where
  "delivery_inv s \<longleftrightarrow> (\<forall>ev\<in>#allEvents s. oneClosure ev)
     \<and> (\<forall>i. call_ok i (callers s i) (ofCall i (allEvents s)))
     \<and> (\<forall>i\<ge>nextCall s. callers s i = None)
     \<and> (\<forall>i. replies s i \<noteq> [] \<longrightarrow> Some i \<in> callOf ` set (received s))"

text \<open>How the steps move events.\<close>

lemma concat_update:
  "g < length xs \<Longrightarrow> mset (concat (map f (xs[g := y]))) + mset (f (xs ! g)) = mset (concat (map f xs)) + mset (f y)"
  by (induction xs arbitrary: g) (auto simp: nth_Cons ac_simps split: nat.splits)

lemma concat_remove:
  "g < length xs \<Longrightarrow> mset (concat (map f (take g xs @ drop (Suc g) xs))) + mset (f (xs ! g)) = mset (concat (map f xs))"
  by (induction xs arbitrary: g) (auto simp: nth_Cons ac_simps split: nat.splits)

lemma event0_callOf [simp]: "callOf (event_of k) = None" "oneClosure (event_of k)" "callOf (timerEvent t) = None"
    "oneClosure (timerEvent t)"
  by (simp_all add: callOf_def oneClosure_def event_of_def timerEvent_def)

lemma resp0_event [simp]: "r_Event (resp_of k) = event_of EventTimer"
  by (simp add: resp_of_def)

lemma ofCall_simps [simp]:
  "ofCall i (add_mset ev es) = (if callOf ev = Some i then add_mset ev (ofCall i es) else ofCall i es)"
  "ofCall i (es + es') = ofCall i es + ofCall i es'" "ofCall i {#} = {#}"
  by (simp_all add: ofCall_def)

text \<open>A step that moves events, and one that ends a call.\<close>

lemma inv_frame:
  assumes "delivery_inv s" "\<And>i. ofCall i (allEvents s') = ofCall i (allEvents s)" "\<forall>ev\<in>#allEvents s'. oneClosure ev"
    and "nextCall s' = nextCall s" "callers s' = callers s" "replies s' = replies s"
    and "set (received s) \<subseteq> set (received s')"
  shows "delivery_inv s'"
  using assms image_mono [OF assms(7), of callOf] by (simp add: delivery_inv_def) blast

lemma setCaller_sel [simp]:
  "allEvents (setCaller i c s) = allEvents s" "received (setCaller i c s) = received s"
  "callers (setCaller i c s) = (callers s)(i \<mapsto> c)" "replies (setCaller i c s) = replies s"
  "nextCall (setCaller i c s) = nextCall s"
  by (simp_all add: setCaller_def allEvents_def received_def)

lemma inv_caller:
  assumes "delivery_inv s" "callers s i \<noteq> None" "\<And>ev. c \<noteq> Sending ev" "\<And>ev. c \<noteq> Waiting ev"
  shows "delivery_inv (setCaller i c s)"
  using assms by (auto simp: delivery_inv_def call_ok_def)

lemma inv_newCall:
  assumes "delivery_inv s" "\<And>ev. c = Sending ev \<Longrightarrow> callOf ev = Some (nextCall s) \<and> oneClosure ev"
    and "\<And>ev. c \<noteq> Waiting ev"
  shows "delivery_inv (newCall c s)"
proof -
  have "allEvents (newCall c s) = allEvents s" "received (newCall c s) = received s" 
    "callers (newCall c s) = (callers s)(nextCall s \<mapsto> c)" "replies (newCall c s) = replies s"
    "nextCall (newCall c s) = Suc (nextCall s)"
    by (simp_all add: newCall_def setCaller_def allEvents_def received_def)
  with assms show ?thesis by (auto simp: delivery_inv_def call_ok_def)
qed

lemma inv_send:
  assumes "delivery_inv s" "callers s i = Some (Sending ev)" "allEvents s' = add_mset ev (allEvents s)"
    and "nextCall s' = nextCall s" "callers s' = callers s" "replies s' = replies s" "received s' = received s"
  shows "delivery_inv (setCaller i (Waiting ev) s')"
  using assms by (auto simp: delivery_inv_def call_ok_def)

text \<open>Where the events of the next state come from.\<close>

lemma events_pushed [simp]:
  "allEvents (s\<lparr>eventCh := (eventCh s)\<lparr>ch_buf := ch_buf (eventCh s) @ [ev]\<rparr>\<rparr>) = add_mset ev (allEvents s)"
  by (simp add: allEvents_def received_def)

lemma events_setGo:
  "g < length (gos s) \<Longrightarrow> goEvents (gos s ! g) = [] \<Longrightarrow> allEvents (setGo g x s) = allEvents s + mset (goEvents x)"
  using concat_update [of g "gos s" goEvents x] by (simp add: setGo_def allEvents_def received_def)

lemma events_removeGo:
  "g < length (gos s) \<Longrightarrow> allEvents (removeGo g s) + mset (goEvents (gos s ! g)) = allEvents s"
  using concat_remove [of g "gos s" goEvents] by (simp add: removeGo_def allEvents_def received_def ac_simps)

lemma events_Dispatch:
  "\<exists>es. allEvents (prod_Dispatch now q cb s) = allEvents s + es \<and> set_mset es \<subseteq> {event_of EventTimer}"
  "set (received s) \<subseteq> set (received (prod_Dispatch now q cb s))"
  by (auto simp: prod_Dispatch_def Let_def allEvents_def received_def split: kind.split)

lemma inv_extra:
  assumes "delivery_inv s" "allEvents s' = allEvents s + es" "\<And>ev. ev \<in># es \<Longrightarrow> callOf ev = None \<and> oneClosure ev"
    and "nextCall s' = nextCall s" "callers s' = callers s" "replies s' = replies s"
    and "set (received s) \<subseteq> set (received s')"
  shows "delivery_inv s'"
proof (rule inv_frame [OF assms(1)])
  fix i
  have "ofCall i es = {#}" using assms(3) by (fastforce simp: ofCall_def filter_mset_eq_conv)
  then show "ofCall i (allEvents s') = ofCall i (allEvents s)" by (simp add: assms(2))
  show "\<forall>ev\<in>#allEvents s'. oneClosure ev" using assms(1-3) by (auto simp: delivery_inv_def)
qed (use assms in auto)

lemma begin_delivery:
  assumes "delivery_inv s" shows "delivery_inv (begin_op x s)"
proof -
  have same: "delivery_inv (s\<lparr>nd := n\<rparr>)" "delivery_inv (s\<lparr>ioStopped := b\<rparr>)" "delivery_inv (s\<lparr>crashed := b\<rparr>)"
      "delivery_inv (s\<lparr>ioStopped := b, crashed := c\<rparr>)" for n b c
    by (rule inv_extra [OF assms, of _ "{#}"]; simp add: allEvents_def received_def)+
  have shut: "delivery_inv (s\<lparr>ioStopped := b, eventCh := (eventCh s)\<lparr>ch_buf := ch_buf (eventCh s) @ [event_of k]\<rparr>\<rparr>)" for b k
    by (rule inv_extra [OF assms, of _ "{#event_of k#}"]; simp add: allEvents_def received_def)
  show ?thesis
    by (cases x)
      (auto simp: Start_def Stop_def SetStopped_def ReceiveRPC_def SetPeers_def SetMetadata_def Resign_def Let_def
        event_of_def oneClosure_def callOf_def assms
        split: sent.splits dest!: chanSend_cases intro!: inv_newCall same shut [simplified event_of_def])
qed

lemma moved_delivery:
  assumes "delivery_inv s" "allEvents s' = allEvents s" "nextCall s' = nextCall s" "callers s' = callers s"
    and "replies s' = replies s" "set (received s) \<subseteq> set (received s')"
  shows "delivery_inv s'"
  by (rule inv_extra [OF assms(1), of _ "{#}"]) (simp_all add: assms)

lemmas events_move = allEvents_def received_def setGo_def removeGo_def

lemma go_delivery:
  assumes "delivery_inv s" "g < length (gos s)"
  shows "goEvents (gos s ! g) = [] \<Longrightarrow> goEvents x = [] \<Longrightarrow> delivery_inv (setGo g x s)"
    and "goEvents (gos s ! g) = [] \<Longrightarrow> delivery_inv (removeGo g s)"
    and "goEvents (gos s ! g) = [] \<Longrightarrow> callOf ev = None \<Longrightarrow> oneClosure ev \<Longrightarrow> goEvents x = [ev] \<Longrightarrow>
      delivery_inv (setGo g x s)"
    and "goEvents (gos s ! g) = [] \<Longrightarrow> callOf ev = None \<Longrightarrow> oneClosure ev \<Longrightarrow>
      delivery_inv (removeGo g (s\<lparr>eventCh := (eventCh s)\<lparr>ch_buf := ch_buf (eventCh s) @ [ev]\<rparr>\<rparr>))"
  subgoal by (rule moved_delivery [OF assms(1)]) (simp add: events_setGo assms(2), simp_all add: events_move)
  subgoal
    by (rule moved_delivery [OF assms(1)]) (use events_removeGo [OF assms(2)] in simp, simp_all add: events_move)
  subgoal by (rule inv_extra [OF assms(1), of _ "{#ev#}"]) (simp add: events_setGo assms(2), simp_all add: events_move)
  subgoal
    by (rule inv_extra [OF assms(1), of _ "{#ev#}"])
      (use events_removeGo [of g "s\<lparr>eventCh := (eventCh s)\<lparr>ch_buf := ch_buf (eventCh s) @ [ev]\<rparr>\<rparr>"] assms(2) in simp,
        simp_all add: events_move)
  done

lemma recv_delivery:
  assumes "delivery_inv s" "g < length (gos s)" "gos s ! g = GoRecv cb" "ch_buf (eventCh s) = ev # evs"
  shows "delivery_inv (setGo g (recv_done ev cb) (s\<lparr>eventCh := (eventCh s)\<lparr>ch_buf := evs\<rparr>\<rparr>))"
  by (rule moved_delivery [OF assms(1)])
    (use assms in \<open>simp add: events_setGo recv_done_def, simp add: allEvents_def received_def\<close>, simp_all add: events_move)

lemma push_delivery:
  assumes "delivery_inv s" "g < length (gos s)" "gos s ! g = GoPush x"
  shows "delivery_inv (removeGo g (s\<lparr>completeCh := (completeCh s)\<lparr>ch_buf := ch_buf (completeCh s) @ [x]\<rparr>\<rparr>))"
proof -
  let ?s = "s\<lparr>completeCh := (completeCh s)\<lparr>ch_buf := ch_buf (completeCh s) @ [x]\<rparr>\<rparr>"
  have "allEvents ?s = add_mset (r_Event (cp_resp x)) (allEvents s)" by (simp add: allEvents_def received_def)
  then have "allEvents (removeGo g ?s) = allEvents s"
    using events_removeGo [of g ?s] assms by simp
  then show ?thesis by (rule moved_delivery [OF assms(1)]) (simp_all add: events_move)
qed

lemma answer_delivery:
  assumes "delivery_inv s" "(cb, r) \<in> set (resolved s)"
    and "(case x of ReplyResp _ \<Rightarrow> ev_Respond (r_Event r) | ReplyDone _ \<Rightarrow> ev_Done (r_Event r)) = Some i"
  shows "delivery_inv (s\<lparr>replies := (replies s)(i := [x])\<rparr>)"
proof -
  have "r_Event r \<in> set (received s)" using assms(2) by (force simp: received_def)
  moreover from this have "oneClosure (r_Event r)" using assms(1) by (simp add: delivery_inv_def allEvents_def)
  then have "callOf (r_Event r) = Some i"
    using assms(3) by (auto simp: oneClosure_def callOf_def split: reply.splits)
  ultimately show ?thesis
    using assms(1) by (auto simp: delivery_inv_def allEvents_def received_def rev_image_eqI)
qed

lemma step_delivery: "sys_step s s' \<Longrightarrow> delivery_inv s \<Longrightarrow> delivery_inv s'"
proof (induction rule: sys_step.induct)
  case (call s x)
  then show ?case by (simp add: begin_delivery)
next
  case (start_rest s i added)
  let ?t = "s\<lparr>ioSet := True, timers := [], nextTimer := 0, ioStopped := False\<rparr>"
  have "delivery_inv (?t\<lparr>loopRunning := b\<rparr>)" for b
    by (rule moved_delivery [OF start_rest(3)]) (simp_all add: events_move)
  then show ?case 
    using start_rest(2) by (auto simp: StartIO_def NewProdIO_def Let_def intro!: inv_caller moved_delivery [OF start_rest(3)] simp: events_move)
next
  case (send s i ev c)
  then show ?case by (auto dest!: chanSend_cases intro!: inv_send simp: received_def)
next
  case (reply s i ev r rs)
  then have "delivery_inv (s\<lparr>replies := (replies s)(i := rs)\<rparr>)"
    by (auto simp: delivery_inv_def allEvents_def received_def)
  with reply show ?case by (auto intro!: inv_caller)
next
  case (stop_send s i c)
  then have "delivery_inv (s\<lparr>eventCh := c\<rparr>)"
    by (auto dest!: chanSend_cases intro!: inv_extra [of s _ "{#event_of EventShutdown#}"] simp: received_def)
  with stop_send show ?case by (auto intro!: inv_caller)
next
  case (stop_ctx s i)
  have "delivery_inv (forceShutdown s)"
    by (rule moved_delivery [OF stop_ctx(3)]) (simp_all add: forceShutdown_def events_move)
  with stop_ctx show ?case by (auto intro!: inv_caller simp: forceShutdown_def)
next
  case (go_send s g p rq cb res)
  then show ?case by (auto simp: sendRPC_done_def split: sum.split intro!: go_delivery(3) [where ev = "event_of EventTimer"])
next
  case (go_recv_closed s g cb)
  then show ?case by (auto simp: recv_done_def intro!: go_delivery(3) [where ev = "event_of EventShutdown"])
next
  case (go_push s g x c)
  then show ?case by (auto dest!: chanSend_cases intro!: push_delivery)
next
  case (timer_fires s t)
  show ?case by (rule moved_delivery [OF timer_fires(3)]) (simp_all add: events_move)
next
  case (timer_send s g t c)
  then show ?case by (auto dest!: chanSend_cases intro!: go_delivery(4))
next
  case (loop_dispatch s now q cb)
  obtain es where es: "allEvents (prod_Dispatch now q cb s) = allEvents s + es" "set_mset es \<subseteq> {event_of EventTimer}"
    using events_Dispatch(1) by blast
  have "callOf ev = None \<and> oneClosure ev" if "ev \<in># es" for ev using es(2) that by auto
  then show ?case by (rule inv_extra [OF loop_dispatch(3) es(1)]) (simp_all add: events_Dispatch(2))
next
  case (loop_complete s x xs)
  show ?case by (rule moved_delivery [OF loop_complete(4)]) (use loop_complete in \<open>auto simp: events_move\<close>)
qed (simp_all add: go_delivery recv_delivery answer_delivery inv_caller moved_delivery allEvents_def received_def)

lemma init_delivery: "delivery_inv (initSystem n)"
  by (simp add: delivery_inv_def call_ok_def allEvents_def received_def initSystem_def makeChan_def)

lemma reach_delivery: "sys_reach n s \<Longrightarrow> delivery_inv s"
  by (induction rule: sys_reach.induct) (simp_all add: init_delivery step_delivery)

text \<open>C36. An event of the API is delivered at most once and none is lost: in every interleaving,
  the event of a call exists at most once in the system; before the call's send succeeds it
  is nowhere, and while the call waits for its reply it is in exactly one place, from the
  event channel to the coroutine; a reply is there only after the coroutine has received
  the event.\<close>

theorem events_delivered_once:
  assumes "sys_reach n s"
  shows "size (ofCall i (allEvents s)) \<le> 1
     \<and> (callers s i = Some (Sending ev) \<longrightarrow> ofCall i (allEvents s) = {#})
     \<and> (callers s i = Some (Waiting ev) \<longrightarrow> ofCall i (allEvents s) = {#ev#})
     \<and> (replies s i \<noteq> [] \<longrightarrow> (\<exists>e\<in>set (received s). callOf e = Some i))"
proof -
  have inv: "call_ok i (callers s i) (ofCall i (allEvents s))"
      "replies s i \<noteq> [] \<longrightarrow> Some i \<in> callOf ` set (received s)"
    using reach_delivery [OF assms] by (simp_all add: delivery_inv_def)
  then show ?thesis by (auto simp: call_ok_def)
qed

text \<open>A vote request that has reached the event channel of a started node.\<close>

definition sampleWaiting :: system where
  "sampleWaiting =
    (let s = ReceiveRPC \<lparr>rq_RPC = VoteRPC, rq_Request = OtherReq\<rparr> (runningSystem (sampleNode ''a'' [''a'']));
         ev = rpcEvent VoteRPC OtherReq (Some 1)
     in setCaller 1 (Waiting ev) (s\<lparr>eventCh := (makeChan 1000)\<lparr>ch_buf := [ev]\<rparr>\<rparr>))"

lemma reach_sampleWaiting: "sys_reach (sampleNode ''a'' [''a'']) sampleWaiting"
proof -
  let ?n = "sampleNode ''a'' [''a'']" and ?q = "\<lparr>rq_RPC = VoteRPC, rq_Request = OtherReq\<rparr>"
  let ?s = "ReceiveRPC ?q (runningSystem ?n)" and ?ev = "rpcEvent VoteRPC OtherReq (Some 1)"
  note sel = running_sel [OF fresh_sample(3)]
  have s: "\<not> crashed ?s" "callers ?s 1 = Some (Sending ?ev)" "eventCh ?s = makeChan 1000"
    using sel by (simp_all add: ReceiveRPC_vote newCall_def setCaller_def rpcEvent_def)
  have "sys_reach ?n ?s" using reach_call [OF reach_running [OF fresh_sample(3)], of "OpReceiveRPC ?q"] sel(3) by simp
  then have "sys_reach ?n (setCaller 1 (Waiting ?ev) (?s\<lparr>eventCh := (makeChan 1000)\<lparr>ch_buf := [?ev]\<rparr>\<rparr>))"
    by (rule sys_reach.step) (rule sys_step.send [OF s(1,2)], simp add: s(3) chanSend_def makeChan_def)
  then show ?thesis by (simp add: sampleWaiting_def Let_def)
qed

theorem events_delivered_once_witness:
  "sys_reach (sampleNode ''a'' [''a'']) sampleWaiting
   \<and> callers sampleWaiting 1 = Some (Waiting (rpcEvent VoteRPC OtherReq (Some 1)))
   \<and> ofCall 1 (allEvents sampleWaiting) = {#rpcEvent VoteRPC OtherReq (Some 1)#}"
proof -
  have "callers sampleWaiting 1 = Some (Waiting (rpcEvent VoteRPC OtherReq (Some 1)))"
    by (simp add: sampleWaiting_def Let_def)
  with events_delivered_once [OF reach_sampleWaiting] reach_sampleWaiting show ?thesis by blast
qed

end
