(* ===== verification/Production_Timers.thy ===== *)
theory Production_Timers
  imports Production_Specs
begin

text \<open>
  The timers of the production adapter: ids are handed out in order and a timer fires at most
  once, on its way from the runtime through the callback and the event channel to the
  coroutine. This is what the model of a cluster assumes of the timers of a node.
\<close>

section \<open>Where a timer is\<close>

fun goTimers :: "goroutine \<Rightarrow> timer_id list" where
  "goTimers (GoTimer t) = [t]"
| "goTimers (GoTimerSend t) = [t]"
| "goTimers _ = []"

definition firedIn :: "event multiset \<Rightarrow> timer_id multiset" where
  "firedIn es = image_mset ev_TimerID (filter_mset (\<lambda>ev. ev_Kind ev = EventTimer \<and> 0 < ev_TimerID ev) es)"

text \<open>The timers that are armed, in a callback, or in a timer event somewhere. The event of a response
  that carries none has the id 0, which is no timer's.\<close>

definition timerTokens :: "system \<Rightarrow> timer_id multiset" where
  "timerTokens s = mset (armed s) + mset (concat (map goTimers (gos s))) + firedIn (allEvents s)"

definition timerIds :: "system \<Rightarrow> timer_id list" where
  "timerIds s = map (r_TimerID \<circ> snd) (filter (\<lambda>x. r_Kind (snd x) = After) (resolved s))"

lemma firedIn_simps [simp]:
  "firedIn {#} = {#}" "firedIn (es + es') = firedIn es + firedIn es'"
  "firedIn (add_mset ev es) = (if ev_Kind ev = EventTimer \<and> 0 < ev_TimerID ev
     then add_mset (ev_TimerID ev) (firedIn es) else firedIn es)"
  by (simp_all add: firedIn_def)

lemma event0_fields [simp]:
  "ev_Kind (event_of k) = k" "ev_TimerID (event_of k) = 0" "ev_Kind (timerEvent t) = EventTimer"
  "ev_TimerID (timerEvent t) = t"
  by (simp_all add: event_of_def timerEvent_def)

lemma tokens_setGo:
  "g < length (gos s) \<Longrightarrow> goEvents (gos s ! g) = [] \<Longrightarrow> timerTokens (setGo g x s) + mset (goTimers (gos s ! g))
    = timerTokens s + mset (goTimers x) + firedIn (mset (goEvents x))"
  using concat_update [of g "gos s" goTimers x] events_setGo [of g s x]
  by (simp add: timerTokens_def, simp add: setGo_def)

lemma tokens_removeGo:
  assumes "g < length (gos s)"
  shows "timerTokens (removeGo g s) + mset (goTimers (gos s ! g)) + firedIn (mset (goEvents (gos s ! g))) = timerTokens s"
proof -
  have t: "mset (concat (map goTimers (gos s))) = mset (concat (map goTimers (gos (removeGo g s)))) + mset (goTimers (gos s ! g))"
    using concat_remove [OF assms, of goTimers] by (simp add: removeGo_def)
  have e: "firedIn (allEvents s) = firedIn (allEvents (removeGo g s)) + firedIn (mset (goEvents (gos s ! g)))"
    using arg_cong [OF events_removeGo [OF assms], of firedIn] by simp
  have "armed (removeGo g s) = armed s" by (simp add: removeGo_def)
  then show ?thesis unfolding timerTokens_def t e by (simp add: ac_simps)
qed

lemma tokens_frame [simp]:
  "timerTokens (setCaller i c s) = timerTokens s" "timerIds (setCaller i c s) = timerIds s"
  "nextTimer (setCaller i c s) = nextTimer s"
  "timerTokens (newCall c s) = timerTokens s" "timerIds (newCall c s) = timerIds s"
  "nextTimer (newCall c s) = nextTimer s"
  by (simp_all add: newCall_def setCaller_def timerTokens_def timerIds_def allEvents_def received_def)

section \<open>The steps\<close>

text \<open>There is one pending start at most, and no timer before it is done; no API event is a timer's; only
  the answer to a request for a timer is of its kind.\<close>

definition start_inv :: "system \<Rightarrow> bool" where
  "start_inv s \<longleftrightarrow> (\<not> started (nd s) \<longrightarrow> \<not> loopRunning s \<and> nextTimer s = 0)
     \<and> (\<forall>i. callers s i = Some StartRest \<longrightarrow> started (nd s) \<and> \<not> loopRunning s \<and> nextTimer s = 0
          \<and> (\<forall>j. callers s j = Some StartRest \<longrightarrow> j = i))"

definition kinds_inv :: "system \<Rightarrow> bool" where
  "kinds_inv s \<longleftrightarrow> (\<forall>i ev. callers s i = Some (Sending ev) \<longrightarrow> ev_Kind ev \<noteq> EventTimer)
     \<and> (\<forall>x. GoPush x \<in> set (gos s) \<longrightarrow> r_Kind (cp_resp x) \<noteq> After)
     \<and> (\<forall>x\<in>set (ch_buf (completeCh s)). r_Kind (cp_resp x) \<noteq> After)"

lemma step_start_inv: "sys_step s s' \<Longrightarrow> start_inv s \<Longrightarrow> start_inv s'"
proof (induction rule: sys_step.induct)
  case (call s x)
  then show ?case
    by (cases x) (auto simp: start_inv_def Start_def Stop_def SetStopped_def ReceiveRPC_def SetPeers_def
      SetMetadata_def Resign_def newCall_def setCaller_def Let_def split: sent.splits if_splits)
next
  case (loop_dispatch s now q cb)
  then show ?case by (auto simp: start_inv_def)
qed (auto simp: start_inv_def StartIO_def NewProdIO_def Let_def setCaller_def setGo_def removeGo_def forceShutdown_def
    split: if_splits)

lemma set_remove: "set (take g xs @ drop (Suc g) xs) \<subseteq> set xs"
  using set_take_subset [of g xs] set_drop_subset [of "Suc g" xs] by auto

lemma step_kinds_inv: "sys_step s s' \<Longrightarrow> kinds_inv s \<Longrightarrow> kinds_inv s'"
proof (induction rule: sys_step.induct)
  case (call s x)
  then show ?case
    by (cases x) (auto simp: kinds_inv_def Start_def Stop_def SetStopped_def ReceiveRPC_def SetPeers_def
      SetMetadata_def Resign_def newCall_def setCaller_def Let_def split: sent.splits if_splits)
next
  case (loop_dispatch s now q cb)
  then show ?case by (auto simp: kinds_inv_def prod_Dispatch_def Let_def split: kind.splits)
next
  case (go_push s g x c)
  then have "r_Kind (cp_resp x) \<noteq> After" by (metis kinds_inv_def nth_mem)
  with go_push set_remove [of g "gos s"] show ?case
    by (auto simp: kinds_inv_def removeGo_def dest!: chanSend_cases)
qed (use set_remove in \<open>fastforce simp: kinds_inv_def StartIO_def NewProdIO_def Let_def setCaller_def setGo_def
    removeGo_def forceShutdown_def sendRPC_done_def recv_done_def resp_of_def split: if_splits sum.splits
    dest!: set_update_subset_insert [THEN subsetD] dest: chanSend_cases\<close>)+

text \<open>What a step does to the timers: it moves or drops some, or sets the next one.\<close>

definition keepsTimers :: "system \<Rightarrow> system \<Rightarrow> bool" where
  "keepsTimers s s' \<longleftrightarrow> timerIds s' = timerIds s \<and> nextTimer s' = nextTimer s \<and> timerTokens s' \<subseteq># timerTokens s"

definition setsTimer :: "system \<Rightarrow> system \<Rightarrow> bool" where
  "setsTimer s s' \<longleftrightarrow> nextTimer s' = wrap64 (nextTimer s + 1) \<and> timerIds s' = timerIds s @ [nextTimer s']
     \<and> timerTokens s' = add_mset (nextTimer s') (timerTokens s)"

lemma keeps_same:
  "timerIds s' = timerIds s \<Longrightarrow> nextTimer s' = nextTimer s \<Longrightarrow> timerTokens s' = timerTokens s \<Longrightarrow> keepsTimers s s'"
  by (simp add: keepsTimers_def)

lemma keeps_go:
  assumes "g < length (gos s)" "goEvents (gos s ! g) = []"
  shows "goTimers x = goTimers (gos s ! g) \<Longrightarrow> firedIn (mset (goEvents x)) = {#} \<Longrightarrow> keepsTimers s (setGo g x s)"
    and "keepsTimers s (removeGo g s)"
proof -
  show "goTimers x = goTimers (gos s ! g) \<Longrightarrow> firedIn (mset (goEvents x)) = {#} \<Longrightarrow> keepsTimers s (setGo g x s)"
    using tokens_setGo [OF assms, of x] by (intro keeps_same) (simp_all add: timerIds_def, simp_all add: setGo_def)
  have "timerTokens (removeGo g s) \<subseteq># timerTokens s"
    using tokens_removeGo [OF assms(1)] by (metis mset_subset_eq_add_left subset_mset.order_trans)
  then show "keepsTimers s (removeGo g s)" by (simp add: keepsTimers_def timerIds_def) (simp add: removeGo_def)
qed

lemma removeAll_tokens:
  fixes xs :: "timer_id list"
  shows "mset (removeAll t xs) \<subseteq># mset xs" and "t \<in> set xs \<Longrightarrow> add_mset t (mset (removeAll t xs)) \<subseteq># mset xs"
proof -
  show sub: "mset (removeAll t xs) \<subseteq># mset xs" for xs :: "timer_id list"
    by (induction xs) (auto intro: subset_mset.order_trans)
  show "t \<in> set xs \<Longrightarrow> add_mset t (mset (removeAll t xs)) \<subseteq># mset xs"
    by (induction xs) (auto simp: sub add_mset_commute [of t] intro: subset_mset.order_trans [OF sub])
qed

lemma dispatch_timers: "keepsTimers s (prod_Dispatch now q cb s) \<or> setsTimer s (prod_Dispatch now q cb s)"
proof (cases "q_Kind q")
  case After
  then have "setsTimer s (prod_Dispatch now q cb s)"
    by (simp add: setsTimer_def prod_Dispatch_def timerIds_def timerTokens_def allEvents_def received_def resp_of_def Let_def)
  then show ?thesis ..
next
  case Cancel
  note removeAll_tokens(1) [of _ "armed s"]
  then have "keepsTimers s (prod_Dispatch now q cb s)" using Cancel
    by (auto simp: keepsTimers_def prod_Dispatch_def timerIds_def timerTokens_def allEvents_def received_def resp_of_def Let_def)
  then show ?thesis ..
qed (auto simp: keepsTimers_def prod_Dispatch_def timerIds_def timerTokens_def allEvents_def received_def resp_of_def)

lemma call_timers: "keepsTimers s (begin_op x s)"
proof -
  have f: "timerTokens (s\<lparr>nd := n\<rparr>) = timerTokens s" "timerTokens (s\<lparr>ioStopped := b\<rparr>) = timerTokens s"
    "timerTokens (s\<lparr>crashed := b\<rparr>) = timerTokens s" "timerTokens (s\<lparr>ioStopped := b, crashed := c\<rparr>) = timerTokens s"
    "timerTokens (s\<lparr>ioStopped := b, eventCh := (eventCh s)\<lparr>ch_buf := ch_buf (eventCh s) @ [event_of k]\<rparr>\<rparr>) = timerTokens s"
    for n b c k by (simp_all add: timerTokens_def allEvents_def received_def)
  have i: "timerIds (s\<lparr>nd := n\<rparr>) = timerIds s" "timerIds (s\<lparr>ioStopped := b\<rparr>) = timerIds s"
    "timerIds (s\<lparr>crashed := b\<rparr>) = timerIds s" "timerIds (s\<lparr>ioStopped := b, crashed := c\<rparr>) = timerIds s"
    "timerIds (s\<lparr>ioStopped := b, eventCh := e\<rparr>) = timerIds s" for n b c e by (simp_all add: timerIds_def)
  show ?thesis
    by (cases x) (auto simp: Start_def Stop_def SetStopped_def ReceiveRPC_def SetPeers_def SetMetadata_def Resign_def
      Let_def f i split: sent.splits dest!: chanSend_cases intro!: keeps_same)
qed

lemma step_timers:
  assumes "sys_step s s'" "start_inv s" "kinds_inv s"
  shows "keepsTimers s s' \<or> setsTimer s s'"
  using assms
proof (induction rule: sys_step.induct)
  case (call s x)
  then show ?case by (simp add: call_timers)
next
  case (loop_dispatch s now q cb)
  show ?case by (rule dispatch_timers)
next
  case (start_rest s i added)
  then have "nextTimer s = 0" by (simp add: start_inv_def)
  moreover have "timerTokens (NewProdIO s) = timerTokens s" "timerIds (NewProdIO s) = timerIds s"
    "timerTokens ((NewProdIO s)\<lparr>loopRunning := b\<rparr>) = timerTokens s" "timerIds ((NewProdIO s)\<lparr>loopRunning := b\<rparr>) = timerIds s"
    "nextTimer (NewProdIO s) = 0" for b
    by (simp_all add: NewProdIO_def timerTokens_def timerIds_def allEvents_def received_def)
  ultimately show ?case by (simp add: StartIO_def Let_def keepsTimers_def)
next
  case (timer_fires s t)
  then show ?case using removeAll_tokens [of t "armed s"]
    by (simp add: keepsTimers_def timerTokens_def timerIds_def allEvents_def received_def)
next
  case (go_push s g x c)
  let ?s = "s\<lparr>completeCh := (completeCh s)\<lparr>ch_buf := ch_buf (completeCh s) @ [x]\<rparr>\<rparr>"
  have "timerTokens ?s = timerTokens s + firedIn (mset (goEvents (GoPush x)))"
    by (simp add: timerTokens_def allEvents_def received_def)
  then have "timerTokens (removeGo g ?s) = timerTokens s"
    using tokens_removeGo [of g ?s] go_push(2,3) by simp
  then have "keepsTimers s (removeGo g ?s)" by (rule keeps_same [rotated 2]) (simp_all add: timerIds_def removeGo_def)
  with go_push(4) show ?case by (auto dest!: chanSend_cases)
next
  case (timer_send s g t c)
  let ?s = "s\<lparr>eventCh := (eventCh s)\<lparr>ch_buf := ch_buf (eventCh s) @ [timerEvent t]\<rparr>\<rparr>"
  have e: "timerTokens ?s = add_mset t (timerTokens (removeGo g ?s))"
    using tokens_removeGo [of g ?s] timer_send(2,3) by simp
  have "timerTokens ?s \<subseteq># add_mset t (timerTokens s)" by (simp add: timerTokens_def allEvents_def received_def)
  then have "timerTokens (removeGo g ?s) \<subseteq># timerTokens s" unfolding e by simp
  then have "keepsTimers s (removeGo g ?s)" by (simp add: keepsTimers_def) (simp add: timerIds_def removeGo_def)
  with timer_send(4) show ?case by (auto dest!: chanSend_cases)
next
  case (go_recv s g cb ev evs)
  let ?s = "s\<lparr>eventCh := (eventCh s)\<lparr>ch_buf := evs\<rparr>\<rparr>"
  have "timerTokens s = timerTokens ?s + firedIn {#ev#}"
    using go_recv(4) by (simp add: timerTokens_def allEvents_def received_def)
  then have "timerTokens (setGo g (recv_done ev cb) ?s) = timerTokens s"
    using tokens_setGo [of g ?s "recv_done ev cb"] go_recv(2,3) by (simp add: recv_done_def)
  then show ?case by (intro disjI1 keeps_same) (simp_all add: timerIds_def setGo_def)
next
  case (loop_complete s x xs)
  then show ?case
    by (intro disjI1 keeps_same) (simp_all add: timerIds_def timerTokens_def allEvents_def received_def kinds_inv_def)
next
  case (go_send s g p rq cb res)
  then show ?case by (auto simp: sendRPC_done_def split: sum.split intro!: keeps_go)
next
  case (go_recv_closed s g cb)
  then show ?case by (auto simp: recv_done_def intro!: keeps_go)
qed (auto simp: keeps_go intro!: keeps_same dest!: chanSend_cases,
  auto simp: timerTokens_def timerIds_def allEvents_def received_def forceShutdown_def kinds_inv_def)

section \<open>Runs\<close>

definition timer_inv :: "system \<Rightarrow> bool" where
  "timer_inv s \<longleftrightarrow> (length (timerIds s) < 2 ^ 63 \<longrightarrow> 0 \<le> nextTimer s \<and> timerIds s = [1..nextTimer s]
     \<and> timerTokens s \<subseteq># mset [1..nextTimer s])"

lemma step_timer_inv:
  assumes "timer_inv s" "keepsTimers s s' \<or> setsTimer s s'"
  shows "timer_inv s'"
  using assms(2)
proof
  assume "keepsTimers s s'"
  with assms(1) show ?thesis
    by (auto simp: timer_inv_def keepsTimers_def intro: subset_mset.order_trans)
next
  assume st: "setsTimer s s'"
  have "0 \<le> nextTimer s' \<and> timerIds s' = [1..nextTimer s'] \<and> timerTokens s' \<subseteq># mset [1..nextTimer s']"
    if l: "length (timerIds s') < 2 ^ 63"
  proof -
    from st l have "length (timerIds s) < 2 ^ 63 - 1" by (simp add: setsTimer_def)
    with assms(1) have i: "0 \<le> nextTimer s" "timerIds s = [1..nextTimer s]" "timerTokens s \<subseteq># mset [1..nextTimer s]"
        "nextTimer s < 2 ^ 63 - 1"
      by (auto simp: timer_inv_def)
    then have "nextTimer s' = nextTimer s + 1"
      using st wrap64_id [of "nextTimer s + 1"] by (simp add: setsTimer_def minDuration_def maxDuration_def)
    moreover have "[1..nextTimer s + 1] = [1..nextTimer s] @ [nextTimer s + 1]" using i(1) by (simp add: upto_rec2)
    ultimately show ?thesis using i st by (simp add: setsTimer_def)
  qed
  then show ?thesis unfolding timer_inv_def by blast
qed

lemma reach_timer_inv: "sys_reach n s \<Longrightarrow> \<not> started n \<Longrightarrow> start_inv s \<and> kinds_inv s \<and> timer_inv s"
proof (induction rule: sys_reach.induct)
  case init
  then show ?case
    by (simp add: start_inv_def kinds_inv_def timer_inv_def initSystem_def makeChan_def timerIds_def timerTokens_def
        allEvents_def received_def)
next
  case (step s s')
  then show ?case using step_start_inv step_kinds_inv step_timer_inv step_timers by blast
qed

text \<open>How often the coroutine has received the event of a timer.\<close>

definition timesFired :: "timer_id \<Rightarrow> event list \<Rightarrow> nat" where
  "timesFired t evs = length (filter (\<lambda>ev. ev_Kind ev = EventTimer \<and> 0 < ev_TimerID ev \<and> ev_TimerID ev = t) evs)"

lemma timesFired_count: "timesFired t evs = count (firedIn (mset evs)) t"
  by (induction evs) (auto simp: timesFired_def)

text \<open>C37. The timers of a node in production, in every interleaving with API calls, cancellations and a
  shutdown: the ids handed out to the coroutine are 1, 2, 3, and so on, and no timer fires
  twice. A timer is at most once among the armed ones, the callbacks and the timer events on
  their way to the coroutine or received by it; an id that was not handed out is not there.
  This holds as long as fewer than \<open>2^63\<close> timers have been set.\<close>

theorem timer_fires_once:
  assumes "\<not> started n" and "sys_reach n s" and "length (timerIds s) < 2 ^ 63"
  shows "timerIds s = [1..nextTimer s]
    \<and> count (timerTokens s) t \<le> (if t \<in> set (timerIds s) then 1 else 0)
    \<and> timesFired t (received s) \<le> 1"
proof -
  from reach_timer_inv [OF assms(2,1)] assms(3) have i: "timerIds s = [1..nextTimer s]" "timerTokens s \<subseteq># mset [1..nextTimer s]"
    by (simp_all add: timer_inv_def)
  have "count (mset [1..nextTimer s]) t = (if t \<in> set [1..nextTimer s] then 1 else 0)"
    using distinct_upto [of 1 "nextTimer s"] unfolding distinct_count_atmost_1 by blast
  then have c: "count (timerTokens s) t \<le> (if t \<in> set (timerIds s) then 1 else 0)"
    using mset_subset_eq_count [OF i(2), of t] i(1) by simp
  moreover have "timesFired t (received s) \<le> count (timerTokens s) t"
    by (simp add: timesFired_count timerTokens_def allEvents_def)
  ultimately show ?thesis using i(1) by (auto split: if_splits)
qed

theorem timer_fires_once_witness:
  "let n = sampleNode ''a'' [''a'']; s = timerPassed n in
   \<not> started n \<and> sys_reach n s \<and> length (timerIds s) < 2 ^ 63 \<and> timerIds s = [1] \<and> count (timerTokens s) 1 = 1"
proof -
  let ?n = "sampleNode ''a'' [''a'']"
  have n: "\<not> started ?n" "sys_reach ?n (timerPassed ?n)"
    using fresh_sample(3) reach_timerPassed [OF fresh_sample(3)] by (auto simp: startable_def)
  have l: "timerIds (timerPassed ?n) = [1]" by code_simp
  have "1 \<in># timerTokens (timerPassed ?n)" by (simp add: timerTokens_def timerPassed_sel [OF fresh_sample(3)])
  then have "1 \<le> count (timerTokens (timerPassed ?n)) 1" by simp
  moreover have "length (timerIds (timerPassed ?n)) < 2 ^ 63" by (simp add: l)
  from timer_fires_once [OF n this, of 1] have "count (timerTokens (timerPassed ?n)) 1 \<le> 1" by (simp split: if_splits)
  ultimately have "count (timerTokens (timerPassed ?n)) 1 = 1" by linarith
  with n l show ?thesis unfolding Let_def by simp
qed

end
