(* ===== verification/Base64.thy ===== *)
theory Base64
  imports Election_Prelude
begin

text \<open>
  Go's \<open>base64.StdEncoding\<close>, which \<open>encoding/json\<close> uses for byte slices. Decoding skips line
  breaks, demands padding, and does not look at the unused bits of a padded group.
\<close>

definition alphabet :: string where
  "alphabet = ''ABCDEFGHIJKLMNOPQRSTUVWXYZabcdefghijklmnopqrstuvwxyz0123456789+/''"

definition symbol :: "nat \<Rightarrow> char" where
  "symbol i = alphabet ! i"

definition unsymbol :: "char \<Rightarrow> nat option" where
  "unsymbol c = (if c \<in> set alphabet then Some (length (takeWhile (\<lambda>x. x \<noteq> c) alphabet)) else None)"

text \<open>Groups of three bytes, as numbers below 256, and of four symbols.\<close>

fun enc64 :: "nat list \<Rightarrow> string" where
  "enc64 [] = []"
| "enc64 [a] = [symbol (a div 4), symbol (a mod 4 * 16), CHR ''='', CHR ''='']"
| "enc64 [a, b] = [symbol (a div 4), symbol (a mod 4 * 16 + b div 16), symbol (b mod 16 * 4), CHR ''='']"
| "enc64 (a # b # c # bs) =
    symbol (a div 4) # symbol (a mod 4 * 16 + b div 16) # symbol (b mod 16 * 4 + c div 64) # symbol (c mod 64) # enc64 bs"

fun dec64 :: "string \<Rightarrow> nat list option" where
  "dec64 [] = Some []"
| "dec64 (p # q # r # s # cs) =
    (case (unsymbol p, unsymbol q) of
       (Some w, Some x) \<Rightarrow>
         if r = CHR ''='' \<and> s = CHR ''='' \<and> cs = [] then Some [(w * 4 + x div 16) mod 256]
         else (case unsymbol r of
           None \<Rightarrow> None
         | Some y \<Rightarrow>
             if s = CHR ''='' \<and> cs = []
             then Some [(w * 4 + x div 16) mod 256, (x mod 16 * 16 + y div 4) mod 256]
             else (case (unsymbol s, dec64 cs) of
               (Some z, Some bs) \<Rightarrow>
                 Some ((w * 4 + x div 16) mod 256 # (x mod 16 * 16 + y div 4) mod 256
                   # (y mod 4 * 64 + z) mod 256 # bs)
             | _ \<Rightarrow> None))
     | _ \<Rightarrow> None)"
| "dec64 _ = None"

definition base64 :: "byte list \<Rightarrow> string" where
  "base64 bs = enc64 (map unat bs)"

definition unbase64 :: "string \<Rightarrow> byte list option" where
  "unbase64 cs =
    map_option (map of_nat) (dec64 (filter (\<lambda>c. c \<noteq> CHR 0x0A \<and> c \<noteq> CHR 0x0D) cs))"

section \<open>Round trip\<close>

lemma alphabet_facts:
  "length alphabet = 64" "distinct alphabet" "CHR ''='' \<notin> set alphabet"
  "CHR 0x0A \<notin> set alphabet" "CHR 0x0D \<notin> set alphabet"
  by (simp_all add: alphabet_def)

lemma takeWhile_nth:
  assumes "distinct xs" "i < length xs"
  shows "length (takeWhile (\<lambda>x. x \<noteq> xs ! i) xs) = i"
  using assms
proof (induction xs arbitrary: i)
  case (Cons x xs)
  then show ?case by (cases i) auto
qed simp

lemma unsymbol_symbol: "i < 64 \<Longrightarrow> unsymbol (symbol i) = Some i"
  by (simp add: unsymbol_def symbol_def alphabet_facts takeWhile_nth)

lemma symbol_other: "i < 64 \<Longrightarrow> symbol i \<noteq> CHR ''='' \<and> symbol i \<noteq> CHR 0x0A \<and> symbol i \<noteq> CHR 0x0D"
  unfolding symbol_def using alphabet_facts by (metis nth_mem)

text \<open>Splitting a number into high and low part and back.\<close>

lemma pack:
  fixes x y m :: nat
  assumes "y < m"
  shows "(x * m + y) div m = x" and "(x * m + y) mod m = y"
  using assms by simp_all

lemma parts:
  fixes a b c :: nat
  assumes "a < 256" "b < 256" "c < 256"
  shows "a div 4 < 64" and "a mod 4 * 16 + b div 16 < 64" and "b mod 16 * 4 + c div 64 < 64"
    and "a mod 4 * 16 < 64" and "b mod 16 * 4 < 64" and "c mod 64 < 64"
    and "(a mod 4 * 16 + b div 16) div 16 = a mod 4" and "(a mod 4 * 16 + b div 16) mod 16 = b div 16"
    and "b div 16 mod 16 = b div 16" and "c div 64 mod 4 = c div 64"
    and "(b mod 16 * 4 + c div 64) div 4 = b mod 16" and "(b mod 16 * 4 + c div 64) mod 4 = c div 64"
proof -
  have a: "a div 4 < 64" "a mod 4 < 4" and b: "b div 16 < 16" "b mod 16 < 16" and c: "c div 64 < 4"
    using assms by (simp_all add: div_less_iff_less_mult)
  show "a div 4 < 64" "a mod 4 * 16 + b div 16 < 64" "b mod 16 * 4 + c div 64 < 64"
    "a mod 4 * 16 < 64" "b mod 16 * 4 < 64" "c mod 64 < 64" using a b c by linarith+
  show "(a mod 4 * 16 + b div 16) div 16 = a mod 4" "(a mod 4 * 16 + b div 16) mod 16 = b div 16"
    by (rule pack [OF b(1)])+
  show "b div 16 mod 16 = b div 16" "c div 64 mod 4 = c div 64" using b c by (simp_all only: mod_less)
  show "(b mod 16 * 4 + c div 64) div 4 = b mod 16" "(b mod 16 * 4 + c div 64) mod 4 = c div 64"
    by (rule pack [OF c])+
qed

lemma dec64_enc64: "\<forall>b \<in> set bs. b < 256 \<Longrightarrow> dec64 (enc64 bs) = Some bs"
proof (induction bs rule: enc64.induct)
  case (4 a b c bs)
  then have "a < 256" "b < 256" "c < 256" by simp_all
  note p = parts [OF this]
  from 4 show ?case
    using symbol_other [OF p(3)] symbol_other [OF p(6)] by (simp add: unsymbol_symbol p)
next
  case (3 a b)
  then have "a < 256" "b < 256" "(0::nat) < 256" by simp_all
  note p = parts [OF this]
  from 3 show ?case using symbol_other [OF p(5)] by (simp add: unsymbol_symbol p)
next
  case (2 a)
  then have "a < 256" "(0::nat) < 256" by simp_all
  note p = parts [OF this this(2)]
  from 2 show ?case by (simp add: unsymbol_symbol p)
qed simp

lemma enc64_no_breaks: "\<forall>b \<in> set bs. b < 256 \<Longrightarrow> \<forall>c \<in> set (enc64 bs). c \<noteq> CHR 0x0A \<and> c \<noteq> CHR 0x0D"
proof (induction bs rule: enc64.induct)
  case (4 a b c bs)
  then have "a < 256" "b < 256" "c < 256" by simp_all
  note p = parts [OF this]
  from 4 show ?case by (simp add: symbol_other p)
next
  case (3 a b)
  then have "a < 256" "b < 256" "(0::nat) < 256" by simp_all
  note p = parts [OF this]
  show ?case by (simp add: symbol_other p)
next
  case (2 a)
  then have "a < 256" "(0::nat) < 256" by simp_all
  note p = parts [OF this this(2)]
  show ?case by (simp add: symbol_other p)
qed simp

lemma unbase64_base64 [simp]: "unbase64 (base64 bs) = Some bs"
proof -
  have "unat w < 2 ^ LENGTH(8)" for w :: byte by (rule unsigned_less)
  then have r: "\<forall>b \<in> set (map unat bs). b < 256" by auto
  have "filter (\<lambda>c. c \<noteq> CHR 0x0A \<and> c \<noteq> CHR 0x0D) (enc64 (map unat bs)) = enc64 (map unat bs)"
    using enc64_no_breaks [OF r] by (simp add: filter_id_conv)
  then show ?thesis
    using dec64_enc64 [OF r] by (simp add: unbase64_def base64_def comp_def)
qed

end
