(* ===== verification/Utf8.thy ===== *)
theory Utf8
  imports Election_Prelude
begin

text \<open>
  Go strings are byte sequences, meant as UTF-8. What the sources use of that: \<open>encoding/json\<close>
  replaces every byte that is not part of a valid encoding by the replacement character when
  it writes a string, and \<open>strings.TrimSpace\<close> takes white space in Unicode off both ends.
\<close>

section \<open>Valid encodings\<close>

abbreviation byteOf :: "char \<Rightarrow> nat" where
  "byteOf c \<equiv> of_char c"

definition contByte :: "nat \<Rightarrow> bool" where
  "contByte b \<longleftrightarrow> 128 \<le> b \<and> b \<le> 191"

text \<open>The length of the encoded rune a string starts with; 0 for no valid one.\<close>

definition second3 :: "nat \<Rightarrow> nat \<Rightarrow> bool" where
  "second3 b0 b1 \<longleftrightarrow> 224 \<le> b0 \<and> b0 \<le> 239 \<and> contByte b1
     \<and> (b0 = 224 \<longrightarrow> 160 \<le> b1) \<and> (b0 = 237 \<longrightarrow> b1 \<le> 159)"

definition second4 :: "nat \<Rightarrow> nat \<Rightarrow> bool" where
  "second4 b0 b1 \<longleftrightarrow> 240 \<le> b0 \<and> b0 \<le> 244 \<and> contByte b1
     \<and> (b0 = 240 \<longrightarrow> 144 \<le> b1) \<and> (b0 = 244 \<longrightarrow> b1 \<le> 143)"

fun runeLen :: "nat list \<Rightarrow> nat" where
  "runeLen [] = 0"
| "runeLen (b0 # r) =
    (if b0 < 128 then 1
     else (case r of
        b1 # r \<Rightarrow>
          if 194 \<le> b0 \<and> b0 \<le> 223 \<and> contByte b1 then 2
          else (case r of
             b2 # r \<Rightarrow>
               if second3 b0 b1 \<and> contByte b2 then 3
               else (case r of b3 # _ \<Rightarrow> if second4 b0 b1 \<and> contByte b2 \<and> contByte b3 then 4 else 0 | [] \<Rightarrow> 0)
           | [] \<Rightarrow> 0)
      | [] \<Rightarrow> 0))"

definition replacementChar :: string where
  "replacementChar = [CHR 0xEF, CHR 0xBF, CHR 0xBD]"

function toValidUTF8 :: "string \<Rightarrow> string" where
  "toValidUTF8 [] = []"
| "toValidUTF8 (c # s) =
    (case runeLen (map byteOf (c # take 3 s)) of
       0 \<Rightarrow> replacementChar @ toValidUTF8 s
     | Suc k \<Rightarrow> c # take k s @ toValidUTF8 (drop k s))"
  by pat_completeness auto
termination by (relation "measure length") auto

definition isASCII :: "string \<Rightarrow> bool" where
  "isASCII s \<longleftrightarrow> (\<forall>c\<in>set s. byteOf c < 128)"

lemma toValid_ASCII [simp]: "isASCII s \<Longrightarrow> toValidUTF8 s = s"
  by (induction s rule: toValidUTF8.induct) (auto simp: isASCII_def)

text \<open>Replaced text is valid, so that replacing is idempotent.\<close>

lemma runeLen_bound: "runeLen bs \<le> length bs"
  by (cases bs) (auto split: list.splits)

lemma runeLen_prefix: "runeLen bs = Suc k \<Longrightarrow> runeLen (take (Suc k) bs @ bs') = Suc k"
  by (cases bs rule: runeLen.cases)
    (auto split: list.splits if_splits)

lemma runeLen_le4: "runeLen bs \<le> 4"
  by (cases bs) (auto split: list.splits)

lemma toValid_rune:
  assumes "runeLen (map byteOf (c # take 3 s)) = Suc k"
  shows "toValidUTF8 (c # take k s @ r) = c # take k s @ toValidUTF8 r"
proof -
  have k: "k \<le> 3" "k \<le> length s"
    using runeLen_bound [of "map byteOf (c # take 3 s)"] runeLen_le4 [of "map byteOf (c # take 3 s)"] assms by simp_all
  then have t: "take 3 (take k s @ r) = take k s @ take (3 - k) r" by simp
  have "runeLen (map byteOf (c # take 3 (take k s @ r))) = Suc k"
    using runeLen_prefix [OF assms, of "map byteOf (take (3 - k) r)"] k
    by (simp add: t take_map [symmetric] min_absorb1 del: runeLen.simps)
  then show ?thesis using k by simp
qed

lemma toValid_idem [simp]: "toValidUTF8 (toValidUTF8 s) = toValidUTF8 s"
proof (induction s rule: toValidUTF8.induct)
  case (2 c s)
  show ?case
  proof (cases "runeLen (map byteOf (c # take 3 s))")
    case 0
    have "toValidUTF8 (replacementChar @ r) = replacementChar @ toValidUTF8 r" for r
      using toValid_rune [of "CHR 0xEF" "[CHR 0xBF, CHR 0xBD]" 2 r]
      by (simp add: replacementChar_def contByte_def second3_def)
    with 0 2 show ?thesis by (simp del: runeLen.simps)
  next
    case (Suc k)
    with 2 toValid_rune [OF Suc] show ?thesis by (simp del: runeLen.simps)
  qed
qed simp

section \<open>White space\<close>

text \<open>The encodings of the runes \<open>unicode.IsSpace\<close> accepts.\<close>

definition spaceRunes :: "string list" where
  "spaceRunes = [[CHR 0x09], [CHR 0x0A], [CHR 0x0B], [CHR 0x0C], [CHR 0x0D], [CHR 0x20],
     [CHR 0xC2, CHR 0x85], [CHR 0xC2, CHR 0xA0], [CHR 0xE1, CHR 0x9A, CHR 0x80]]
   @ map (\<lambda>n. [CHR 0xE2, CHR 0x80, char_of (n :: nat)]) ([128..<139] @ [168, 169, 175])
   @ [[CHR 0xE2, CHR 0x81, CHR 0x9F], [CHR 0xE3, CHR 0x80, CHR 0x80]]"

text \<open>Take off any of the given words from the front, as long as there is one.\<close>

function trimFront :: "string list \<Rightarrow> string \<Rightarrow> string" where
  "trimFront ws s =
    (case find (\<lambda>w. w \<noteq> [] \<and> take (length w) s = w) ws of
       None \<Rightarrow> s
     | Some w \<Rightarrow> trimFront ws (drop (length w) s))"
  by auto
termination
  by (relation "measure (\<lambda>(_, s). length s)") (auto simp: find_Some_iff intro!: diff_less)

declare trimFront.simps [simp del]

definition TrimSpace :: "string \<Rightarrow> string" where
  "TrimSpace s = rev (trimFront (map rev spaceRunes) (rev (trimFront spaceRunes s)))"

text \<open>No space is left at either end, and a string without is unchanged.\<close>

definition startsWith :: "string list \<Rightarrow> string \<Rightarrow> bool" where
  "startsWith ws s \<longleftrightarrow> (\<exists>w\<in>set ws. w \<noteq> [] \<and> take (length w) s = w)"

definition trimmed :: "string \<Rightarrow> bool" where
  "trimmed s \<longleftrightarrow> \<not> startsWith spaceRunes s \<and> \<not> startsWith (map rev spaceRunes) (rev s)"

lemma trimFront_id: "\<not> startsWith ws s \<Longrightarrow> trimFront ws s = s"
  by (subst trimFront.simps) (auto simp: startsWith_def find_Some_iff split: option.split)

lemma trimFront_done: "\<not> startsWith ws (trimFront ws s)"
proof (induction ws s rule: trimFront.induct)
  case (1 ws s)
  then show ?case
    by (subst trimFront.simps) (auto simp: startsWith_def find_None_iff split: option.split)
qed

lemma trimFront_suffix: "\<exists>p. s = p @ trimFront ws s"
proof (induction ws s rule: trimFront.induct)
  case (1 ws s)
  show ?case
  proof (cases "find (\<lambda>w. w \<noteq> [] \<and> take (length w) s = w) ws")
    case (Some w)
    then have "s = w @ drop (length w) s" by (metis (mono_tags, lifting) append_take_drop_id find_Some_iff)
    with 1 [OF Some] Some show ?thesis by (subst trimFront.simps) (metis append.assoc option.simps(5))
  qed (simp add: trimFront.simps)
qed

lemma startsWith_append: "startsWith ws s \<Longrightarrow> startsWith ws (s @ t)"
proof -
  have "take (length w) (s @ t) = w" if "take (length w) s = w" for w
  proof -
    have "length w \<le> length s" by (metis length_take min.absorb_iff2 min.commute that)
    with that show ?thesis by simp
  qed
  then show "startsWith ws s \<Longrightarrow> startsWith ws (s @ t)" by (auto simp: startsWith_def)
qed

lemma TrimSpace_id [simp]: "trimmed s \<Longrightarrow> TrimSpace s = s"
  by (simp add: TrimSpace_def trimmed_def trimFront_id)

lemma TrimSpace_part: "\<exists>p q. s = p @ TrimSpace s @ q"
proof -
  obtain p where "s = p @ trimFront spaceRunes s" using trimFront_suffix by blast
  moreover obtain q where "rev (trimFront spaceRunes s) = q @ trimFront (map rev spaceRunes) (rev (trimFront spaceRunes s))"
    using trimFront_suffix by blast
  then have "trimFront spaceRunes s = TrimSpace s @ rev q"
    unfolding TrimSpace_def by (metis rev_append rev_rev_ident)
  ultimately show ?thesis by metis
qed

lemma TrimSpace_trimmed: "trimmed (TrimSpace s)"
proof -
  let ?t = "trimFront spaceRunes s"
  obtain q where q: "rev ?t = q @ trimFront (map rev spaceRunes) (rev ?t)"
    using trimFront_suffix by blast
  then have "?t = TrimSpace s @ rev q"
    unfolding TrimSpace_def by (metis rev_append rev_rev_ident)
  then have "\<not> startsWith spaceRunes (TrimSpace s @ rev q)" using trimFront_done [of spaceRunes s] by simp
  then have "\<not> startsWith spaceRunes (TrimSpace s)"
    using startsWith_append by blast
  then show ?thesis by (simp add: trimmed_def TrimSpace_def trimFront_done)
qed

end
