(* ===== verification/Rpc_Codec.thy ===== *)
theory Rpc_Codec
  imports Engine Base64 Utf8
begin

text \<open>
  The wire format of RPCs (\<open>MarshalJSON\<close> and \<open>UnmarshalJSON\<close> of \<open>RPCRequest\<close> and
  \<open>RPCResponse\<close> in \<open>src/internal/engine/rpc.go\<close>), on JSON values. What the methods use of
  \<open>encoding/json\<close> is modelled here: how structs, integers, strings, booleans, byte slices
  and raw messages become JSON values and are read back, with absent fields, \<open>null\<close>,
  unknown fields, keys in other case and values of the wrong type. A string is written with
  its invalid UTF-8 replaced. The text of a JSON value is left to the package, and so are the
  texts of its errors. Keys are compared up to ASCII case.
\<close>

section \<open>JSON values\<close>

text \<open>\<open>JNum\<close> is a number literal with a fraction, an exponent, or minus zero.\<close>

datatype json =
    JNull
  | JBool bool
  | JInt int
  | JNum string
  | JStr string
  | JArr "json list"
  | JObj "(string \<times> json) list"

definition jsonErr :: error where
  "jsonErr = ErrText ''json''"

section \<open>Encoding values\<close>

definition encU64 :: "u64 \<Rightarrow> json" where
  "encU64 w = JInt (uint w)"

definition encString :: "string \<Rightarrow> json" where
  "encString s = JStr (toValidUTF8 s)"

definition encBytes :: "bytes \<Rightarrow> json" where
  "encBytes b = (case b of None \<Rightarrow> JNull | Some bs \<Rightarrow> JStr (base64 bs))"

text \<open>A field tagged \<open>omitempty\<close>.\<close>

definition omitempty :: "string \<Rightarrow> bool \<Rightarrow> json \<Rightarrow> (string \<times> json) list" where
  "omitempty k isEmpty j = (if isEmpty then [] else [(k, j)])"

section \<open>Decoding values\<close>

text \<open>A decoder reads a JSON value into a variable: \<open>null\<close> leaves it as it is.\<close>

type_synonym 'a decoder = "json \<Rightarrow> 'a \<Rightarrow> error + 'a"

fun decU64 :: "u64 decoder" where
  "decU64 JNull w = Inr w"
| "decU64 (JInt i) w = (if 0 \<le> i \<and> i < 2 ^ 64 then Inr (word_of_int i) else Inl jsonErr)"
| "decU64 _ w = Inl jsonErr"

fun decBool :: "bool decoder" where
  "decBool JNull b = Inr b"
| "decBool (JBool v) b = Inr v"
| "decBool _ b = Inl jsonErr"

fun decString :: "string decoder" where
  "decString JNull s = Inr s"
| "decString (JStr v) s = Inr v"
| "decString _ s = Inl jsonErr"

fun decByte :: "byte decoder" where
  "decByte JNull b = Inr b"
| "decByte (JInt i) b = (if 0 \<le> i \<and> i < 256 then Inr (word_of_int i) else Inl jsonErr)"
| "decByte _ b = Inl jsonErr"

fun decList :: "'a decoder \<Rightarrow> 'a \<Rightarrow> json list \<Rightarrow> error + 'a list" where
  "decList d z [] = Inr []"
| "decList d z (j # js) =
    (case d j z of Inl e \<Rightarrow> Inl e
     | Inr v \<Rightarrow> (case decList d z js of Inl e \<Rightarrow> Inl e | Inr vs \<Rightarrow> Inr (v # vs)))"

text \<open>A byte slice is a base64 string or an array of numbers; \<open>null\<close> makes it nil.\<close>

fun decBytes :: "bytes decoder" where
  "decBytes JNull b = Inr None"
| "decBytes (JStr s) b = (case unbase64 s of None \<Rightarrow> Inl jsonErr | Some bs \<Rightarrow> Inr (Some bs))"
| "decBytes (JArr js) b =
    (case decList decByte 0 js of Inl e \<Rightarrow> Inl e | Inr bs \<Rightarrow> Inr (Some bs))"
| "decBytes _ b = Inl jsonErr"

fun decStrings :: "string list decoder" where
  "decStrings JNull ss = Inr []"
| "decStrings (JArr js) ss = decList decString [] js"
| "decStrings _ ss = Inl jsonErr"

text \<open>Structs: the fields of an object are read in order, unknown keys are skipped. A key names
  a field exactly or, failing that, up to case.\<close>

definition lowerCase :: "string \<Rightarrow> string" where
  "lowerCase s = map (\<lambda>c. if 65 \<le> (of_char c :: nat) \<and> (of_char c :: nat) \<le> 90
     then char_of ((of_char c :: nat) + 32) else c) s"

definition fieldFor :: "string \<Rightarrow> (string \<times> 'a) list \<Rightarrow> 'a option" where
  "fieldFor k fs =
    (case map_of fs k of
       Some d \<Rightarrow> Some d
     | None \<Rightarrow> map_option snd (find (\<lambda>(n, _). lowerCase n = lowerCase k) fs))"

fun decFields :: "(string \<times> 's decoder) list \<Rightarrow> (string \<times> json) list \<Rightarrow> 's \<Rightarrow> error + 's" where
  "decFields fs [] s = Inr s"
| "decFields fs ((k, j) # kvs) s =
    (case fieldFor k fs of
       None \<Rightarrow> decFields fs kvs s
     | Some d \<Rightarrow> (case d j s of Inl e \<Rightarrow> Inl e | Inr s \<Rightarrow> decFields fs kvs s))"

fun decStruct :: "(string \<times> 's decoder) list \<Rightarrow> 's decoder" where
  "decStruct fs JNull s = Inr s"
| "decStruct fs (JObj kvs) s = decFields fs kvs s"
| "decStruct fs _ s = Inl jsonErr"

text \<open>A decoder for one field, from how the field is read and written.\<close>

definition field :: "'f decoder \<Rightarrow> ('s \<Rightarrow> 'f) \<Rightarrow> ('f \<Rightarrow> 's \<Rightarrow> 's) \<Rightarrow> 's decoder" where
  "field d get put j s = (case d j (get s) of Inl e \<Rightarrow> Inl e | Inr v \<Rightarrow> Inr (put v s))"

section \<open>The payload types\<close>

definition marshalVoteReq :: "voteReq \<Rightarrow> json" where
  "marshalVoteReq r = JObj [(''term'', encU64 (vq_Term r)), (''candidate'', encString (vq_Candidate r))]"

definition unmarshalVoteReq :: "voteReq decoder" where
  "unmarshalVoteReq = decStruct
    [(''term'', field decU64 vq_Term (\<lambda>v. vq_Term_update (\<lambda>_. v))),
     (''candidate'', field decString vq_Candidate (\<lambda>v. vq_Candidate_update (\<lambda>_. v)))]"

definition marshalVoteResp :: "voteResp \<Rightarrow> json" where
  "marshalVoteResp r = JObj [(''term'', encU64 (vp_Term r)), (''granted'', JBool (vp_Granted r))]"

definition unmarshalVoteResp :: "voteResp decoder" where
  "unmarshalVoteResp = decStruct
    [(''term'', field decU64 vp_Term (\<lambda>v. vp_Term_update (\<lambda>_. v))),
     (''granted'', field decBool vp_Granted (\<lambda>v. vp_Granted_update (\<lambda>_. v)))]"

definition marshalHeartBeatReq :: "heartBeatReq \<Rightarrow> json" where
  "marshalHeartBeatReq r = JObj ([(''term'', encU64 (hq_Term r)), (''leader'', encString (hq_Leader r))]
     @ omitempty ''metadata'' (bytes_len (hq_Metadata r) = 0) (encBytes (hq_Metadata r)))"

definition unmarshalHeartBeatReq :: "heartBeatReq decoder" where
  "unmarshalHeartBeatReq = decStruct
    [(''term'', field decU64 hq_Term (\<lambda>v. hq_Term_update (\<lambda>_. v))),
     (''leader'', field decString hq_Leader (\<lambda>v. hq_Leader_update (\<lambda>_. v))),
     (''metadata'', field decBytes hq_Metadata (\<lambda>v. hq_Metadata_update (\<lambda>_. v)))]"

definition marshalHeartBeatResp :: "heartBeatResp \<Rightarrow> json" where
  "marshalHeartBeatResp r = JObj ([(''term'', encU64 (hp_Term r))]
     @ omitempty ''metadata'' (bytes_len (hp_Metadata r) = 0) (encBytes (hp_Metadata r)))"

definition unmarshalHeartBeatResp :: "heartBeatResp decoder" where
  "unmarshalHeartBeatResp = decStruct
    [(''term'', field decU64 hp_Term (\<lambda>v. hp_Term_update (\<lambda>_. v))),
     (''metadata'', field decBytes hp_Metadata (\<lambda>v. hp_Metadata_update (\<lambda>_. v)))]"

text \<open>Structs with one field, kept as that field, and without fields.\<close>

definition unmarshalResignResp :: "bool decoder" where
  "unmarshalResignResp = decStruct [(''success'', decBool)]"

definition unmarshalSetPeersReq :: "string list decoder" where
  "unmarshalSetPeersReq = decStruct [(''peers'', decStrings)]"

definition unmarshalSetMetadataReq :: "bytes decoder" where
  "unmarshalSetMetadataReq = decStruct [(''metadata'', decBytes)]"

definition unmarshalEmpty :: "unit decoder" where
  "unmarshalEmpty = decStruct []"

section \<open>RPCRequest and RPCResponse\<close>

text \<open>The envelope. An absent raw message is \<open>None\<close>; reading it is an error.\<close>

record rpcPayload =
  pl_RPC :: RPC
  pl_Request :: "json option"
  pl_Response :: "json option"
  pl_Error :: string

definition marshalPayload :: "rpcPayload \<Rightarrow> json" where
  "marshalPayload p = JObj ([(''rpc'', encString (pl_RPC p))]
     @ (case pl_Request p of None \<Rightarrow> [] | Some j \<Rightarrow> [(''request'', j)])
     @ (case pl_Response p of None \<Rightarrow> [] | Some j \<Rightarrow> [(''response'', j)])
     @ omitempty ''error'' (pl_Error p = []) (encString (pl_Error p)))"

definition decRaw :: "json option decoder" where
  "decRaw j r = Inr (Some j)"

definition payload0 :: rpcPayload where
  "payload0 = \<lparr>pl_RPC = [], pl_Request = None, pl_Response = None, pl_Error = []\<rparr>"

definition unmarshalPayload :: "json \<Rightarrow> error + rpcPayload" where
  "unmarshalPayload j = decStruct
    [(''rpc'', field decString pl_RPC (\<lambda>v. pl_RPC_update (\<lambda>_. v))),
     (''request'', field decRaw pl_Request (\<lambda>v. pl_Request_update (\<lambda>_. v))),
     (''response'', field decRaw pl_Response (\<lambda>v. pl_Response_update (\<lambda>_. v))),
     (''error'', field decString pl_Error (\<lambda>v. pl_Error_update (\<lambda>_. v)))] j payload0"

definition readRaw :: "'a decoder \<Rightarrow> 'a \<Rightarrow> ('a \<Rightarrow> 'b) \<Rightarrow> json option \<Rightarrow> error + 'b" where
  "readRaw d z mk raw =
    (case raw of None \<Rightarrow> Inl jsonErr
     | Some j \<Rightarrow> (case d j z of Inl e \<Rightarrow> Inl e | Inr v \<Rightarrow> Inr (mk v)))"

text \<open>\<open>json.Marshal\<close> of the \<open>any\<close> field; for nil and other types its result is a parameter.\<close>

fun marshalRequest :: "error + json \<Rightarrow> request \<Rightarrow> error + json" where
  "marshalRequest oth (VoteReq r) = Inr (marshalVoteReq r)"
| "marshalRequest oth (HeartBeatReq r) = Inr (marshalHeartBeatReq r)"
| "marshalRequest oth ResetElectionReq = Inr (JObj [])"
| "marshalRequest oth ResignReq = Inr (JObj [])"
| "marshalRequest oth (SetPeersReq ps) = Inr (JObj [(''peers'', JArr (map encString ps))])"
| "marshalRequest oth (SetMetadataReq md) = Inr (JObj [(''metadata'', encBytes md)])"
| "marshalRequest oth OtherReq = oth"

fun marshalResponse :: "error + json \<Rightarrow> response \<Rightarrow> error + json" where
  "marshalResponse oth (VoteResp r) = Inr (marshalVoteResp r)"
| "marshalResponse oth (HeartBeatResp r) = Inr (marshalHeartBeatResp r)"
| "marshalResponse oth ResetElectionResp = Inr (JObj [])"
| "marshalResponse oth (ResignResp b) = Inr (JObj [(''success'', JBool b)])"
| "marshalResponse oth SetPeersResp = Inr (JObj [])"
| "marshalResponse oth SetMetadataResp = Inr (JObj [])"
| "marshalResponse oth OtherResp = oth"

definition MarshalJSON_Request :: "error + json \<Rightarrow> rpcRequest \<Rightarrow> error + json" where
  "MarshalJSON_Request oth r =
    (case marshalRequest oth (rq_Request r) of
       Inl e \<Rightarrow> Inl e
     | Inr out \<Rightarrow> Inr (marshalPayload (payload0\<lparr>pl_RPC := rq_RPC r, pl_Request := Some out\<rparr>)))"

definition MarshalJSON_Response :: "error + json \<Rightarrow> rpcResponse \<Rightarrow> error + json" where
  "MarshalJSON_Response oth r =
    (case marshalResponse oth (rp_Response r) of
       Inl e \<Rightarrow> Inl e
     | Inr out \<Rightarrow> Inr (marshalPayload
         (payload0\<lparr>pl_RPC := rp_RPC r, pl_Response := Some out, pl_Error := rp_Error r\<rparr>)))"

text \<open>The switch over the tag; \<open>None\<close> is no case, which leaves the receiver's field alone.\<close>

definition unmarshalRequest :: "RPC \<Rightarrow> json option \<Rightarrow> (error + request) option" where
  "unmarshalRequest tag raw =
    (if tag = HeartBeatRPC then Some (readRaw unmarshalHeartBeatReq
         \<lparr>hq_Term = 0, hq_Leader = [], hq_Metadata = None\<rparr> HeartBeatReq raw)
     else if tag = VoteRPC then Some (readRaw unmarshalVoteReq \<lparr>vq_Term = 0, vq_Candidate = []\<rparr> VoteReq raw)
     else if tag = ResetElectionRPC then Some (readRaw unmarshalEmpty () (\<lambda>_. ResetElectionReq) raw)
     else if tag = ResignRPC then Some (readRaw unmarshalEmpty () (\<lambda>_. ResignReq) raw)
     else if tag = SetPeersRPC then Some (readRaw unmarshalSetPeersReq [] SetPeersReq raw)
     else if tag = SetMetadataRPC then Some (readRaw unmarshalSetMetadataReq None SetMetadataReq raw)
     else None)"

definition unmarshalResponse :: "RPC \<Rightarrow> json option \<Rightarrow> (error + response) option" where
  "unmarshalResponse tag raw =
    (if tag = HeartBeatRPC then Some (readRaw unmarshalHeartBeatResp
         \<lparr>hp_Term = 0, hp_Metadata = None\<rparr> HeartBeatResp raw)
     else if tag = VoteRPC then Some (readRaw unmarshalVoteResp \<lparr>vp_Term = 0, vp_Granted = False\<rparr> VoteResp raw)
     else if tag = ResetElectionRPC then Some (readRaw unmarshalEmpty () (\<lambda>_. ResetElectionResp) raw)
     else if tag = ResignRPC then Some (readRaw unmarshalResignResp False ResignResp raw)
     else if tag = SetPeersRPC then Some (readRaw unmarshalEmpty () (\<lambda>_. SetPeersResp) raw)
     else if tag = SetMetadataRPC then Some (readRaw unmarshalEmpty () (\<lambda>_. SetMetadataResp) raw)
     else None)"

definition UnmarshalJSON_Request :: "json \<Rightarrow> rpcRequest \<Rightarrow> error option \<times> rpcRequest" where
  "UnmarshalJSON_Request j r =
    (case unmarshalPayload j of
       Inl e \<Rightarrow> (Some e, r)
     | Inr p \<Rightarrow>
         let r = r\<lparr>rq_RPC := pl_RPC p\<rparr> in
         (case unmarshalRequest (pl_RPC p) (pl_Request p) of
            None \<Rightarrow> (None, r)
          | Some (Inl e) \<Rightarrow> (Some e, r)
          | Some (Inr v) \<Rightarrow> (None, r\<lparr>rq_Request := v\<rparr>)))"

definition UnmarshalJSON_Response :: "json \<Rightarrow> rpcResponse \<Rightarrow> error option \<times> rpcResponse" where
  "UnmarshalJSON_Response j r =
    (case unmarshalPayload j of
       Inl e \<Rightarrow> (Some e, r)
     | Inr p \<Rightarrow>
         let r = r\<lparr>rp_Error := pl_Error p, rp_RPC := pl_RPC p\<rparr> in
         (case unmarshalResponse (pl_RPC p) (pl_Response p) of
            None \<Rightarrow> (None, r)
          | Some (Inl e) \<Rightarrow> (Some e, r)
          | Some (Inr v) \<Rightarrow> (None, r\<lparr>rp_Response := v\<rparr>)))"

section \<open>Encoders and decoders that fit together\<close>

lemma decU64_encU64 [simp]: "decU64 (encU64 w) v = Inr w"
proof -
  have "uint w < 2 ^ LENGTH(64)" "0 \<le> uint w" by (rule unsigned_less, simp)
  then show ?thesis by (simp add: encU64_def)
qed

lemma decString_encString [simp]: "decString (encString s) v = Inr (toValidUTF8 s)"
  by (simp add: encString_def)

lemma decBytes_encBytes [simp]: "decBytes (encBytes b) v = Inr b"
  by (simp add: encBytes_def split: option.split)

lemma decList_map: "(\<And>x. d (f x) z = Inr (g x)) \<Longrightarrow> decList d z (map f xs) = Inr (map g xs)"
  by (induction xs) auto

text \<open>What a payload type promises: reading back what was written, into any variable, gives the
  value up to \<open>norm\<close>. The raw message of an envelope is then read back, too.\<close>

locale codec =
  fixes enc :: "'a \<Rightarrow> json" and dec :: "'a decoder" and zero :: 'a and norm :: "'a \<Rightarrow> 'a"
  assumes dec_enc: "dec (enc x) zero = Inr (norm x)"
begin

lemma read_written: "readRaw dec zero mk (Some (enc x)) = Inr (mk (norm x))"
  by (simp add: readRaw_def dec_enc)

end

text \<open>An empty byte slice in a field that is omitted when empty comes back as nil.\<close>

definition nilIfEmpty :: "bytes \<Rightarrow> bytes" where
  "nilIfEmpty b = (if bytes_len b = 0 then None else b)"

lemmas codec_simps = field_def fieldFor_def omitempty_def nilIfEmpty_def bytes_len_def bytes_val_def

interpretation voteReq: codec marshalVoteReq unmarshalVoteReq "\<lparr>vq_Term = 0, vq_Candidate = []\<rparr>"
  "vq_Candidate_update toValidUTF8"
  by unfold_locales (simp add: marshalVoteReq_def unmarshalVoteReq_def codec_simps)

interpretation voteResp: codec marshalVoteResp unmarshalVoteResp "\<lparr>vp_Term = 0, vp_Granted = False\<rparr>" id
  by unfold_locales (simp add: marshalVoteResp_def unmarshalVoteResp_def codec_simps)

interpretation beatReq: codec marshalHeartBeatReq unmarshalHeartBeatReq
  "\<lparr>hq_Term = 0, hq_Leader = [], hq_Metadata = None\<rparr>" "\<lambda>h. h\<lparr>hq_Leader := toValidUTF8 (hq_Leader h), hq_Metadata := nilIfEmpty (hq_Metadata h)\<rparr>"
  by unfold_locales
    (simp add: marshalHeartBeatReq_def unmarshalHeartBeatReq_def codec_simps)

interpretation beatResp: codec marshalHeartBeatResp unmarshalHeartBeatResp
  "\<lparr>hp_Term = 0, hp_Metadata = None\<rparr>" "hp_Metadata_update nilIfEmpty"
  by unfold_locales
    (simp add: marshalHeartBeatResp_def unmarshalHeartBeatResp_def codec_simps)

interpretation resignResp: codec "\<lambda>b. JObj [(''success'', JBool b)]" unmarshalResignResp False id
  by unfold_locales (simp add: unmarshalResignResp_def codec_simps)

interpretation peersReq: codec "\<lambda>ps. JObj [(''peers'', JArr (map encString ps))]" unmarshalSetPeersReq "[]"
  "map toValidUTF8"
  by unfold_locales (simp add: unmarshalSetPeersReq_def codec_simps decList_map [of _ _ _ toValidUTF8])

interpretation metadataReq: codec "\<lambda>md. JObj [(''metadata'', encBytes md)]" unmarshalSetMetadataReq None id
  by unfold_locales (simp add: unmarshalSetMetadataReq_def codec_simps)

interpretation emptyStruct: codec "\<lambda>_. JObj []" unmarshalEmpty "()" id
  by unfold_locales (simp add: unmarshalEmpty_def)

lemma empty_read_written: "readRaw unmarshalEmpty () mk (Some (JObj [])) = Inr (mk ())"
  using emptyStruct.read_written [of mk "()"] by simp

lemmas wire_reads = voteReq.read_written voteResp.read_written beatReq.read_written
  beatResp.read_written resignResp.read_written peersReq.read_written metadataReq.read_written
  empty_read_written

lemma toValid_Nil [simp]: "toValidUTF8 s = [] \<longleftrightarrow> s = []"
  by (cases s) (auto simp: replacementChar_def split: nat.split)

lemma payload_roundtrip:
  "unmarshalPayload (marshalPayload p) = Inr (p\<lparr>pl_RPC := toValidUTF8 (pl_RPC p), pl_Error := toValidUTF8 (pl_Error p)\<rparr>)"
  by (cases p) (simp add: unmarshalPayload_def marshalPayload_def codec_simps decRaw_def payload0_def
      split: option.split)

lemma tags_valid [simp]:
  "toValidUTF8 VoteRPC = VoteRPC" "toValidUTF8 HeartBeatRPC = HeartBeatRPC"
  "toValidUTF8 ResetElectionRPC = ResetElectionRPC" "toValidUTF8 ResignRPC = ResignRPC"
  "toValidUTF8 SetPeersRPC = SetPeersRPC" "toValidUTF8 SetMetadataRPC = SetMetadataRPC"
  by (rule toValid_ASCII, simp add: isASCII_def rpc_names)+

lemma rpc_distinct:
  "distinct [HeartBeatRPC, VoteRPC, ResetElectionRPC, ResignRPC, SetPeersRPC, SetMetadataRPC, []]"
  "distinct [[], SetMetadataRPC, SetPeersRPC, ResignRPC, ResetElectionRPC, VoteRPC, HeartBeatRPC]"
  by (simp_all add: rpc_names)

section \<open>Round trips\<close>

text \<open>The tag a payload belongs to, and what of a message survives the wire.\<close>

definition requestTag :: "request \<Rightarrow> RPC" where
  "requestTag r = (case r of VoteReq _ \<Rightarrow> VoteRPC | HeartBeatReq _ \<Rightarrow> HeartBeatRPC
     | ResetElectionReq \<Rightarrow> ResetElectionRPC | ResignReq \<Rightarrow> ResignRPC | SetPeersReq _ \<Rightarrow> SetPeersRPC
     | SetMetadataReq _ \<Rightarrow> SetMetadataRPC | OtherReq \<Rightarrow> [])"

definition responseTag :: "response \<Rightarrow> RPC" where
  "responseTag r = (case r of VoteResp _ \<Rightarrow> VoteRPC | HeartBeatResp _ \<Rightarrow> HeartBeatRPC
     | ResetElectionResp \<Rightarrow> ResetElectionRPC | ResignResp _ \<Rightarrow> ResignRPC | SetPeersResp \<Rightarrow> SetPeersRPC
     | SetMetadataResp \<Rightarrow> SetMetadataRPC | OtherResp \<Rightarrow> [])"

definition wireRequest :: "request \<Rightarrow> request" where
  "wireRequest r = 
    (case r of
       VoteReq v \<Rightarrow> VoteReq (vq_Candidate_update toValidUTF8 v)
     | HeartBeatReq h \<Rightarrow>
         HeartBeatReq (h\<lparr>hq_Leader := toValidUTF8 (hq_Leader h), hq_Metadata := nilIfEmpty (hq_Metadata h)\<rparr>)
     | SetPeersReq ps \<Rightarrow> SetPeersReq (map toValidUTF8 ps)
     | _ \<Rightarrow> r)"

definition wireResponse :: "response \<Rightarrow> response" where
  "wireResponse r = (case r of HeartBeatResp h \<Rightarrow> HeartBeatResp (hp_Metadata_update nilIfEmpty h) | _ \<Rightarrow> r)"

definition taggedReq :: "rpcRequest \<Rightarrow> bool" where
  "taggedReq r \<longleftrightarrow> rq_Request r \<noteq> OtherReq \<and> rq_RPC r = requestTag (rq_Request r)"

lemma request_trip:
  assumes "taggedReq r"
  shows "\<exists>j. MarshalJSON_Request oth r = Inr j \<and>
    (\<forall>r0. UnmarshalJSON_Request j r0 = (None, \<lparr>rq_RPC = rq_RPC r, rq_Request = wireRequest (rq_Request r)\<rparr>))"
  using assms
  by (cases "rq_Request r")
    (simp_all add: taggedReq_def MarshalJSON_Request_def UnmarshalJSON_Request_def payload_roundtrip payload0_def
      unmarshalRequest_def requestTag_def wireRequest_def rpc_distinct [simplified] wire_reads Let_def)

lemma response_trip:
  assumes "rp_RPC r = responseTag (rp_Response r)"
  shows "\<exists>j. MarshalJSON_Response (Inr JNull) r = Inr j
    \<and> UnmarshalJSON_Response j rpcResponse0 = (None, \<lparr>rp_RPC = rp_RPC r,
      rp_Response = wireResponse (rp_Response r), rp_Error = toValidUTF8 (rp_Error r)\<rparr>)"
  using assms
  by (cases "rp_Response r")
    (simp_all add: MarshalJSON_Response_def UnmarshalJSON_Response_def payload_roundtrip payload0_def
      unmarshalResponse_def responseTag_def wireResponse_def rpc_distinct [simplified] wire_reads
      rpcResponse0_def Let_def)

text \<open>C32. A request that carries the payload of its tag survives the wire: it can be encoded, and
  decoding gives it back, into any receiver, except that empty heartbeat metadata comes back
  as nil and that bytes of strings which are not valid UTF-8 come back replaced.\<close>

theorem request_roundtrip:
  assumes "taggedReq r"
  shows "\<exists>j. MarshalJSON_Request oth r = Inr j
    \<and> UnmarshalJSON_Request j r0 = (None, \<lparr>rq_RPC = rq_RPC r, rq_Request = wireRequest (rq_Request r)\<rparr>)"
  using request_trip [OF assms, of oth] by blast

theorem request_roundtrip_witness:
  "let r = \<lparr>rq_RPC = VoteRPC, rq_Request = VoteReq \<lparr>vq_Term = 3, vq_Candidate = ''a''\<rparr>\<rparr> in
   taggedReq r \<and> (\<exists>j. MarshalJSON_Request (Inr JNull) r = Inr j \<and> UnmarshalJSON_Request j rpcRequest0 = (None, r))"
  using request_roundtrip [of "\<lparr>rq_RPC = VoteRPC, rq_Request = VoteReq \<lparr>vq_Term = 3, vq_Candidate = ''a''\<rparr>\<rparr>"
      "Inr JNull" rpcRequest0]
  by (simp add: requestTag_def taggedReq_def wireRequest_def isASCII_def)



end
