(* ===== verification/Cmd.thy ===== *)
theory Cmd
  imports Production Rpc_Codec
begin

text \<open>
  The command of \<open>src/cmd/election/main.go\<close>: its arguments, the HTTP client and handler that
  carry RPCs between nodes, the wait for the server, and the start of the node.

  HTTP is a parameter: whether a request can be made of a URL, and what the exchange of a
  body for the peer's reply gives. A body is JSON or other text; \<open>parse\<close> is what the JSON
  decoder reads from other text, and \<open>text\<close> is the text of an error. A wrapped error is kept
  as its prefix and the error. Logging is left out.
\<close>

section \<open>Requests between nodes\<close>

datatype body = BodyText string | BodyJson json

record httpReply =
  h_Status :: nat
  h_Body :: body

type_synonym wrapped = "string \<times> error"

fun readBody :: "(string \<Rightarrow> json option) \<Rightarrow> body \<Rightarrow> json option" where
  "readBody parse (BodyText t) = parse t"
| "readBody parse (BodyJson j) = Some j"

definition sendRPC :: "error + json \<Rightarrow> (string \<Rightarrow> json option) \<Rightarrow> (string \<Rightarrow> error option) \<Rightarrow>
    (string \<Rightarrow> body \<Rightarrow> error + body) \<Rightarrow> string \<Rightarrow> rpcRequest \<Rightarrow> wrapped + rpcResponse" where
  "sendRPC oth parse newRequest exchange peer req =
    (case MarshalJSON_Request oth req of
       Inl e \<Rightarrow> Inl (''while encoding request: '', e)
     | Inr b \<Rightarrow>
         let url = ''http://'' @ peer @ ''/rpc'' in
         (case newRequest url of
            Some e \<Rightarrow> Inl (''while creating request: '', e)
          | None \<Rightarrow> (case exchange url (BodyJson b) of
              Inl e \<Rightarrow> Inl (''while sending http request: '', e)
            | Inr hp \<Rightarrow> (case readBody parse hp of
                None \<Rightarrow> Inl (''while decoding response: '', jsonErr)
              | Some j \<Rightarrow> (case UnmarshalJSON_Response j rpcResponse0 of
                  (Some e, _) \<Rightarrow> Inl (''while decoding response: '', e)
                | (None, resp) \<Rightarrow> Inr resp)))))"

definition newHandler :: "error + json \<Rightarrow> (string \<Rightarrow> json option) \<Rightarrow> (error \<Rightarrow> string) \<Rightarrow>
    (rpcRequest \<Rightarrow> rpcResponse \<times> error option) \<Rightarrow> body \<Rightarrow> httpReply" where
  "newHandler oth parse text receiveRPC b =
    (case readBody parse b of
       None \<Rightarrow> \<lparr>h_Status = 400, h_Body = BodyText (text jsonErr)\<rparr>
     | Some j \<Rightarrow> (case UnmarshalJSON_Request j rpcRequest0 of
         (Some e, _) \<Rightarrow> \<lparr>h_Status = 400, h_Body = BodyText (text e)\<rparr>
       | (None, req) \<Rightarrow>
           if rq_RPC req = SetPeersRPC then
             \<lparr>h_Status = 400, h_Body = BodyText (''RPC request '' @ [CHR 0x27] @ rq_RPC req @ [CHR 0x27] @ '' not allowed'')\<rparr>
           else (case receiveRPC req of
               (_, Some e) \<Rightarrow> \<lparr>h_Status = 500, h_Body = BodyText (text e)\<rparr>
             | (resp, None) \<Rightarrow> (case MarshalJSON_Response oth resp of
                 Inl e \<Rightarrow> \<lparr>h_Status = 500, h_Body = BodyText (text e)\<rparr>
               | Inr out \<Rightarrow> \<lparr>h_Status = 200, h_Body = BodyJson out\<rparr>))))"

section \<open>Waiting for the server\<close>

text \<open>\<open>get i\<close> is the error of attempt \<open>i\<close>; the result comes with the number of attempts.\<close>

function waitFrom :: "(int \<Rightarrow> error option) \<Rightarrow> int \<Rightarrow> int \<Rightarrow> bool \<times> int" where
  "waitFrom get attempts i =
    (if i < attempts then
       (case get i of None \<Rightarrow> (True, i + 1) | Some _ \<Rightarrow> waitFrom get attempts (i + 1))
     else (False, i))"
  by auto
termination by (relation "measure (\<lambda>(_, attempts, i). nat (attempts - i))") auto

declare waitFrom.simps [simp del]

definition waitForServer :: "(int \<Rightarrow> error option) \<Rightarrow> int \<Rightarrow> bool \<times> int" where
  "waitForServer get attempts = waitFrom get attempts 0"

section \<open>Arguments\<close>

text \<open>\<open>strings.Split\<close> at a separator of one character.\<close>

fun Split :: "char \<Rightarrow> string \<Rightarrow> string list" where
  "Split c [] = [[]]"
| "Split c (x # xs) =
    (if x = c then [] # Split c xs
     else (case Split c xs of p # ps \<Rightarrow> (x # p) # ps | [] \<Rightarrow> [[x]]))"

definition parsePeers :: "string list \<Rightarrow> string list" where
  "parsePeers args =
    (if length args = 3 \<and> args ! 2 \<noteq> []
     then filter (\<lambda>p. p \<noteq> []) (map TrimSpace (Split (CHR '','') (args ! 2)))
     else [])"

definition includeSelf :: "string \<Rightarrow> string list \<Rightarrow> string list" where
  "includeSelf addr peers = (if addr \<in> set peers then peers else addr # peers)"

section \<open>The program\<close>

datatype mainEnd = Usage | NodeFailed error | NotReady | StartFailed "error option" | Running system

definition mainConfig :: "string list \<Rightarrow> config" where
  "mainConfig args = \<lparr>UniqueID = args ! 1, Peers = includeSelf (args ! 1) (parsePeers args), confMetadata = None,
     hasSendRPC = True, hasOnChange = True, HeartBeatTimeout = 0, ElectionTimeout = 0, NetworkTimeout = 0,
     LeaderQuorumTimeout = 0, MinimumQuorum = 0\<rparr>"

text \<open>\<open>Start\<close> as one call, which nothing interrupts.\<close>

definition startNode :: "bool \<Rightarrow> node \<Rightarrow> system" where
  "startNode added n =
    (let s = Start (initSystem n)
     in if callers s 0 = Some StartRest then StartIO added 0 s else s)"

definition main :: "string list \<Rightarrow> (nat \<Rightarrow> int) \<Rightarrow> (int \<Rightarrow> error option) \<Rightarrow> bool \<Rightarrow> mainEnd" where
  "main args draws get added =
    (if length args < 2 \<or> 3 < length args then Usage
     else (case NewNode (mainConfig args) draws of
       Inl e \<Rightarrow> NodeFailed e
     | Inr n \<Rightarrow>
         if \<not> fst (waitForServer get 10) then NotReady
         else let s = startNode added n in
           (case callers s 0 of
              Some (CallReturned (ErrResult None)) \<Rightarrow> Running s
            | Some (CallReturned (ErrResult e)) \<Rightarrow> StartFailed e
            | _ \<Rightarrow> StartFailed None)))"

section \<open>The running process\<close>

text \<open>
  After \<open>main\<close> has started the node, the process runs the node's system, its HTTP handlers call
  \<open>ReceiveRPC\<close>, and \<open>main\<close> waits for a signal. On the first one it calls \<open>Stop\<close> with a context of
  five seconds, ignores the result and exits with 0. The listening server may fail at any time,
  which exits with 1. An exit ends the process; so does a crash of the system, since no step
  leaves it.
\<close>

record process =
  p_sys :: system
  p_stop :: "nat option"
  p_exit :: "int option"

definition runningProcess :: "system \<Rightarrow> process" where
  "runningProcess s = \<lparr>p_sys = s, p_stop = None, p_exit = None\<rparr>"

inductive proc_step :: "process \<Rightarrow> process \<Rightarrow> bool" where
  inner: "p_exit P = None \<Longrightarrow> sys_step (p_sys P) s \<Longrightarrow> nextCall s = nextCall (p_sys P) \<Longrightarrow>
    proc_step P (P\<lparr>p_sys := s\<rparr>)"
| request: "p_exit P = None \<Longrightarrow> \<not> crashed (p_sys P) \<Longrightarrow> proc_step P (P\<lparr>p_sys := ReceiveRPC rq (p_sys P)\<rparr>)"
| signal: "p_exit P = None \<Longrightarrow> \<not> crashed (p_sys P) \<Longrightarrow> p_stop P = None \<Longrightarrow>
    proc_step P (P\<lparr>p_sys := Stop (p_sys P), p_stop := Some (nextCall (p_sys P))\<rparr>)"
| exit: "p_exit P = None \<Longrightarrow> \<not> crashed (p_sys P) \<Longrightarrow> p_stop P = Some i \<Longrightarrow>
    callers (p_sys P) i = Some (CallReturned r) \<Longrightarrow> proc_step P (P\<lparr>p_exit := Some 0\<rparr>)"
| server_fails: "p_exit P = None \<Longrightarrow> \<not> crashed (p_sys P) \<Longrightarrow> proc_step P (P\<lparr>p_exit := Some 1\<rparr>)"

end
