(* ===== verification/Cmd_Specs.thy ===== *)
theory Cmd_Specs
  imports Cmd Production_Specs
begin

text \<open>
  What the command guarantees: an RPC sent to a node that runs the handler gives what the
  node's \<open>ReceiveRPC\<close> returned; the peer list is read as it was written, with the node
  itself; the wait for the server ends; the program gets to a running node and stops on a signal.
\<close>

section \<open>Exchange of an RPC\<close>

text \<open>What of a message survives the wire.\<close>

definition wireReq :: "rpcRequest \<Rightarrow> rpcRequest" where
  "wireReq r = \<lparr>rq_RPC = rq_RPC r, rq_Request = wireRequest (rq_Request r)\<rparr>"

definition wireResp :: "rpcResponse \<Rightarrow> rpcResponse" where
  "wireResp r = \<lparr>rp_RPC = rp_RPC r, rp_Response = wireResponse (rp_Response r), rp_Error = toValidUTF8 (rp_Error r)\<rparr>"

text \<open>A peer reached over HTTP: the exchange gives the handler's reply.\<close>

definition served :: "(string \<Rightarrow> json option) \<Rightarrow> (error \<Rightarrow> string) \<Rightarrow> (rpcRequest \<Rightarrow> rpcResponse \<times> error option) \<Rightarrow>
    string \<Rightarrow> body \<Rightarrow> error + body" where
  "served parse text receiveRPC url b = Inr (h_Body (newHandler (Inr JNull) parse text receiveRPC b))"



section \<open>Waiting\<close>

lemma waitFrom_result:
  "waitFrom get attempts i = (ok, n) \<Longrightarrow> n \<le> max i attempts
     \<and> (\<forall>k. i \<le> k \<and> k < (if ok then n - 1 else n) \<longrightarrow> get k \<noteq> None)
     \<and> (if ok then i < n \<and> get (n - 1) = None else n = max i attempts)"
proof (induction get attempts i rule: waitFrom.induct)
  case (1 get attempts i)
  show ?case
  proof (cases "i < attempts")
    case True
    show ?thesis
    proof (cases "get i")
      case (Some e)
      then have rest: "waitFrom get attempts (i + 1) = (ok, n)"
        using 1(2) True by (subst (asm) waitFrom.simps) simp
      have "get k \<noteq> None" if "i \<le> k" "k < (if ok then n - 1 else n)" for k
        using 1(1) [OF True Some rest] Some that by (cases "k = i") auto
      with 1(1) [OF True Some rest] True show ?thesis by auto
    qed (use 1(2) True in \<open>auto simp: waitFrom.simps [of get attempts i]\<close>)
  qed (use 1(2) in \<open>auto simp: waitFrom.simps [of get attempts i]\<close>)
qed

lemma waitForServer_fst:
  "0 \<le> attempts \<Longrightarrow> fst (waitForServer get attempts) \<longleftrightarrow> (\<exists>k. 0 \<le> k \<and> k < attempts \<and> get k = None)"
proof -
  assume "0 \<le> attempts"
  obtain ok n where w: "waitFrom get attempts 0 = (ok, n)" by fastforce
  from waitFrom_result [OF w] \<open>0 \<le> attempts\<close> show ?thesis
    by (cases ok) (force simp: waitForServer_def w intro: exI [of _ "n - 1"])+
qed

text \<open>The wait for the server ends after at most the given number of attempts: it succeeds
  exactly if one of them does, right after the first that does, and otherwise gives up after
  all of them.\<close>

theorem waitForServer_ends:
  assumes "waitForServer get attempts = (ok, n)" and "0 \<le> attempts"
  shows "n \<le> attempts \<and> (ok \<longleftrightarrow> (\<exists>k. 0 \<le> k \<and> k < attempts \<and> get k = None))
    \<and> (ok \<longrightarrow> get (n - 1) = None \<and> (\<forall>k. 0 \<le> k \<and> k < n - 1 \<longrightarrow> get k \<noteq> None)) \<and> (\<not> ok \<longrightarrow> n = attempts)"
proof -
  note r = waitFrom_result [OF assms(1) [unfolded waitForServer_def]]
  with waitForServer_fst [OF assms(2), of get] assms show ?thesis by (cases ok) auto
qed

theorem waitForServer_ends_witness:
  "waitForServer (\<lambda>k. if k < 2 then Some CtxErr else None) 10 = (True, 3) \<and> (0 :: int) \<le> 10 \<and> (3 :: int) \<le> 10"
proof -
  have "waitForServer (\<lambda>k. if k < 2 then Some CtxErr else None) 10 = (True, 3)"
    by (simp add: waitForServer_def waitFrom.simps)
  with waitForServer_ends [OF this] show ?thesis by simp
qed

section \<open>The peer list\<close>

text \<open>Joining with commas, and what an address in a list looks like.\<close>

fun joinPeers :: "string list \<Rightarrow> string" where
  "joinPeers [] = []"
| "joinPeers [p] = p"
| "joinPeers (p # ps) = p @ CHR '','' # joinPeers ps"

definition address :: "string \<Rightarrow> bool" where
  "address p \<longleftrightarrow> p \<noteq> [] \<and> CHR '','' \<notin> set p \<and> trimmed p"

lemma Split_ne [simp]: "Split c s \<noteq> []"
  by (induction s) (auto split: list.splits)

lemma Split_word: "c \<notin> set p \<Longrightarrow> Split c p = [p]"
  by (induction p) auto

lemma Split_append: "c \<notin> set p \<Longrightarrow> Split c (p @ c # s) = p # Split c s"
  by (induction p) auto

lemma Split_join: "ps \<noteq> [] \<Longrightarrow> \<forall>p\<in>set ps. CHR '','' \<notin> set p \<Longrightarrow> Split (CHR '','') (joinPeers ps) = ps"
  by (induction ps rule: joinPeers.induct) (auto simp: Split_word Split_append)

lemma Split_free: "p \<in> set (Split c s) \<Longrightarrow> c \<notin> set p"
  by (induction s arbitrary: p) (auto split: list.splits if_splits)

lemma parsePeers_join:
  assumes "\<forall>p\<in>set ps. address p"
  shows "parsePeers [cmd, addr, joinPeers ps] = ps"
proof (cases "ps = []")
  case False
  then have "joinPeers ps \<noteq> []" using assms by (cases ps rule: joinPeers.cases) (auto simp: address_def)
  moreover have "map TrimSpace ps = ps" using assms by (intro map_idI) (simp add: address_def)
  moreover have "filter (\<lambda>p. p \<noteq> []) ps = ps" using assms by (auto simp: filter_id_conv address_def)
  ultimately show ?thesis using Split_join [OF False] assms by (simp add: parsePeers_def address_def)
qed (simp add: parsePeers_def)

lemma parsePeers_addresses: "p \<in> set (parsePeers args) \<Longrightarrow> address p"
proof -
  assume "p \<in> set (parsePeers args)"
  then obtain q where q: "q \<in> set (Split (CHR '','') (args ! 2))" "p = TrimSpace q" "p \<noteq> []"
    by (auto simp: parsePeers_def split: if_splits)
  obtain u v where uv: "q = u @ p @ v" using TrimSpace_part [of q, folded q(2)] by blast
  have "CHR '','' \<notin> set p" using Split_free [OF q(1)] unfolding uv by simp
  moreover have "trimmed p" unfolding q(2) by (rule TrimSpace_trimmed)
  ultimately show "address p" using q(3) by (simp add: address_def)
qed

text \<open>The peer list: a list of addresses joined with commas is read back as it is; any
  argument gives nonempty, trimmed, comma-free addresses; and the node's own address is
  among the peers exactly once more than it was given, at the front, if it was missing.\<close>

theorem peer_list_read:
  assumes "\<forall>p\<in>set ps. address p"
  shows "includeSelf addr (parsePeers [cmd, addr, joinPeers ps]) = (if addr \<in> set ps then ps else addr # ps)
    \<and> (\<forall>p\<in>set (parsePeers args). address p) \<and> addr \<in> set (includeSelf addr (parsePeers args))"
  using parsePeers_join [OF assms, of cmd addr] parsePeers_addresses [of _ args]
  by (simp add: includeSelf_def)

lemma sample_addresses: "\<forall>p\<in>set [''a:1'', ''b:2'']. address p"
  by (simp add: address_def trimmed_def startsWith_def spaceRunes_def upt_rec)

theorem peer_list_read_witness:
  "address ''a:1'' \<and> address ''b:2'' \<and> joinPeers [''a:1'', ''b:2''] = ''a:1,b:2''
   \<and> includeSelf ''c:3'' (parsePeers [''election'', ''c:3'', ''a:1,b:2'']) = [''c:3'', ''a:1'', ''b:2'']"
  using peer_list_read [OF sample_addresses, of "''c:3''" "''election''"] sample_addresses by simp

section \<open>The program\<close>

lemma startNode_result:
  assumes "\<not> started n" and "bytes_len (confMetadata (conf n)) \<le> maxMetadataSize"
  shows "callers (startNode added n) 0 = Some (CallReturned (ErrResult
      (if added then None else Some (ErrText ''failed to add coroutine to scheduler''))))"
    and "loopRunning (startNode added n) = added" and "nd (startNode added n) = n\<lparr>started := True\<rparr>"
    and "eventCh (startNode added n) = makeChan 1000"
  using assms
  by (auto simp: startNode_def Start_def StartIO_def NewProdIO_def initSystem_def newCall_def setCaller_def Let_def)

lemma mainConfig_node:
  assumes "args ! 1 \<noteq> []"
  obtains n where "NewNode (mainConfig args) draws = Inr n" "\<not> started n" "confMetadata (conf n) = None"
    "map Address (currentPeers n) = includeSelf (args ! 1) (parsePeers args)" "self n = args ! 1"
  using assms by (simp add: NewNode_def mainConfig_def applyDefaults_def Let_def applySelfMetadata_def
      setPeerMetadata_def map_map_first peersFromStrings_def comp_def)



section \<open>Signals\<close>

text \<open>A call in one of the selects of \<open>Stop\<close>, and one that is or was.\<close>

definition stopping :: "caller \<Rightarrow> bool" where
  "stopping c \<longleftrightarrow> c = StopJoin \<or> c = StopSend \<or> c = StopWait"

definition stopCall :: "caller option \<Rightarrow> bool" where
  "stopCall c \<longleftrightarrow> (\<exists>x. c = Some x \<and> (stopping x \<or> (\<exists>r. x = CallReturned r)))"

definition process_inv :: "process \<Rightarrow> bool" where
  "process_inv P \<longleftrightarrow> panic_inv (p_sys P) \<and> started (nd (p_sys P)) \<and> ioSet (p_sys P)
     \<and> (\<forall>i c. callers (p_sys P) i = Some c \<longrightarrow> i < nextCall (p_sys P) \<and> c \<noteq> StartRest
          \<and> (stopping c \<longrightarrow> p_stop P \<noteq> None))
     \<and> (p_stop P = None \<longrightarrow> \<not> shutdownOnce (p_sys P) \<and> \<not> stopped (nd (p_sys P)))
     \<and> (\<forall>i. p_stop P = Some i \<and> \<not> crashed (p_sys P) \<longrightarrow> stopCall (callers (p_sys P) i))
     \<and> (p_exit P = Some 0 \<longrightarrow> (\<exists>i r. p_stop P = Some i \<and> callers (p_sys P) i = Some (CallReturned r)))"

lemma process_inner:
  assumes "sys_step s s'" "nextCall s' = nextCall s" "process_inv P" "p_sys P = s" "p_exit P = None"
  shows "process_inv (P\<lparr>p_sys := s'\<rparr>)"
proof -
  have inv: "panic_inv s'" using step_panic_inv [OF assms(1)] assms(3,4) by (simp add: process_inv_def)
  from assms(1) show ?thesis
  proof cases
    case (call x)
    with assms(2-5) inv show ?thesis
      by (cases x) (auto simp: process_inv_def Start_def Stop_def SetStopped_def ReceiveRPC_def SetPeers_def
        SetMetadata_def Resign_def newCall_def setCaller_def Let_def split: sent.splits if_splits)
  qed (use assms(3-5) inv in \<open>auto simp: process_inv_def stopCall_def stopping_def setCaller_def setGo_def
      removeGo_def forceShutdown_def\<close>)
qed

lemma process_newCall:
  assumes "process_inv P" "c \<noteq> StartRest" "\<not> stopping c" "p_exit P = None"
  shows "process_inv (P\<lparr>p_sys := newCall c (p_sys P)\<rparr>)"
proof -
  have "callers (p_sys P) (nextCall (p_sys P)) = None"
    using assms(1) by (cases "callers (p_sys P) (nextCall (p_sys P))") (auto simp: process_inv_def)
  with assms show ?thesis
    by (auto simp: process_inv_def newCall_def setCaller_def panic_inv_def stopCall_def less_SucI)
qed

lemma process_step: "proc_step P P' \<Longrightarrow> process_inv P \<Longrightarrow> process_inv P'"
proof (induction rule: proc_step.induct)
  case (inner P s)
  then show ?case by (auto intro: process_inner)
next
  case (request P rq)
  then show ?case by (simp add: ReceiveRPC_def process_newCall stopping_def)
next
  case (signal P)
  moreover from this have "panic_inv (Stop (p_sys P))"
    using begin_panic_inv [of "p_sys P" OpStop] by (simp add: process_inv_def)
  ultimately show ?case
    by (auto simp: process_inv_def Stop_def SetStopped_def newCall_def setCaller_def stopping_def stopCall_def
        Let_def less_SucI split: sent.splits)
qed (auto simp: process_inv_def)

lemma process_start:
  assumes "main args draws get added = Running s"
  shows "process_inv (runningProcess s)"
proof -
  from assms obtain n where n: "NewNode (mainConfig args) draws = Inr n" "s = startNode added n"
      "callers s 0 = Some (CallReturned (ErrResult None))"
    by (auto simp: main_def Let_def split: if_splits sum.splits option.splits caller.splits apiResult.splits)
  then have "\<not> started n" "\<not> stopped n" "confMetadata (conf n) = None"
    by (auto simp: NewNode_def mainConfig_def applyDefaults_def Let_def split: if_splits)
  with n show ?thesis
    by (auto simp: process_inv_def runningProcess_def startNode_def Start_def StartIO_def NewProdIO_def initSystem_def
        newCall_def setCaller_def makeChan_def panic_inv_def stopping_def bytes_len_def bytes_val_def Let_def
        split: if_splits)
qed

lemma process_can_exit:
  assumes "process_inv P" "p_stop P = Some i" "p_exit P = None" "\<not> crashed (p_sys P)"
  shows "\<exists>P'. proc_step\<^sup>*\<^sup>* P P' \<and> p_exit P' = Some 0"
proof -
  from assms have "stopCall (callers (p_sys P) i)" by (simp add: process_inv_def)
  then consider (returned) r where "callers (p_sys P) i = Some (CallReturned r)"
    | (join) "callers (p_sys P) i = Some StopJoin"
    | (wait) "callers (p_sys P) i = Some StopSend \<or> callers (p_sys P) i = Some StopWait"
    by (auto simp: stopCall_def stopping_def)
  then show ?thesis
  proof cases
    case (returned r)
    from proc_step.exit [OF assms(3,4,2) returned] show ?thesis
      by (intro exI [of _ "P\<lparr>p_exit := Some 0\<rparr>"]) auto
  next
    case join
    let ?P = "P\<lparr>p_sys := setCaller i (CallReturned (ErrResult (Some CtxErr))) (p_sys P)\<rparr>"
    have "proc_step P ?P" using proc_step.inner [OF assms(3) stop_join_ctx [OF assms(4) join]] by (simp add: setCaller_def)
    moreover have "proc_step ?P (?P\<lparr>p_exit := Some 0\<rparr>)"
      by (rule proc_step.exit [of _ i "ErrResult (Some CtxErr)"]) (use assms in \<open>simp_all add: setCaller_def\<close>)
    ultimately show ?thesis
      by (intro exI [of _ "?P\<lparr>p_exit := Some 0\<rparr>"]) (auto intro: converse_rtranclp_into_rtranclp)
  next
    case wait
    let ?P = "P\<lparr>p_sys := setCaller i (CallReturned (ErrResult (Some CtxErr))) (forceShutdown (p_sys P))\<rparr>"
    have "proc_step P ?P"
      using proc_step.inner [OF assms(3) stop_ctx [OF assms(4) wait]] by (simp add: setCaller_def forceShutdown_def)
    moreover have "proc_step ?P (?P\<lparr>p_exit := Some 0\<rparr>)"
      by (rule proc_step.exit [of _ i "ErrResult (Some CtxErr)"]) (use assms in \<open>simp_all add: setCaller_def forceShutdown_def\<close>)
    ultimately show ?thesis
      by (intro exI [of _ "?P\<lparr>p_exit := Some 0\<rparr>"]) (auto intro: converse_rtranclp_into_rtranclp)
  qed
qed

text \<open>C40. The running command, under every interleaving with requests, timers and the main loop: it
  does not panic before a signal has come; it exits with 0 only after a signal and after the
  \<open>Stop\<close> that the signal began has returned; and once a signal has come, it can always get to
  this exit, unless it has exited with an error or a forced shutdown has made it panic.\<close>

theorem signal_stops_command:
  assumes "main args draws get added = Running s" and "proc_step\<^sup>*\<^sup>* (runningProcess s) P"
  shows "(p_stop P = None \<longrightarrow> \<not> crashed (p_sys P))
    \<and> (p_exit P = Some 0 \<longrightarrow> (\<exists>i r. p_stop P = Some i \<and> callers (p_sys P) i = Some (CallReturned r)))
    \<and> (crashed (p_sys P) \<longrightarrow> shutdownOnce (p_sys P))
    \<and> (p_stop P \<noteq> None \<and> p_exit P = None \<and> \<not> crashed (p_sys P) \<longrightarrow>
         (\<exists>P'. proc_step\<^sup>*\<^sup>* P P' \<and> p_exit P' = Some 0))"
proof -
  have "process_inv P"
    using assms(2) process_start [OF assms(1)] by (induction rule: rtranclp_induct) (auto intro: process_step)
  then show ?thesis using process_can_exit [of P] by (auto simp: process_inv_def panic_inv_def)
qed

theorem signal_stops_command_witness:
  "\<exists>s P P'. main [''election'', ''a:1''] (\<lambda>_. 0) (\<lambda>_. None) True = Running s
    \<and> proc_step\<^sup>*\<^sup>* (runningProcess s) P \<and> p_stop P \<noteq> None \<and> p_exit P = None \<and> \<not> crashed (p_sys P)
    \<and> proc_step\<^sup>*\<^sup>* P P' \<and> p_exit P' = Some 0"
proof -
  have "map_option (\<lambda>s. crashed s \<or> crashed (Stop s)) (case main [''election'', ''a:1''] (\<lambda>_. 0) (\<lambda>_. None) True of
      Running s \<Rightarrow> Some s | _ \<Rightarrow> None) = Some False" by code_simp
  then obtain s where s: "main [''election'', ''a:1''] (\<lambda>_. 0) (\<lambda>_. None) True = Running s" "\<not> crashed s" "\<not> crashed (Stop s)"
    by (auto split: mainEnd.splits)
  let ?P = "(runningProcess s)\<lparr>p_sys := Stop s, p_stop := Some (nextCall s)\<rparr>"
  have r: "proc_step\<^sup>*\<^sup>* (runningProcess s) ?P"
    using proc_step.signal [of "runningProcess s"] s(2) by (auto simp: runningProcess_def)
  from signal_stops_command [OF s(1) r] s r show ?thesis by (fastforce simp: runningProcess_def)
qed

end
