(* ===== verification/Spec2Isabelle.thy ===== *)
theory Spec2Isabelle
  imports Cluster_Properties Node_Scenarios Role_Specs Sim_Specs Production_Timers Cmd_Specs
begin

text \<open>
  \<^bold>\<open>A verification library for election.go.\<close>

  The program elects one leader among a set of peers. Each peer runs a node
  (\<open>src/election.go\<close>): a coroutine state machine with the roles follower, candidate and
  leader, which talks to the outside through five kinds of IO requests (send an RPC, receive
  an event, set a timer, cancel one, read the clock; \<open>src/internal/engine\<close>). A production
  adapter (\<open>src/internal/prod\<close>) answers these requests with goroutines and channels, a
  simulation (\<open>src/internal/sim\<close>) with a virtual clock, a timer heap and a fault-injecting
  network. Votes and heartbeats are RPCs between nodes; resignation, shutdown, new peers and
  new metadata are events from the API.

  \<^bold>\<open>Theories and sources.\<close>

  \<^item> \<open>Election_Prelude\<close>: durations, times, byte slices and 64-bit arithmetic as Go has them;
    list lemmas.
  \<^item> \<open>Engine\<close>: the message types of \<open>internal/engine/engine.go\<close> and \<open>rpc.go\<close>.
  \<^item> \<open>Coroutine\<close>: a coroutine body as a tree of IO requests (\<open>Yield\<close>, for
    \<open>gocoro.YieldAndAwait\<close>), awaited promises (\<open>Await\<close>), results and panics, with a
    rely-guarantee predicate \<open>rg\<close> over such trees.
  \<^item> \<open>Node\<close>: \<open>Config\<close>, the \<open>node\<close> struct, \<open>NewNode\<close>, \<open>NewNodeForSim\<close>, the atomic
    readers and the helpers. Fields \<open>a_*\<close> are the atomics; \<open>world\<close> adds the callbacks
    called and the coroutines spawned.
  \<^item> \<open>Handlers\<close>: \<open>processRPC\<close>, every \<open>handle*\<close> method, the fan-outs.
  \<^item> \<open>Roles\<close>: \<open>run\<close>, \<open>runFollower\<close>, \<open>runCandidate\<close>, \<open>electSelf\<close>, \<open>runLeader\<close> and
    the spawned coroutines. Loops are cut at their heads; \<open>pc\<close> is the loop head with its
    local variables, \<open>main_seg\<close> the code up to the next one.
  \<^item> \<open>Node_Machine\<close>: all coroutines of one node as a step relation. A step resumes any
    coroutine that is not waiting for another, with any answer; this covers every scheduler
    and every IO adapter. The interface \<open>node_contract\<close> says what the main coroutine and
    the spawned ones may assume of each other, and gives invariants of all reachable
    configurations.
  \<^item> \<open>Node_Contracts\<close>, \<open>Node_Votes\<close>: its two implementations on the model, one for what
    readers see and for panics, one for votes and terms.
  \<^item> \<open>Handler_Specs\<close>, \<open>Election_Specs\<close>, \<open>Role_Specs\<close>: what each handler, an election, the
    leader's check and the API events compute, on every branch.
  \<^item> \<open>Quorum\<close>: the interface \<open>majority_rule\<close> and \<open>quorumSize\<close> as its implementation.
  \<^item> \<open>Node_Exec\<close>, \<open>Samples\<close>: an executable form of the step relation, sound and complete
    for it, and concrete nodes.
  \<^item> \<open>Node_Properties\<close>, \<open>Node_Scenarios\<close>: properties of all runs of a node, and runs that
    contradict the documents.
  \<^item> \<open>Ballots\<close>: what an election promises, as a ballot box: one ballot per member and term, a
    candidate elected once it has a quorum of ballots. The interface \<open>refines\<close> is forward
    simulation of an abstract system.
  \<^item> \<open>Cluster\<close>: nodes with one peer list and the network between them as a step relation.
    Messages may be lost, late or repeated; a response is one that the asked node gave to this
    request; a timer fires at most once, at any time. Two history variables record the
    votes and the leaders.
  \<^item> \<open>Cluster_Votes\<close>: what each part of a node's main coroutine does for the votes, relative to
    what the node knows of the cluster. The predicate \<open>okm\<close> is \<open>rg\<close> with this knowledge.
  \<^item> \<open>Cluster_Safety\<close>, \<open>Cluster_Properties\<close>: the invariant of a cluster, its interpretation of
    \<open>refines\<close> for the ballot box, election safety, and the runs that show its limits.
  \<^item> \<open>Heap_Lists\<close>, \<open>Timer_Heap\<close>, \<open>Timer_Queue\<close>: \<open>internal/sim/heap.go\<close> over an explicit
    store of timer objects, with the loops of Go's \<open>container/heap\<close>; the interface
    \<open>timer_queue\<close>.
  \<^item> \<open>Sim\<close>, \<open>Sim_Specs\<close>: \<open>internal/sim/sim.go\<close>, \<open>simio.go\<close> and \<open>clock.go\<close>: the virtual
    clock, the queue of RPCs with partitions, drops and delays, the step and the loops that
    drive it. The coroutine scheduler is a parameter; \<open>io_scheduler\<close> says that it reaches the
    simulation only through \<open>Dispatch\<close>.
  \<^item> \<open>Base64\<close>, \<open>Utf8\<close>, \<open>Rpc_Codec\<close>: \<open>MarshalJSON\<close> and \<open>UnmarshalJSON\<close> of
    \<open>internal/engine/rpc.go\<close> on JSON values, with what they use of Go's library; the
    interface \<open>codec\<close> of a payload type, implemented by each of them.
  \<^item> \<open>Production\<close>, \<open>Production_Specs\<close>, \<open>Production_Timers\<close>: \<open>Start\<close>, \<open>Stop\<close>, \<open>forceShutdown\<close>, \<open>ReceiveRPC\<close>,
    \<open>SetPeers\<close>, \<open>SetMetadata\<close>, \<open>Resign\<close> of \<open>election.go\<close> with \<open>internal/prod\<close>: API calls,
    goroutines, timers and the main loop as the steps \<open>sys_step\<close> of one system that shares
    channels. A call runs to its next blocking select in one step.
  \<^item> \<open>Cmd\<close>, \<open>Cmd_Specs\<close>: \<open>cmd/election/main.go\<close>, with HTTP as a parameter: the client, the
    handler, the way to a running node, and the process that runs until a signal.

  \<^bold>\<open>What is shown.\<close> Election safety: in a cluster in which no node lowers its term, at most one
  node is ever elected with votes of a term (C1), because every run is one of the ballot box
  (C2). Each node votes for at most one candidate per term (C3), by the decision of C4; the
  main coroutine never lowers the term (C5), but a late heartbeat answer can, and then two
  leaders of one term are possible (C6); a leader that takes over a higher term shows the
  term of another leader (C7). The assumption of C1 is about this one assignment and about
  the wrap-around of the term; a changed peer list is outside of C1, too.

  Readers agree with the coroutine state (C8); no coroutine panics (C9); the code after
  the leader's loop is dead (C10). RPCs are answered once (C11, C12); an election asks every
  peer once and counts as the declarative tally does (C13, C14); a leader that lost its
  quorum steps down (C15). Construction, random timeouts, entering a role, shutdown,
  resignation and reconfiguration are C16 to C21. The timer heap returns timers in order,
  never panics, and cancels exactly when ids are distinct (C22 to C24), which they are not
  between nodes (C25). C26 is a run in which a candidate wins without a quorum of its peers.

  The simulation's clock never goes back (C27); undelayed RPCs are delivered in order before
  the timers of the moment (C30), partitions block exactly what they should (C31), but a
  delayed RPC is never delivered (C28) and can make \<open>RunFor\<close> loop forever (C29). Requests and
  responses survive the wire (C32, C33). In production, panics need a forced shutdown or a
  \<open>Stop\<close> on a node without adapter (C34), a forced shutdown does make them possible (C35),
  the event of an API call is never lost nor delivered twice (C36), and neither is a timer
  (C37), which is what the cluster assumes. The command carries RPCs over HTTP unchanged
  (C38), gets to a running node (C39) and stops on a signal (C40).

  \<^bold>\<open>Bounds.\<close> Terms and counters are 64-bit words and wrap; durations are integers with the
  wrap-around written out. The functions of a node are total: loops over peers and votes
  are structural, the heap loops have a measure, and the endless event loops are steps of a
  relation, so no fuel is needed. That a node always gets back to waiting for an event is
  C18. The loops of the simulation can run forever and are partial functions, with \<open>None\<close>
  for no result. \<open>RunUntilLeader\<close> keeps its limit of a million steps.

  \<^bold>\<open>Not modelled.\<close> Logging; the coroutine package (its scheduler is a step relation of one
  node, a parameter of the simulation, and an open choice in production); the text of JSON
  values; contexts beyond the fact that they may end at any time. The methods of
  \<open>election.go\<close> that run between two selects are one step, so that a shutdown between the
  check and the send in one \<open>Stop\<close> is not seen; such a send panics under the condition of
  C34. In a cluster, nodes do not restart (they would forget their votes, which are not
  stored) and keep their peer lists. The aliases of \<open>rpc.go\<close> have no behaviour.
\<close>

end
